theory Spec2Isabelle
  imports Complex_Main
begin

section \<open>Errors\<close>

text \<open>
  Every exception of the TypeScript sources is a value. \<open>WorkflowError\<close> carries the
  message, the step name and the recoverable flag of the class in \<^verbatim>\<open>helpers.ts\<close>
  (the flag defaults to false); \<open>JsError\<close> is a plain \<^verbatim>\<open>new Error(msg)\<close>;
  \<open>TypeError\<close> and \<open>SyntaxError\<close> are the errors the JavaScript runtime raises itself;
  \<open>UpstreamError\<close> is a rejected call of the upstream client.
\<close>

datatype error =
    WorkflowError string string bool
  | JsError string
  | TypeError
  | SyntaxError
  | UpstreamError string

section \<open>JSON values and the item projection\<close>

text \<open>
  Upstream items are untyped objects (\<^verbatim>\<open>Record<string, unknown>\<close>). \<open>JUndefined\<close> is
  JavaScript's \<^verbatim>\<open>undefined\<close>, which an object can hold as the value of a key. An
  object is the list of its own keys and values in insertion order.
\<close>

datatype json =
    JUndefined
  | JNull
  | JBool bool
  | JNum rat
  | JStr string
  | JArr "json list"
  | JObj "(string \<times> json) list"

text \<open>
  Reading a property \<^verbatim>\<open>v.k\<close> of a value that is neither null nor undefined. The
  keys the projection reads are not properties of strings, numbers, booleans or
  arrays, so it is \<^verbatim>\<open>undefined\<close> there.
\<close>

fun getProp :: "json \<Rightarrow> string \<Rightarrow> json" where
  "getProp (JObj kvs) k = (case map_of kvs k of None \<Rightarrow> JUndefined | Some v \<Rightarrow> v)"
| "getProp v k = JUndefined"

definition nullish :: "json \<Rightarrow> bool" where
  "nullish v = (v = JUndefined \<or> v = JNull)"

text \<open>JavaScript's truthiness, as \<^verbatim>\<open>!props\<close> tests it.\<close>

fun truthy :: "json \<Rightarrow> bool" where
  "truthy JUndefined = False"
| "truthy JNull = False"
| "truthy (JBool b) = b"
| "truthy (JNum n) = (n \<noteq> 0)"
| "truthy (JStr s) = (s \<noteq> [])"
| "truthy (JArr xs) = True"
| "truthy (JObj kvs) = True"

text \<open>\<^verbatim>\<open>a ?? b\<close> and \<^verbatim>\<open>v?.k\<close>.\<close>

definition coalesce :: "json \<Rightarrow> json \<Rightarrow> json" where
  "coalesce a b = (if nullish a then b else a)"

definition optProp :: "json \<Rightarrow> string \<Rightarrow> json" where
  "optProp v k = (if nullish v then JUndefined else getProp v k)"

text \<open>
  \<open>extractItemFields\<close> returns the four fields \<open>name\<close>, \<open>url\<close>, \<open>entityType\<close> and
  \<open>description\<close>, in this order. Reading \<^verbatim>\<open>item.properties\<close> of an item that is null or
  undefined is a TypeError.
\<close>

definition extractItemFields :: "json \<Rightarrow> error + (json \<times> json \<times> json \<times> json)" where
  "extractItemFields item =
     (if nullish item then Inl TypeError
      else
        let props = getProp item ''properties'' in
        if \<not> truthy props then Inr (JStr ''unknown'', JStr [], JStr ''unknown'', JStr [])
        else
          let company = getProp props ''company'';
              person = getProp props ''person'';
              article = getProp props ''article'';
              researchPaper = getProp props ''researchPaper'';
              custom = getProp props ''custom'';
              name = coalesce (optProp company ''name'')
                      (coalesce (optProp person ''name'')
                        (coalesce (optProp article ''title'')
                          (coalesce (optProp researchPaper ''title'')
                            (coalesce (optProp custom ''title'')
                              (coalesce (getProp props ''description'') (JStr ''unknown''))))));
              url' = coalesce (getProp props ''url'') (JStr []);
              entityType = coalesce (getProp props ''type'') (JStr ''unknown'');
              description = coalesce (getProp props ''description'') (JStr [])
          in Inr (name, url', entityType, description))"

text \<open>
  \<^verbatim>\<open>xs.map(f)\<close> where \<open>f\<close> may throw: the first error ends the loop.
\<close>

fun mapE :: "('a \<Rightarrow> error + 'b) \<Rightarrow> 'a list \<Rightarrow> error + 'b list" where
  "mapE f [] = Inr []"
| "mapE f (x # xs) =
     (case f x of
        Inl e \<Rightarrow> Inl e
      | Inr y \<Rightarrow> (case mapE f xs of Inl e \<Rightarrow> Inl e | Inr ys \<Rightarrow> Inr (y # ys)))"

text \<open>
  \<^verbatim>\<open>v?.map(e => ({k1: e.k1, ...})) ?? null\<close>: null when \<open>v\<close> is null or undefined, a
  TypeError when \<open>v\<close> is not an array (it has no \<^verbatim>\<open>map\<close>) or an element is null or
  undefined.
\<close>

definition pick :: "string list \<Rightarrow> json \<Rightarrow> error + json" where
  "pick keys e =
     (if nullish e then Inl TypeError else Inr (JObj (map (\<lambda>k. (k, getProp e k)) keys)))"

definition projectArray :: "string list \<Rightarrow> json \<Rightarrow> error + json" where
  "projectArray keys v =
     (if nullish v then Inr JNull
      else case v of
        JArr xs \<Rightarrow> (case mapE (pick keys) xs of Inl e \<Rightarrow> Inl e | Inr ys \<Rightarrow> Inr (JArr ys))
      | _ \<Rightarrow> Inl TypeError)"

definition projectItem :: "json \<Rightarrow> error + json" where
  "projectItem item =
     (case extractItemFields item of
        Inl e \<Rightarrow> Inl e
      | Inr (name, url', entityType, description) \<Rightarrow>
          (case projectArray [''criterion'', ''satisfied''] (getProp item ''evaluations'') of
             Inl e \<Rightarrow> Inl e
           | Inr projectedEvals \<Rightarrow>
               (case projectArray [''description'', ''format'', ''result'']
                       (getProp item ''enrichments'') of
                  Inl e \<Rightarrow> Inl e
                | Inr projectedEnrichments \<Rightarrow>
                    Inr (JObj [(''id'', getProp item ''id''),
                               (''name'', name),
                               (''url'', url'),
                               (''entityType'', entityType),
                               (''description'', description),
                               (''evaluations'', projectedEvals),
                               (''enrichments'', projectedEnrichments)]))))"

text \<open>
  A projected item with its four identity fields set to what \<open>extractItemFields\<close>
  gives an item without \<^verbatim>\<open>properties\<close>.
\<close>

definition withoutIdentity :: "json \<Rightarrow> json" where
  "withoutIdentity y =
     JObj [(''id'', getProp y ''id''),
           (''name'', JStr ''unknown''),
           (''url'', JStr []),
           (''entityType'', JStr ''unknown''),
           (''description'', JStr []),
           (''evaluations'', getProp y ''evaluations''),
           (''enrichments'', getProp y ''enrichments'')]"

text \<open>The raw item of the projection tests (\<^verbatim>\<open>makeItem()\<close>).\<close>

definition acmeItem :: json where
  "acmeItem =
     JObj [(''id'', JStr ''item-1''),
           (''object'', JStr ''webset_item''),
           (''websetId'', JStr ''ws-1''),
           (''sourceId'', JStr ''src-1''),
           (''source'', JStr ''search''),
           (''createdAt'', JStr ''2024-01-01T00:00:00Z''),
           (''properties'',
              JObj [(''type'', JStr ''company''),
                    (''url'', JStr ''https://acme.com''),
                    (''description'', JStr ''A company that makes everything''),
                    (''company'', JObj [(''name'', JStr ''Acme Corp''),
                                        (''domain'', JStr ''acme.com''),
                                        (''industry'', JStr ''Manufacturing'')]),
                    (''content'', JStr ''Very long content string'')]),
           (''evaluations'',
              JArr [JObj [(''criterion'', JStr ''Is a technology company''),
                          (''satisfied'', JStr ''yes''),
                          (''reasoning'', JStr ''The company develops technology products''),
                          (''references'', JArr [JStr ''https://acme.com/about''])],
                    JObj [(''criterion'', JStr ''Has over 100 employees''),
                          (''satisfied'', JStr ''no''),
                          (''reasoning'', JStr ''Could not determine employee count''),
                          (''references'', JArr [])]]),
           (''enrichments'',
              JArr [JObj [(''enrichmentId'', JStr ''enr-1''),
                          (''description'', JStr ''Annual revenue''),
                          (''format'', JStr ''number''),
                          (''status'', JStr ''completed''),
                          (''result'', JArr [JStr ''50000000'']),
                          (''reasoning'', JStr ''Based on public filings''),
                          (''references'', JArr [JStr ''https://sec.gov/'']),
                          (''object'', JStr ''webset_item_enrichment'')]])]"

text \<open>What the projection tests expect for it.\<close>

definition acmeProjected :: json where
  "acmeProjected =
     JObj [(''id'', JStr ''item-1''),
           (''name'', JStr ''Acme Corp''),
           (''url'', JStr ''https://acme.com''),
           (''entityType'', JStr ''company''),
           (''description'', JStr ''A company that makes everything''),
           (''evaluations'',
              JArr [JObj [(''criterion'', JStr ''Is a technology company''),
                          (''satisfied'', JStr ''yes'')],
                    JObj [(''criterion'', JStr ''Has over 100 employees''),
                          (''satisfied'', JStr ''no'')]]),
           (''enrichments'',
              JArr [JObj [(''description'', JStr ''Annual revenue''),
                          (''format'', JStr ''number''),
                          (''result'', JArr [JStr ''50000000''])]])]"

text \<open>The item of the test \<^verbatim>\<open>handles missing properties gracefully\<close>.\<close>

definition bareItem :: json where
  "bareItem = JObj [(''id'', JStr ''bare'')]"

definition bareProjected :: json where
  "bareProjected =
     JObj [(''id'', JStr ''bare''),
           (''name'', JStr ''unknown''),
           (''url'', JStr []),
           (''entityType'', JStr ''unknown''),
           (''description'', JStr []),
           (''evaluations'', JNull),
           (''enrichments'', JNull)]"

section \<open>Built-ins of the JavaScript runtime\<close>

text \<open>
  The shape evaluator calls \<^verbatim>\<open>Number\<close>, \<^verbatim>\<open>new Date(s).getTime()\<close>,
  \<^verbatim>\<open>Date.now()\<close>, \<^verbatim>\<open>new RegExp(p).test(s)\<close> and \<^verbatim>\<open>toLowerCase\<close>; the workflows
  format numbers (\<^verbatim>\<open>toFixed(0)\<close>), values inside template literals (\<open>String_of\<close>) and
  dates (\<^verbatim>\<open>toISOString\<close>). They are not code of the repository and are taken as
  parameters. \<open>None\<close> stands for \<^verbatim>\<open>NaN\<close> in the numeric ones and for the
  \<^verbatim>\<open>SyntaxError\<close> of an ill-formed pattern in \<open>RegExp_test\<close>. Numbers that come from
  configuration or arguments are rationals, timestamps are integers (milliseconds).
  \<open>Date_now\<close> is the time at which a shape is evaluated.

  The arithmetic of the runtime is that of the doubles: a product, a sum, a difference
  or a quotient is the exact result rounded to a double, so it need not be the exact
  result. \<open>fmul\<close>, \<open>fadd\<close>, \<open>fsub\<close> and \<open>fdiv\<close> are \<^verbatim>\<open>a * b\<close>, \<^verbatim>\<open>a + b\<close>, \<^verbatim>\<open>a - b\<close> and
  \<^verbatim>\<open>a / b\<close> as the runtime computes them, where the code multiplies a number of days by
  86400000, adds a timeout to a clock reading, subtracts two dates and divides a
  duration by 1000. Nothing is assumed of them; an infinite result is any number above
  every double. Comparisons are exact, and so is the doubling of a count. The readings
  of the clock are whole numbers of milliseconds since 1970, below the 53rd power of 2,
  so the difference of two of them is exact.
\<close>

record builtins =
  Number :: "string \<Rightarrow> rat option"
  Date_getTime :: "string \<Rightarrow> int option"
  Date_now :: int
  RegExp_test :: "string \<Rightarrow> string \<Rightarrow> bool option"
  toLowerCase :: "string \<Rightarrow> string"
  Number_toString :: "rat \<Rightarrow> string"
  Number_toFixed0 :: "rat \<Rightarrow> string"
  String_of :: "json \<Rightarrow> string"
  toISOString :: "int \<Rightarrow> string"
  fmul :: "rat \<Rightarrow> rat \<Rightarrow> rat"
  fadd :: "rat \<Rightarrow> rat \<Rightarrow> rat"
  fsub :: "rat \<Rightarrow> rat \<Rightarrow> rat"
  fdiv :: "rat \<Rightarrow> rat \<Rightarrow> rat"

section \<open>Semantic cron: conditions\<close>

text \<open>
  \<^verbatim>\<open>Condition.value\<close> has the type \<^verbatim>\<open>number | string | string[] | undefined\<close>.
\<close>

datatype cond_value = VUndefined | VNum rat | VStr string | VList "string list"

record Condition =
  enrichment :: string
  operator :: string
  cvalue :: cond_value

text \<open>The double quote character.\<close>

abbreviation DQ :: char where
  "DQ \<equiv> CHR 0x22"

text \<open>\<^verbatim>\<open>Array.prototype.join\<close>.\<close>

fun join :: "string \<Rightarrow> string list \<Rightarrow> string" where
  "join sep [] = []"
| "join sep [x] = x"
| "join sep (x # y # ys) = x @ sep @ join sep (y # ys)"

text \<open>
  What a condition value becomes where the code uses it as a number
  (\<^verbatim>\<open>condition.value as number\<close> is a cast, not a conversion: a string or an array is
  converted by the comparison or the multiplication itself, \<^verbatim>\<open>undefined\<close> is \<^verbatim>\<open>NaN\<close>).
\<close>

fun toNumeric :: "builtins \<Rightarrow> cond_value \<Rightarrow> rat option" where
  "toNumeric js VUndefined = None"
| "toNumeric js (VNum n) = Some n"
| "toNumeric js (VStr s) = Number js s"
| "toNumeric js (VList xs) = Number js (join '','' xs)"

text \<open>\<^verbatim>\<open>String.prototype.includes\<close>: the argument occurs as a contiguous part.\<close>

fun str_includes :: "string \<Rightarrow> string \<Rightarrow> bool" where
  "str_includes [] needle = (needle = [])"
| "str_includes (c # cs) needle =
     (take (length needle) (c # cs) = needle \<or> str_includes cs needle)"

text \<open>The pattern source \<^verbatim>\<open>new RegExp(v)\<close> is built from.\<close>

fun regexSource :: "builtins \<Rightarrow> cond_value \<Rightarrow> string" where
  "regexSource js VUndefined = ''(?:)''"
| "regexSource js (VNum n) = Number_toString js n"
| "regexSource js (VStr s) = s"
| "regexSource js (VList xs) = join '','' xs"

text \<open>The inner \<^verbatim>\<open>switch\<close> of the numeric operators.\<close>

definition compareNum :: "string \<Rightarrow> rat \<Rightarrow> cond_value \<Rightarrow> rat option \<Rightarrow> bool" where
  "compareNum op num v target =
     (if op = ''eq'' then (case v of VNum t \<Rightarrow> num = t | _ \<Rightarrow> False)
      else case target of
        None \<Rightarrow> False
      | Some t \<Rightarrow>
          if op = ''gte'' then num \<ge> t
          else if op = ''gt'' then num > t
          else if op = ''lte'' then num \<le> t
          else num < t)"

definition evaluateCondition ::
  "builtins \<Rightarrow> Condition \<Rightarrow> string list option \<Rightarrow> error + bool" where
  "evaluateCondition js condition enrichmentResult =
     (if operator condition = ''exists'' then
        Inr (case enrichmentResult of
               None \<Rightarrow> False
             | Some [] \<Rightarrow> False
             | Some (first # _) \<Rightarrow> length first > 0)
      else case enrichmentResult of
        None \<Rightarrow> Inr False
      | Some [] \<Rightarrow> Inr False
      | Some (raw # _) \<Rightarrow>
          if operator condition \<in> {''gte'', ''gt'', ''lte'', ''lt'', ''eq''} then
            (case Number js raw of
               None \<Rightarrow> Inr False
             | Some num \<Rightarrow>
                 Inr (compareNum (operator condition) num (cvalue condition)
                        (toNumeric js (cvalue condition))))
          else if operator condition = ''contains'' then
            (case cvalue condition of
               VStr s \<Rightarrow> Inr (str_includes (toLowerCase js raw) (toLowerCase js s))
             | _ \<Rightarrow> Inl TypeError)
          else if operator condition = ''matches'' then
            (case RegExp_test js (regexSource js (cvalue condition)) raw of
               None \<Rightarrow> Inl SyntaxError
             | Some b \<Rightarrow> Inr b)
          else if operator condition = ''oneOf'' then
            (case cvalue condition of
               VList options \<Rightarrow>
                 Inr (list_ex (\<lambda>opt. toLowerCase js opt = toLowerCase js raw) options)
             | _ \<Rightarrow> Inl TypeError)
          else if operator condition = ''withinDays'' then
            (case Date_getTime js raw of
               None \<Rightarrow> Inr False
             | Some parsed \<Rightarrow>
                 (case toNumeric js (cvalue condition) of
                    None \<Rightarrow> Inr False
                  | Some days \<Rightarrow>
                      Inr (\<bar>fsub js (of_int (Date_now js)) (of_int parsed)\<bar>
                             \<le> fmul js days 86400000)))
          else Inr False)"

section \<open>Semantic cron: join results and the signal evaluator\<close>

text \<open>
  \<^verbatim>\<open>[...new Set(xs)]\<close>: the elements in the order of their first occurrence.
\<close>

definition uniq :: "'a list \<Rightarrow> 'a list" where
  "uniq xs = rev (remdups (rev xs))"

text \<open>
  A \<^verbatim>\<open>Map\<close> is an association list with distinct keys in insertion order; \<open>assign\<close> is
  \<^verbatim>\<open>map.set(k, v)\<close>, which keeps the place of a key that is already there.
\<close>

fun assign :: "'k \<Rightarrow> 'v \<Rightarrow> ('k \<times> 'v) list \<Rightarrow> ('k \<times> 'v) list" where
  "assign k v [] = [(k, v)]"
| "assign k v ((k', v') # kvs) =
     (if k' = k then (k, v) # kvs else (k', v') # assign k v kvs)"

type_synonym enrichment_values = "(string \<times> string option) list"

record JoinedEntity =
  entity :: string
  url :: string
  presentInLenses :: "string list"
  lensCount :: nat
  shapes :: "(string \<times> enrichment_values) list"

datatype join_by = Entity | Temporal | EntityTemporal | Cooccurrence

record JoinResult =
  jtype :: join_by
  entities :: "JoinedEntity list"
  lensesWithEvidence :: "string list"

datatype requires_type = All | Any | Threshold | Combination

record Requires =
  rtype :: requires_type
  rmin :: "rat option"
  sufficient :: "string list list option"

record SignalConfig =
  sproxy :: "string option"
  requires :: Requires

record SignalResult =
  fired :: bool
  satisfiedBy :: "string list"
  rule :: requires_type
  matchedCombination :: "string list option"
  sentities :: "string list"

text \<open>\<^verbatim>\<open>min ?? 2\<close>.\<close>

definition minOrDefault :: "rat option \<Rightarrow> rat" where
  "minOrDefault m = (case m of None \<Rightarrow> 2 | Some v \<Rightarrow> v)"

text \<open>
  The loop of the \<^verbatim>\<open>combination\<close> case over entities: the first sufficient set that
  some entity covers, with the entities that cover it.
\<close>

fun firstMatchingCombo ::
  "JoinedEntity list \<Rightarrow> string list list \<Rightarrow> (JoinedEntity list \<times> string list) option" where
  "firstMatchingCombo es [] = None"
| "firstMatchingCombo es (combo # combos) =
     (let matching = filter (\<lambda>e. list_all (\<lambda>lensId. lensId \<in> set (presentInLenses e)) combo) es
      in if length matching > 0 then Some (matching, combo)
         else firstMatchingCombo es combos)"

definition evaluateSignalWithEntities ::
  "JoinResult \<Rightarrow> SignalConfig \<Rightarrow> string list \<Rightarrow> error + SignalResult" where
  "evaluateSignalWithEntities joinResult signalConfig allLensIds =
     (let req = requires signalConfig in
      case rtype req of
        Combination \<Rightarrow>
          (case sufficient req of
             None \<Rightarrow> Inl TypeError
           | Some combos \<Rightarrow>
               (let found = firstMatchingCombo (entities joinResult) combos;
                    matchingEntities = (case found of None \<Rightarrow> [] | Some (m, _) \<Rightarrow> m)
                in Inr \<lparr> fired = length matchingEntities > 0,
                         satisfiedBy = uniq (concat (map presentInLenses matchingEntities)),
                         rule = Combination,
                         matchedCombination = map_option snd found,
                         sentities = map entity matchingEntities \<rparr>))
      | t \<Rightarrow>
          (let matchingEntities =
                 (case t of
                    All \<Rightarrow> filter (\<lambda>e. list_all (\<lambda>i. i \<in> set (presentInLenses e)) allLensIds)
                             (entities joinResult)
                  | Any \<Rightarrow> entities joinResult
                  | _ \<Rightarrow> filter (\<lambda>e. of_nat (lensCount e) \<ge> minOrDefault (rmin req))
                           (entities joinResult))
           in Inr \<lparr> fired = length matchingEntities > 0,
                    satisfiedBy = uniq (concat (map presentInLenses matchingEntities)),
                    rule = t,
                    matchedCombination = None,
                    sentities = map entity matchingEntities \<rparr>))"

text \<open>The loop of the \<^verbatim>\<open>combination\<close> case over the lens evidence.\<close>

definition firstCoveredCombo :: "string list \<Rightarrow> string list list \<Rightarrow> string list option" where
  "firstCoveredCombo evidence combos =
     find (\<lambda>combo. list_all (\<lambda>lensId. lensId \<in> set evidence) combo) combos"

definition evaluateSignalWithEvidence ::
  "JoinResult \<Rightarrow> SignalConfig \<Rightarrow> string list \<Rightarrow> error + SignalResult" where
  "evaluateSignalWithEvidence joinResult signalConfig allLensIds =
     (let evidence = lensesWithEvidence joinResult; req = requires signalConfig in
      case rtype req of
        All \<Rightarrow> Inr \<lparr> fired = list_all (\<lambda>i. i \<in> set evidence) allLensIds,
                     satisfiedBy = evidence, rule = All, matchedCombination = None,
                     sentities = [] \<rparr>
      | Any \<Rightarrow> Inr \<lparr> fired = length evidence > 0,
                     satisfiedBy = evidence, rule = Any, matchedCombination = None,
                     sentities = [] \<rparr>
      | Threshold \<Rightarrow> Inr \<lparr> fired = of_nat (length evidence) \<ge> minOrDefault (rmin req),
                     satisfiedBy = evidence, rule = Threshold, matchedCombination = None,
                     sentities = [] \<rparr>
      | Combination \<Rightarrow>
          (case sufficient req of
             None \<Rightarrow> Inl TypeError
           | Some combos \<Rightarrow>
               (let found = firstCoveredCombo evidence combos
                in Inr \<lparr> fired = (found \<noteq> None),
                         satisfiedBy = evidence, rule = Combination,
                         matchedCombination = found,
                         sentities = [] \<rparr>)))"

text \<open>
  The validation at the head of \<^verbatim>\<open>evaluateSignal\<close>: the first lens id of a sufficient set
  that is not declared, in the order of the two nested loops.
\<close>

definition unknownLens :: "string list \<Rightarrow> string list list \<Rightarrow> string option" where
  "unknownLens allLensIds combos = find (\<lambda>lensId. lensId \<notin> set allLensIds) (concat combos)"

definition validateCombination :: "SignalConfig \<Rightarrow> string list \<Rightarrow> error option" where
  "validateCombination signalConfig allLensIds =
     (if rtype (requires signalConfig) = Combination then
        (case sufficient (requires signalConfig) of
           None \<Rightarrow> Some (WorkflowError
             ''signal.requires.sufficient must be provided for combination type'' ''validate'' False)
         | Some combos \<Rightarrow>
             if length combos = 0 then Some (WorkflowError
               ''signal.requires.sufficient must be provided for combination type'' ''validate'' False)
             else (case unknownLens allLensIds combos of
                     None \<Rightarrow> None
                   | Some lensId \<Rightarrow> Some (WorkflowError
                       (''Unknown lens ID '' @ [DQ] @ lensId @ [DQ] @
                        '' in signal.requires.sufficient. Available: '' @
                        join '', '' allLensIds) ''validate'' False)))
      else None)"

definition evaluateSignal ::
  "JoinResult \<Rightarrow> SignalConfig \<Rightarrow> string list \<Rightarrow> error + SignalResult" where
  "evaluateSignal joinResult signalConfig allLensIds =
     (case validateCombination signalConfig allLensIds of
        Some err \<Rightarrow> Inl err
      | None \<Rightarrow>
          (let hasEntities = length (entities joinResult) > 0 in
           if hasEntities then evaluateSignalWithEntities joinResult signalConfig allLensIds
           else evaluateSignalWithEvidence joinResult signalConfig allLensIds))"

text \<open>
  What it means for one joined entity to satisfy the signal rule, in the words of the
  specification: \<^verbatim>\<open>all\<close> - every declared lens is represented; \<^verbatim>\<open>any\<close> - at least
  one; \<^verbatim>\<open>threshold\<close> - at least \<^verbatim>\<open>min\<close> (default 2) lenses; \<^verbatim>\<open>combination\<close> - one of
  the sufficient sets is fully covered.
\<close>

definition entitySatisfies :: "SignalConfig \<Rightarrow> string list \<Rightarrow> JoinedEntity \<Rightarrow> bool" where
  "entitySatisfies signalConfig allLensIds e =
     (case rtype (requires signalConfig) of
        All \<Rightarrow> set allLensIds \<subseteq> set (presentInLenses e)
      | Any \<Rightarrow> True
      | Threshold \<Rightarrow> of_nat (lensCount e) \<ge> minOrDefault (rmin (requires signalConfig))
      | Combination \<Rightarrow>
          (case sufficient (requires signalConfig) of
             None \<Rightarrow> False
           | Some combos \<Rightarrow> list_ex (\<lambda>combo. set combo \<subseteq> set (presentInLenses e)) combos))"

text \<open>
  What it means for the lens evidence to satisfy the signal rule, in the same words:
  \<^verbatim>\<open>all\<close> - every declared lens is in the evidence; \<^verbatim>\<open>any\<close> - the evidence has at least
  one lens; \<^verbatim>\<open>threshold\<close> - it has at least \<^verbatim>\<open>min\<close> (default 2) entries; \<^verbatim>\<open>combination\<close> -
  one of the sufficient sets is fully covered by it.
\<close>

definition evidenceSatisfies :: "SignalConfig \<Rightarrow> string list \<Rightarrow> string list \<Rightarrow> bool" where
  "evidenceSatisfies signalConfig allLensIds evidence =
     (case rtype (requires signalConfig) of
        All \<Rightarrow> set allLensIds \<subseteq> set evidence
      | Any \<Rightarrow> evidence \<noteq> []
      | Threshold \<Rightarrow> of_nat (length evidence) \<ge> minOrDefault (rmin (requires signalConfig))
      | Combination \<Rightarrow>
          (case sufficient (requires signalConfig) of
             None \<Rightarrow> False
           | Some combos \<Rightarrow> list_ex (\<lambda>combo. set combo \<subseteq> set evidence) combos))"

section \<open>Quality-diversity winnowing: niche classification\<close>

record Evaluation =
  criterion :: string
  satisfied :: string

text \<open>
  Modelled from the spec: \<^verbatim>\<open>classifyItem\<close> of \<^verbatim>\<open>qdWinnow.ts\<close>, which is not among the
  sources (its tests are). The specification: for an item with N criteria, build a
  boolean vector where position i is true iff the evaluation for criterion i has
  \<^verbatim>\<open>satisfied == "yes"\<close>; the niche key is this vector encoded as a comma-separated
  \<^verbatim>\<open>"1,0,1,..."\<close> string; items missing an evaluation for a given criterion contribute
  false at that position. The tests pass the criteria as their descriptions and expect
  \<^verbatim>\<open>'1,1'\<close>, \<^verbatim>\<open>'1,0'\<close>, \<^verbatim>\<open>'0,0,0'\<close>.
\<close>

definition criteriaVector :: "Evaluation list \<Rightarrow> string list \<Rightarrow> bool list" where
  "criteriaVector evaluations criteria =
     map (\<lambda>c. case find (\<lambda>e. criterion e = c) evaluations of
                 None \<Rightarrow> False
               | Some e \<Rightarrow> satisfied e = ''yes'') criteria"

definition nicheKey :: "bool list \<Rightarrow> string" where
  "nicheKey v = join '','' (map (\<lambda>b. if b then ''1'' else ''0'') v)"

definition classifyItem :: "Evaluation list \<Rightarrow> string list \<Rightarrow> string \<times> bool list" where
  "classifyItem evaluations criteria =
     (let v = criteriaVector evaluations criteria in (nicheKey v, v))"

section \<open>Semantic cron: the join engine\<close>

record ShapedItem =
  si_id :: string
  si_name :: string
  si_url :: string
  si_entityType :: string
  si_enrichments :: enrichment_values
  si_createdAt :: string
  si_projected :: json

record LensResult =
  lr_lensId :: string
  lr_websetId :: string
  lr_totalItems :: nat
  lr_shapedItems :: "ShapedItem list"

record EntityMatch =
  em_method :: "string option"
  nameThreshold :: "rat option"

record TemporalConfig =
  tc_window :: "string option"
  days :: "rat option"

record JoinConfig =
  jby :: join_by
  entityMatch :: "EntityMatch option"
  temporal :: "TemporalConfig option"
  minLensOverlap :: "rat option"

text \<open>
  A value of the \<^verbatim>\<open>entityMap\<close> of \<^verbatim>\<open>joinLensResults\<close>: the canonical name and URL, the
  set of lens ids (a \<^verbatim>\<open>Set\<close>, in insertion order), the enrichment values per lens and
  the recorded \<^verbatim>\<open>(lensId, createdAt)\<close> pairs.
\<close>

record Entry =
  e_entity :: string
  e_url :: string
  e_lenses :: "string list"
  e_shapes :: "(string \<times> enrichment_values) list"
  e_timestamps :: "(string \<times> string) list"

text \<open>
  \<^verbatim>\<open>joinConfig.entityMatch?.nameThreshold ?? 0.85\<close>. The literal is the double next
  below 85/100, and no double lies between the two: a double is greater than the one
  exactly when it is greater than the other.
\<close>

definition thresholdOf :: "JoinConfig \<Rightarrow> rat" where
  "thresholdOf joinConfig =
     (case entityMatch joinConfig of
        None \<Rightarrow> 85 / 100
      | Some em \<Rightarrow> (case nameThreshold em of None \<Rightarrow> 85 / 100 | Some t \<Rightarrow> t))"

text \<open>\<^verbatim>\<open>joinConfig.minLensOverlap ?? 2\<close>.\<close>

definition minOverlapOf :: "JoinConfig \<Rightarrow> rat" where
  "minOverlapOf joinConfig = (case minLensOverlap joinConfig of None \<Rightarrow> 2 | Some k \<Rightarrow> k)"

text \<open>\<^verbatim>\<open>joinConfig.temporal?.days\<close>; \<open>None\<close> is \<^verbatim>\<open>undefined\<close>.\<close>

definition temporalDaysOf :: "JoinConfig \<Rightarrow> rat option" where
  "temporalDaysOf joinConfig =
     (case temporal joinConfig of None \<Rightarrow> None | Some t \<Rightarrow> days t)"

text \<open>\<^verbatim>\<open>set.add(x)\<close>.\<close>

definition setAdd :: "'a \<Rightarrow> 'a list \<Rightarrow> 'a list" where
  "setAdd x xs = (if x \<in> set xs then xs else xs @ [x])"

text \<open>
  \<^verbatim>\<open>obj[k] = v\<close> on a plain object, as \<^verbatim>\<open>shapes\<close> is one. The keys of a plain object
  are listed with the array indices first, in ascending order, and the other keys after
  them in insertion order. An array index is a decimal numeral without a leading zero
  below 4294967295. A key that is there keeps its place.
\<close>

definition arrayIndex :: "string \<Rightarrow> int option" where
  "arrayIndex s =
     (if s \<noteq> [] \<and> list_all (\<lambda>c. 48 \<le> (of_char c :: int) \<and> (of_char c :: int) \<le> 57) s \<and>
         (length s = 1 \<or> hd s \<noteq> CHR ''0'')
      then (let n = foldl (\<lambda>a c. 10 * a + (of_char c - 48)) 0 s
            in if n < 4294967295 then Some n else None)
      else None)"

fun insertIndexed :: "int \<Rightarrow> string \<Rightarrow> 'v \<Rightarrow> (string \<times> 'v) list \<Rightarrow> (string \<times> 'v) list" where
  "insertIndexed n k v [] = [(k, v)]"
| "insertIndexed n k v ((k', v') # kvs) =
     (case arrayIndex k' of
        Some n' \<Rightarrow> if n' < n then (k', v') # insertIndexed n k v kvs
                   else (k, v) # (k', v') # kvs
      | None \<Rightarrow> (k, v) # (k', v') # kvs)"

definition assignProp :: "string \<Rightarrow> 'v \<Rightarrow> (string \<times> 'v) list \<Rightarrow> (string \<times> 'v) list" where
  "assignProp k v kvs =
     (if k \<in> fst ` set kvs then assign k v kvs
      else case arrayIndex k of
             None \<Rightarrow> kvs @ [(k, v)]
           | Some n \<Rightarrow> insertIndexed n k v kvs)"

text \<open>The three updates of an entry an item is folded into.\<close>

definition foldInto :: "string \<Rightarrow> ShapedItem \<Rightarrow> Entry \<Rightarrow> Entry" where
  "foldInto lensId si existing =
     existing\<lparr> e_lenses := setAdd lensId (e_lenses existing),
               e_shapes := assignProp lensId (si_enrichments si) (e_shapes existing),
               e_timestamps := e_timestamps existing @ [(lensId, si_createdAt si)] \<rparr>"

text \<open>
  The two tests of the inner loop. A string is truthy when it is not empty. The Dice
  coefficient is a function of \<^verbatim>\<open>convergent.ts\<close>, which is not among the sources; the
  join takes it as the parameter \<open>dice\<close>.
\<close>

definition urlMatch :: "ShapedItem \<Rightarrow> Entry \<Rightarrow> bool" where
  "urlMatch si existing =
     (si_url si \<noteq> [] \<and> e_url existing \<noteq> [] \<and> si_url si = e_url existing)"

definition nameMatch :: "(string \<Rightarrow> string \<Rightarrow> rat) \<Rightarrow> rat \<Rightarrow> ShapedItem \<Rightarrow> Entry \<Rightarrow> bool" where
  "nameMatch dice threshold si existing =
     (si_name si \<noteq> [] \<and> e_entity existing \<noteq> [] \<and>
      dice (si_name si) (e_entity existing) > threshold)"

text \<open>
  The inner loop \<^verbatim>\<open>for (const [key, existing] of entityMap)\<close>: the first entry, in
  insertion order, that passes one of the two tests takes the item, and the loop
  breaks. \<open>None\<close> when no entry does (\<^verbatim>\<open>matched\<close> stays false).
\<close>

fun matchExisting ::
  "(string \<Rightarrow> string \<Rightarrow> rat) \<Rightarrow> rat \<Rightarrow> string \<Rightarrow> ShapedItem \<Rightarrow>
   (string \<times> Entry) list \<Rightarrow> (string \<times> Entry) list option" where
  "matchExisting dice threshold lensId si [] = None"
| "matchExisting dice threshold lensId si ((key, existing) # rest) =
     (if urlMatch si existing then Some ((key, foldInto lensId si existing) # rest)
      else if nameMatch dice threshold si existing
        then Some ((key, foldInto lensId si existing) # rest)
      else map_option ((#) (key, existing)) (matchExisting dice threshold lensId si rest))"

text \<open>\<^verbatim>\<open>si.url || si.name || si.id\<close>.\<close>

definition entryKey :: "ShapedItem \<Rightarrow> string" where
  "entryKey si =
     (if si_url si \<noteq> [] then si_url si else if si_name si \<noteq> [] then si_name si else si_id si)"

definition newEntry :: "string \<Rightarrow> ShapedItem \<Rightarrow> Entry" where
  "newEntry lensId si =
     \<lparr> e_entity = si_name si, e_url = si_url si, e_lenses = [lensId],
       e_shapes = [(lensId, si_enrichments si)],
       e_timestamps = [(lensId, si_createdAt si)] \<rparr>"

text \<open>The body of the loop over the shaped items of one lens.\<close>

definition addItem ::
  "(string \<Rightarrow> string \<Rightarrow> rat) \<Rightarrow> rat \<Rightarrow> string \<Rightarrow>
   (string \<times> Entry) list \<Rightarrow> ShapedItem \<Rightarrow> (string \<times> Entry) list" where
  "addItem dice threshold lensId entityMap si =
     (case matchExisting dice threshold lensId si entityMap of
        Some entityMap' \<Rightarrow> entityMap'
      | None \<Rightarrow> assign (entryKey si) (newEntry lensId si) entityMap)"

definition buildEntityMap ::
  "(string \<Rightarrow> string \<Rightarrow> rat) \<Rightarrow> rat \<Rightarrow> LensResult list \<Rightarrow> (string \<times> Entry) list" where
  "buildEntityMap dice threshold lensResults =
     foldl (\<lambda>entityMap lr.
              foldl (addItem dice threshold (lr_lensId lr)) entityMap (lr_shapedItems lr))
       [] lensResults"

definition toJoined :: "Entry \<Rightarrow> JoinedEntity" where
  "toJoined e =
     \<lparr> entity = e_entity e, url = e_url e, presentInLenses = e_lenses e,
       lensCount = length (e_lenses e), shapes = e_shapes e \<rparr>"

text \<open>
  \<^verbatim>\<open>Math.abs(new Date(a).getTime() - new Date(b).getTime()) <= windowMs\<close>: false when
  one of the two dates does not parse (the difference is \<^verbatim>\<open>NaN\<close>).
\<close>

definition withinWindow :: "builtins \<Rightarrow> rat \<Rightarrow> string \<Rightarrow> string \<Rightarrow> bool" where
  "withinWindow js windowMs a b =
     (case (Date_getTime js a, Date_getTime js b) of
        (Some ta, Some tb) \<Rightarrow> \<bar>fsub js (of_int ta) (of_int tb)\<bar> \<le> windowMs
      | _ \<Rightarrow> False)"

text \<open>
  The two nested loops over \<^verbatim>\<open>ts[i]\<close>, \<^verbatim>\<open>ts[j]\<close> with \<^verbatim>\<open>i < j\<close>: is there a pair from
  different lenses within the window.
\<close>

fun anyPairWithin :: "builtins \<Rightarrow> rat \<Rightarrow> (string \<times> string) list \<Rightarrow> bool" where
  "anyPairWithin js windowMs [] = False"
| "anyPairWithin js windowMs (t # ts) =
     (list_ex (\<lambda>u. fst t \<noteq> fst u \<and> withinWindow js windowMs (snd t) (snd u)) ts
      \<or> anyPairWithin js windowMs ts)"

text \<open>The predicate of the \<^verbatim>\<open>entity+temporal\<close> filter.\<close>

definition temporalFilter ::
  "builtins \<Rightarrow> rat \<Rightarrow> (string \<times> Entry) list \<Rightarrow> JoinedEntity \<Rightarrow> bool" where
  "temporalFilter js windowMs entityMap ent =
     (case find (\<lambda>e. e_entity e = entity ent \<and> e_url e = url ent) (map snd entityMap) of
        None \<Rightarrow> False
      | Some entry \<Rightarrow> anyPairWithin js windowMs (e_timestamps entry))"

text \<open>
  \<open>joinByCooccurrence\<close>. \<^verbatim>\<open>Math.min\<close> over the timestamps is \<^verbatim>\<open>NaN\<close> as soon as one
  of them is, and then no timestamp qualifies.
\<close>

definition earliestOf :: "int option list \<Rightarrow> int option" where
  "earliestOf tms =
     (if tms = [] \<or> None \<in> set tms then None else Some (Min (set (map the tms))))"

definition joinByCooccurrence ::
  "builtins \<Rightarrow> LensResult list \<Rightarrow> rat option \<Rightarrow> JoinResult" where
  "joinByCooccurrence js lensResults temporalDays =
     (case temporalDays of
        Some d \<Rightarrow>
          if d \<noteq> 0 then
            (let allTimestamps =
                   concat (map (\<lambda>lr. map (\<lambda>si. (lr_lensId lr, Date_getTime js (si_createdAt si)))
                                        (lr_shapedItems lr)) lensResults)
             in if length allTimestamps = 0
                then \<lparr> jtype = Cooccurrence, entities = [], lensesWithEvidence = [] \<rparr>
                else
                  let earliest = earliestOf (map snd allTimestamps);
                      windowMs = fmul js d 86400000;
                      qualifying =
                        filter (\<lambda>t. case (snd t, earliest) of
                                       (Some tm, Some e) \<Rightarrow>
                                         fsub js (of_int tm) (of_int e) \<le> windowMs
                                     | _ \<Rightarrow> False) allTimestamps
                  in \<lparr> jtype = Cooccurrence, entities = [],
                       lensesWithEvidence = uniq (map fst qualifying) \<rparr>)
          else \<lparr> jtype = Cooccurrence, entities = [],
                 lensesWithEvidence =
                   map lr_lensId (filter (\<lambda>lr. length (lr_shapedItems lr) > 0) lensResults) \<rparr>
      | None \<Rightarrow>
          \<lparr> jtype = Cooccurrence, entities = [],
            lensesWithEvidence =
              map lr_lensId (filter (\<lambda>lr. length (lr_shapedItems lr) > 0) lensResults) \<rparr>)"

text \<open>
  \<open>joinByTemporal\<close>. \<open>pairsInOrder\<close> lists the pairs \<^verbatim>\<open>(xs[i], xs[j])\<close>, \<^verbatim>\<open>i < j\<close>, in
  the order of the two loops.
\<close>

fun pairsInOrder :: "'a list \<Rightarrow> ('a \<times> 'a) list" where
  "pairsInOrder [] = []"
| "pairsInOrder (x # xs) = map (Pair x) xs @ pairsInOrder xs"

definition timesClose :: "builtins \<Rightarrow> rat \<Rightarrow> int option \<Rightarrow> int option \<Rightarrow> bool" where
  "timesClose js windowMs a b =
     (case (a, b) of
        (Some ta, Some tb) \<Rightarrow> \<bar>fsub js (of_int ta) (of_int tb)\<bar> \<le> windowMs
      | _ \<Rightarrow> False)"

definition joinByTemporal :: "builtins \<Rightarrow> LensResult list \<Rightarrow> rat \<Rightarrow> JoinResult" where
  "joinByTemporal js lensResults days' =
     (let windowMs = fmul js days' 86400000;
          lensTimes =
            foldl (\<lambda>m lr.
                     let tms = map (\<lambda>si. Date_getTime js (si_createdAt si)) (lr_shapedItems lr)
                     in if length tms > 0 then assign (lr_lensId lr) tms m else m)
              [] lensResults;
          qualifying =
            concat (map (\<lambda>((idA, timesA), (idB, timesB)).
                           if list_ex (\<lambda>ta. list_ex (\<lambda>tb. timesClose js windowMs ta tb) timesB) timesA
                           then [idA, idB] else [])
                      (pairsInOrder lensTimes))
      in \<lparr> jtype = Temporal, entities = [], lensesWithEvidence = uniq qualifying \<rparr>)"

definition joinLensResults ::
  "builtins \<Rightarrow> (string \<Rightarrow> string \<Rightarrow> rat) \<Rightarrow> LensResult list \<Rightarrow> JoinConfig \<Rightarrow> JoinResult" where
  "joinLensResults js dice lensResults joinConfig =
     (let threshold = thresholdOf joinConfig;
          minOverlap = minOverlapOf joinConfig;
          temporalDays = temporalDaysOf joinConfig
      in if jby joinConfig = Cooccurrence then joinByCooccurrence js lensResults temporalDays
         else if jby joinConfig = Temporal
           then joinByTemporal js lensResults (case temporalDays of None \<Rightarrow> 7 | Some d \<Rightarrow> d)
         else
           let entityMap = buildEntityMap dice threshold lensResults;
               entities0 = map toJoined (map snd entityMap);
               entities1 =
                 (if jby joinConfig = EntityTemporal \<and> temporalDays \<noteq> None \<and> temporalDays \<noteq> Some 0
                  then filter (temporalFilter js (fmul js (the temporalDays) 86400000) entityMap)
                         entities0
                  else entities0);
               entities2 = filter (\<lambda>e. of_nat (lensCount e) \<ge> minOverlap) entities1
           in \<lparr> jtype = jby joinConfig, entities = entities2,
                lensesWithEvidence = uniq (concat (map presentInLenses entities2)) \<rparr>)"

text \<open>
  Modelled from the spec: \<^verbatim>\<open>diceCoefficient\<close> of \<^verbatim>\<open>convergent.ts\<close>, which is not among
  the sources. The specification names it the Dice bigram coefficient: twice the number
  of bigrams (pairs of adjacent characters) the two strings share, over the number of
  bigrams of both. Two strings without any bigram are given 1 when equal and 0
  otherwise.
\<close>

definition bigrams :: "string \<Rightarrow> (char \<times> char) list" where
  "bigrams s = zip s (tl s)"

fun sharedCount :: "'a list \<Rightarrow> 'a list \<Rightarrow> nat" where
  "sharedCount [] ys = 0"
| "sharedCount (x # xs) ys =
     (if x \<in> set ys then Suc (sharedCount xs (remove1 x ys)) else sharedCount xs ys)"

definition diceCoefficient :: "string \<Rightarrow> string \<Rightarrow> rat" where
  "diceCoefficient a b =
     (let ba = bigrams a; bb = bigrams b in
      if length ba + length bb = 0 then (if a = b then 1 else 0)
      else of_nat (2 * sharedCount ba bb) / of_nat (length ba + length bb))"

text \<open>
  The pairs \<^verbatim>\<open>(lensId, createdAt)\<close> of the shaped items of the lens results: what the
  join can record as a timestamp.
\<close>

definition recorded :: "LensResult list \<Rightarrow> (string \<times> string) set" where
  "recorded lrs =
     {(lr_lensId lr, si_createdAt si) | lr si. lr \<in> set lrs \<and> si \<in> set (lr_shapedItems lr)}"

text \<open>
  The invariant of the entity map, for the proofs: keys are distinct; an entry with a
  URL is keyed by it, an entry with a name and no URL by its name; an entry with
  neither has one timestamp (no item is ever folded into it); the lens set of an entry
  is the set of the lenses of its timestamps; and every timestamp is one of \<open>S\<close>.
\<close>

definition entryOk :: "(string \<times> string) set \<Rightarrow> string \<times> Entry \<Rightarrow> bool" where
  "entryOk S ke =
     (case ke of (k, e) \<Rightarrow>
        (e_url e \<noteq> [] \<longrightarrow> k = e_url e) \<and>
        (e_url e = [] \<and> e_entity e \<noteq> [] \<longrightarrow> k = e_entity e) \<and>
        (e_url e = [] \<and> e_entity e = [] \<longrightarrow> length (e_timestamps e) \<le> 1) \<and>
        fst ` set (e_timestamps e) = set (e_lenses e) \<and>
        distinct (e_lenses e) \<and>
        set (e_timestamps e) \<subseteq> S)"

definition entityMapInv :: "(string \<times> string) set \<Rightarrow> (string \<times> Entry) list \<Rightarrow> bool" where
  "entityMapInv S m = (distinct (map fst m) \<and> (\<forall>ke \<in> set m. entryOk S ke))"

subsection \<open>Example data\<close>

text \<open>
  A stand-in for the runtime in the examples: it parses the two dates the examples use,
  and its arithmetic is exact, as that of the doubles is on the whole numbers of the
  examples.
\<close>

definition testBuiltins :: builtins where
  "testBuiltins =
     \<lparr> Number = (\<lambda>s. None),
       Date_getTime = (\<lambda>s. if s = ''2024-01-01T00:00:00Z'' then Some 1704067200000
                           else if s = ''2024-01-03T00:00:00Z'' then Some 1704240000000
                           else None),
       Date_now = 1704326400000,
       RegExp_test = (\<lambda>p s. None),
       toLowerCase = (\<lambda>s. s),
       Number_toString = (\<lambda>n. []),
       Number_toFixed0 = (\<lambda>n. []),
       String_of = (\<lambda>v. case v of JStr s \<Rightarrow> s | _ \<Rightarrow> []),
       toISOString = (\<lambda>t. []),
       fmul = (\<lambda>a b. a * b), fadd = (\<lambda>a b. a + b), fsub = (\<lambda>a b. a - b),
       fdiv = (\<lambda>a b. a / b) \<rparr>"

definition acmeA :: ShapedItem where
  "acmeA = \<lparr> si_id = ''item-a'', si_name = ''Acme Corp'', si_url = ''https://acme.com'',
             si_entityType = ''company'', si_enrichments = [],
             si_createdAt = ''2024-01-01T00:00:00Z'', si_projected = JNull \<rparr>"

definition acmeB :: ShapedItem where
  "acmeB = \<lparr> si_id = ''item-b'', si_name = ''Acme Corp'', si_url = ''https://acme.com'',
             si_entityType = ''company'', si_enrichments = [],
             si_createdAt = ''2024-01-03T00:00:00Z'', si_projected = JNull \<rparr>"

definition acmeIo :: ShapedItem where
  "acmeIo = \<lparr> si_id = ''item-c'', si_name = ''Acme Corp'', si_url = ''https://acme.io'',
             si_entityType = ''company'', si_enrichments = [],
             si_createdAt = ''2024-01-03T00:00:00Z'', si_projected = JNull \<rparr>"

definition globex :: ShapedItem where
  "globex = \<lparr> si_id = ''item-d'', si_name = ''Globex'', si_url = ''https://globex.com'',
             si_entityType = ''company'', si_enrichments = [],
             si_createdAt = ''2024-01-03T00:00:00Z'', si_projected = JNull \<rparr>"

definition lensA :: LensResult where
  "lensA = \<lparr> lr_lensId = ''A'', lr_websetId = ''ws-a'', lr_totalItems = 1,
             lr_shapedItems = [acmeA] \<rparr>"

definition lensB :: LensResult where
  "lensB = \<lparr> lr_lensId = ''B'', lr_websetId = ''ws-b'', lr_totalItems = 1,
             lr_shapedItems = [acmeB] \<rparr>"

definition lensIo :: LensResult where
  "lensIo = \<lparr> lr_lensId = ''B'', lr_websetId = ''ws-b'', lr_totalItems = 1,
              lr_shapedItems = [acmeIo] \<rparr>"

text \<open>An \<^verbatim>\<open>entity+temporal\<close> join with the given \<^verbatim>\<open>temporal.days\<close> and \<^verbatim>\<open>minLensOverlap\<close>.\<close>

definition cfgET :: "rat option \<Rightarrow> rat option \<Rightarrow> JoinConfig" where
  "cfgET d k = \<lparr> jby = EntityTemporal, entityMatch = None,
                 temporal = Some \<lparr> tc_window = None, days = d \<rparr>, minLensOverlap = k \<rparr>"

text \<open>An \<^verbatim>\<open>entity\<close> join with \<^verbatim>\<open>nameThreshold\<close> 1.\<close>

definition cfgExact :: JoinConfig where
  "cfgExact = \<lparr> jby = Entity,
                entityMatch = Some \<lparr> em_method = None, nameThreshold = Some 1 \<rparr>,
                temporal = None, minLensOverlap = None \<rparr>"

section \<open>The upstream, the task store and the clock\<close>

text \<open>
  A workflow talks to the upstream client (\<^verbatim>\<open>exa.websets\<close>), reads the task's status in
  the store, reads the clock and sleeps. The environment fixes what each of these calls
  answers: the k-th call of a kind gets the k-th answer of that kind, whatever it is, so
  a statement about every environment is a statement about every behaviour of the
  upstream, of the clock and of whoever cancels the task. An upstream call either
  resolves to a value or rejects with an error; a listing yields items and may end in
  an error.
\<close>

datatype call =
    Create json
  | Get json
  | Cancel json
  | Delete json
  | ListAll json
  | MonitorCreate json json

record Progress =
  p_step :: string
  p_completed :: nat
  p_total :: nat
  p_message :: "string option"

datatype event = Upstream call | UpdateProgress Progress | Sleep nat

record env =
  runtime :: builtins
  now_at :: "nat \<Rightarrow> int"
  cancelled_at :: "nat \<Rightarrow> bool"
  create_at :: "nat \<Rightarrow> json \<Rightarrow> error + json"
  get_at :: "nat \<Rightarrow> json \<Rightarrow> error + json"
  cancel_at :: "nat \<Rightarrow> json \<Rightarrow> error option"
  delete_at :: "nat \<Rightarrow> json \<Rightarrow> error option"
  list_at :: "nat \<Rightarrow> json \<Rightarrow> json list \<times> error option"
  monitor_at :: "nat \<Rightarrow> json \<Rightarrow> json \<Rightarrow> error option"

text \<open>
  The state a workflow threads: how many calls of each kind it has made, and the trace of
  its effects in the order they happened.
\<close>

record world =
  n_now :: nat
  n_check :: nat
  n_create :: nat
  n_get :: nat
  n_cancel :: nat
  n_delete :: nat
  n_list :: nat
  n_monitor :: nat
  trace :: "event list"

definition world0 :: world where
  "world0 = \<lparr> n_now = 0, n_check = 0, n_create = 0, n_get = 0, n_cancel = 0,
               n_delete = 0, n_list = 0, n_monitor = 0, trace = [] \<rparr>"

text \<open>\<^verbatim>\<open>Date.now()\<close>.\<close>

definition dateNow :: "env \<Rightarrow> world \<Rightarrow> int \<times> world" where
  "dateNow env w = (now_at env (n_now w), w\<lparr> n_now := Suc (n_now w) \<rparr>)"

text \<open>\<^verbatim>\<open>isCancelled(taskId, store)\<close>: \<^verbatim>\<open>store.get(taskId)?.status === 'cancelled'\<close>.\<close>

definition isCancelled :: "env \<Rightarrow> world \<Rightarrow> bool \<times> world" where
  "isCancelled env w = (cancelled_at env (n_check w), w\<lparr> n_check := Suc (n_check w) \<rparr>)"

definition updateProgress :: "Progress \<Rightarrow> world \<Rightarrow> world" where
  "updateProgress p w = w\<lparr> trace := trace w @ [UpdateProgress p] \<rparr>"

definition sleep :: "nat \<Rightarrow> world \<Rightarrow> world" where
  "sleep ms w = w\<lparr> trace := trace w @ [Sleep ms] \<rparr>"

definition websetsCreate :: "env \<Rightarrow> json \<Rightarrow> world \<Rightarrow> (error + json) \<times> world" where
  "websetsCreate env params w =
     (create_at env (n_create w) params,
      w\<lparr> n_create := Suc (n_create w), trace := trace w @ [Upstream (Create params)] \<rparr>)"

definition websetsGet :: "env \<Rightarrow> json \<Rightarrow> world \<Rightarrow> (error + json) \<times> world" where
  "websetsGet env websetId w =
     (get_at env (n_get w) websetId,
      w\<lparr> n_get := Suc (n_get w), trace := trace w @ [Upstream (Get websetId)] \<rparr>)"

definition websetsCancel :: "env \<Rightarrow> json \<Rightarrow> world \<Rightarrow> error option \<times> world" where
  "websetsCancel env websetId w =
     (cancel_at env (n_cancel w) websetId,
      w\<lparr> n_cancel := Suc (n_cancel w), trace := trace w @ [Upstream (Cancel websetId)] \<rparr>)"

definition websetsDelete :: "env \<Rightarrow> json \<Rightarrow> world \<Rightarrow> error option \<times> world" where
  "websetsDelete env websetId w =
     (delete_at env (n_delete w) websetId,
      w\<lparr> n_delete := Suc (n_delete w), trace := trace w @ [Upstream (Delete websetId)] \<rparr>)"

definition itemsListAll :: "env \<Rightarrow> json \<Rightarrow> world \<Rightarrow> (json list \<times> error option) \<times> world" where
  "itemsListAll env websetId w =
     (list_at env (n_list w) websetId,
      w\<lparr> n_list := Suc (n_list w), trace := trace w @ [Upstream (ListAll websetId)] \<rparr>)"

definition monitorsCreate :: "env \<Rightarrow> json \<Rightarrow> json \<Rightarrow> world \<Rightarrow> error option \<times> world" where
  "monitorsCreate env websetId params w =
     (monitor_at env (n_monitor w) websetId params,
      w\<lparr> n_monitor := Suc (n_monitor w),
         trace := trace w @ [Upstream (MonitorCreate websetId params)] \<rparr>)"

section \<open>Workflow helpers\<close>

text \<open>
  \<^verbatim>\<open>searches?.[searches.length - 1]?.progress\<close> of a webset: the progress record of its
  last search. Only an array has a last element with a \<^verbatim>\<open>progress\<close>.
\<close>

definition lastSearchProgress :: "json \<Rightarrow> json" where
  "lastSearchProgress webset =
     (case optProp webset ''searches'' of
        JArr searches \<Rightarrow> (if searches = [] then JUndefined else optProp (last searches) ''progress'')
      | _ \<Rightarrow> JUndefined)"

text \<open>
  The loop of \<open>pollUntilIdle\<close>. It may run forever (an upstream that never goes idle, a
  clock that never reaches the deadline), so it is a partial function: \<open>None\<close> is the
  run that does not return. A run that returns gives the thrown error or the pair
  \<^verbatim>\<open>{webset, timedOut}\<close>, and the world it leaves.
\<close>

partial_function (option) pollLoop ::
  "env \<Rightarrow> json \<Rightarrow> rat \<Rightarrow> nat \<Rightarrow> nat \<Rightarrow> world \<Rightarrow> ((error + json \<times> bool) \<times> world) option" where
  "pollLoop env websetId deadline stepNum totalSteps w =
     (case websetsGet env websetId w of
        (Inl e, w1) \<Rightarrow> Some (Inl e, w1)
      | (Inr webset, w1) \<Rightarrow>
          if nullish webset then Some (Inl TypeError, w1)
          else if getProp webset ''status'' = JStr ''idle'' then Some (Inr (webset, False), w1)
          else if getProp webset ''status'' = JStr ''paused''
            then Some (Inl (JsError ''Webset was paused unexpectedly''), w1)
          else
            (case dateNow env w1 of (t, w2) \<Rightarrow>
               if of_int t \<ge> deadline then Some (Inr (webset, True), w2)
               else
                 let prog = lastSearchProgress webset;
                     w3 = (if truthy prog
                           then updateProgress
                                  \<lparr> p_step = ''searching'', p_completed = stepNum,
                                    p_total = totalSteps,
                                    p_message = Some (''Found '' @ String_of (runtime env) (getProp prog ''found'')
                                                  @ ''/'' @ String_of (runtime env) (getProp prog ''analyzed'')
                                                  @ '' analyzed'') \<rparr> w2
                           else w2)
                 in case isCancelled env w3 of (cancelled, w4) \<Rightarrow>
                      if cancelled then
                        (case websetsCancel env websetId w4 of
                           (Some e, w5) \<Rightarrow> Some (Inl e, w5)
                         | (None, w5) \<Rightarrow> Some (Inr (webset, False), w5))
                      else pollLoop env websetId deadline stepNum totalSteps (sleep 2000 w4)))"

declare pollLoop.simps [code]

definition pollUntilIdle ::
  "env \<Rightarrow> json \<Rightarrow> rat \<Rightarrow> nat \<Rightarrow> nat \<Rightarrow> world \<Rightarrow> ((error + json \<times> bool) \<times> world) option" where
  "pollUntilIdle env websetId timeoutMs stepNum totalSteps w =
     (case dateNow env w of (t0, w0) \<Rightarrow>
        pollLoop env websetId (fadd (runtime env) (of_int t0) timeoutMs) stepNum totalSteps w0)"

text \<open>
  The loop of \<open>collectItems\<close> over the listing: take the next item, then stop if the
  cap is reached. The listing's error, if it has one, is thrown when the loop gets to
  its end.
\<close>

fun collectLoop :: "rat \<Rightarrow> json list \<Rightarrow> json list \<Rightarrow> error option \<Rightarrow> error + json list" where
  "collectLoop cap items [] failure = (case failure of None \<Rightarrow> Inr items | Some e \<Rightarrow> Inl e)"
| "collectLoop cap items (item # rest) failure =
     (let items' = items @ [item]
      in if of_nat (length items') \<ge> cap then Inr items'
         else collectLoop cap items' rest failure)"

text \<open>\<open>None\<close> for the cap is the call without the third argument (\<^verbatim>\<open>cap = 1000\<close>).\<close>

definition capOrDefault :: "rat option \<Rightarrow> rat" where
  "capOrDefault cap = (case cap of None \<Rightarrow> 1000 | Some c \<Rightarrow> c)"

definition collectItems ::
  "env \<Rightarrow> json \<Rightarrow> rat option \<Rightarrow> world \<Rightarrow> (error + json list) \<times> world" where
  "collectItems env websetId cap w =
     (case itemsListAll env websetId w of
        ((listing, failure), w1) \<Rightarrow> (collectLoop (capOrDefault cap) [] listing failure, w1))"

text \<open>The validators of \<^verbatim>\<open>helpers.ts\<close> the workflows below use.\<close>

definition validateRequired :: "json \<Rightarrow> string \<Rightarrow> string option \<Rightarrow> error option" where
  "validateRequired v field hint =
     (if nullish v then
        Some (WorkflowError
                (case hint of None \<Rightarrow> field @ '' is required''
                            | Some h \<Rightarrow> field @ '' is required. '' @ h)
                ''validate'' False)
      else None)"

definition validateEntity :: "json \<Rightarrow> error + json" where
  "validateEntity entity' =
     (case entity' of
        JObj kvs \<Rightarrow>
          if ''type'' \<in> fst ` set kvs then Inr entity'
          else Inl (WorkflowError
                 (''entity must be an object: {type: '' @ [DQ] @ ''company'' @ [DQ] @ ''|'' @ [DQ]
                  @ ''person'' @ [DQ] @ ''|'' @ [DQ] @ ''article'' @ [DQ] @ ''|...}'')
                 ''validate'' False)
      | _ \<Rightarrow> Inl (WorkflowError
                 (''entity must be an object: {type: '' @ [DQ] @ ''company'' @ [DQ] @ ''|'' @ [DQ]
                  @ ''person'' @ [DQ] @ ''|'' @ [DQ] @ ''article'' @ [DQ] @ ''|...}'')
                 ''validate'' False))"

text \<open>\<^verbatim>\<open>tracker.track(name, startMs)\<close>: reads the clock and appends the step.\<close>

definition track ::
  "env \<Rightarrow> (string \<times> int) list \<Rightarrow> string \<Rightarrow> int \<Rightarrow> world \<Rightarrow> (string \<times> int) list \<times> world" where
  "track env steps name startMs w =
     (case dateNow env w of (t, w1) \<Rightarrow> (steps @ [(name, t - startMs)], w1))"

definition stepsJson :: "(string \<times> int) list \<Rightarrow> json" where
  "stepsJson steps =
     JArr (map (\<lambda>(name, d). JObj [(''name'', JStr name), (''durationMs'', JNum (of_int d))]) steps)"

text \<open>\<^verbatim>\<open>withSummary\<close>: \<^verbatim>\<open>{ _summary: summary, ...result }\<close>.\<close>

definition withSummary :: "(string \<times> json) list \<Rightarrow> string \<Rightarrow> json" where
  "withSummary result summary = JObj ((''_summary'', JStr summary) # result)"

section \<open>Workflows as programs over the world\<close>

text \<open>
  A workflow is an \<^verbatim>\<open>async\<close> function: it runs on the world, and either does not return
  (\<open>None\<close>), or throws an error, or returns a value, leaving the world changed. \<open>bind\<close>
  is sequencing (\<^verbatim>\<open>await\<close> and the semicolon); an error ends the run.
\<close>

type_synonym 'a prog = "world \<Rightarrow> ((error + 'a) \<times> world) option"

definition ret :: "'a \<Rightarrow> 'a prog" where
  "ret x = (\<lambda>w. Some (Inr x, w))"

definition throw :: "error \<Rightarrow> 'a prog" where
  "throw e = (\<lambda>w. Some (Inl e, w))"

definition bind :: "'a prog \<Rightarrow> ('a \<Rightarrow> 'b prog) \<Rightarrow> 'b prog" where
  "bind m f =
     (\<lambda>w. case m w of
            None \<Rightarrow> None
          | Some (Inl e, w') \<Rightarrow> Some (Inl e, w')
          | Some (Inr x, w') \<Rightarrow> f x w')"

text \<open>A call that always returns; a call that may throw; a call that returns nothing
  and may throw; an effect; a pure computation that may throw.\<close>

definition liftT :: "(world \<Rightarrow> 'a \<times> world) \<Rightarrow> 'a prog" where
  "liftT f = (\<lambda>w. case f w of (x, w') \<Rightarrow> Some (Inr x, w'))"

definition liftE :: "(world \<Rightarrow> (error + 'a) \<times> world) \<Rightarrow> 'a prog" where
  "liftE f = (\<lambda>w. Some (f w))"

definition liftU :: "(world \<Rightarrow> error option \<times> world) \<Rightarrow> unit prog" where
  "liftU f = (\<lambda>w. case f w of (None, w') \<Rightarrow> Some (Inr (), w') | (Some e, w') \<Rightarrow> Some (Inl e, w'))"

definition effect :: "(world \<Rightarrow> world) \<Rightarrow> unit prog" where
  "effect f = (\<lambda>w. Some (Inr (), f w))"

definition pure :: "error + 'a \<Rightarrow> 'a prog" where
  "pure r = (\<lambda>w. Some (r, w))"

definition check :: "error option \<Rightarrow> unit prog" where
  "check r = (case r of None \<Rightarrow> ret () | Some e \<Rightarrow> throw e)"

text \<open>\<^verbatim>\<open>try { await f() } catch { }\<close>: the error of a best-effort call is dropped.\<close>

definition bestEffort :: "(world \<Rightarrow> error option \<times> world) \<Rightarrow> unit prog" where
  "bestEffort f = (\<lambda>w. case f w of (_, w') \<Rightarrow> Some (Inr (), w'))"

text \<open>\<^verbatim>\<open>v?.length\<close>.\<close>

definition optLength :: "json \<Rightarrow> json" where
  "optLength v =
     (case v of
        JArr xs \<Rightarrow> JNum (of_nat (length xs))
      | JStr s \<Rightarrow> JNum (of_nat (length s))
      | JObj kvs \<Rightarrow> getProp v ''length''
      | _ \<Rightarrow> JUndefined)"

section \<open>The workflow lifecycle.harvest\<close>

text \<open>
  The arguments the workflow reads, with the types it casts them to. \<open>None\<close> is an
  argument that is missing (or null, for the ones read with \<^verbatim>\<open>??\<close>).
\<close>

record HarvestArgs =
  a_query :: json
  a_entity :: json
  a_criteria :: json
  a_count :: "rat option"
  a_enrichments :: json
  a_timeout :: "rat option"
  a_cleanup :: "bool option"

definition lifecycleHarvestWorkflow :: "env \<Rightarrow> HarvestArgs \<Rightarrow> json prog" where
  "lifecycleHarvestWorkflow env args =
     bind (liftT (dateNow env)) (\<lambda>startTime.
     let criteria = a_criteria args;
         count' = (case a_count args of None \<Rightarrow> 25 | Some c \<Rightarrow> c);
         enrichments = a_enrichments args;
         timeoutMs = (case a_timeout args of None \<Rightarrow> 300000 | Some t \<Rightarrow> t);
         cleanup = (case a_cleanup args of None \<Rightarrow> False | Some b \<Rightarrow> b)
     in
     bind (liftT (dateNow env)) (\<lambda>step0.
     bind (check (validateRequired (a_query args) ''query''
             (Some (''Natural language search query, e.g. '' @ [DQ]
                    @ ''AI startups in San Francisco'' @ [DQ])))) (\<lambda>_.
     bind (pure (validateEntity (a_entity args))) (\<lambda>entity'.
     let query = a_query args in
     bind (liftT (track env [] ''validate'' step0)) (\<lambda>steps0.
     bind (liftT (isCancelled env)) (\<lambda>cancelled0.
     if cancelled0 then ret JNull
     else
     bind (liftT (dateNow env)) (\<lambda>step1.
     bind (effect (updateProgress
             \<lparr> p_step = ''creating'', p_completed = 1, p_total = 4, p_message = None \<rparr>)) (\<lambda>_.
     let createParams =
           JObj ((''search'',
                  JObj ([(''query'', query), (''count'', JNum count'), (''entity'', entity')]
                        @ (if truthy criteria then [(''criteria'', criteria)] else [])))
                 # (if truthy enrichments then [(''enrichments'', enrichments)] else []))
     in
     bind (liftE (websetsCreate env createParams)) (\<lambda>webset.
     if nullish webset then throw TypeError
     else
     let websetId = getProp webset ''id'' in
     bind (liftT (track env steps0 ''create'' step1)) (\<lambda>steps1.
     bind (liftT (isCancelled env)) (\<lambda>cancelled1.
     if cancelled1 then bind (liftU (websetsCancel env websetId)) (\<lambda>_. ret JNull)
     else
     bind (liftT (dateNow env)) (\<lambda>step2.
     bind (effect (updateProgress
             \<lparr> p_step = ''polling'', p_completed = 2, p_total = 4, p_message = None \<rparr>)) (\<lambda>_.
     bind (pollUntilIdle env websetId timeoutMs 2 4) (\<lambda>(finalWebset, timedOut).
     bind (liftT (track env steps1 ''poll'' step2)) (\<lambda>steps2.
     bind (liftT (isCancelled env)) (\<lambda>cancelled2.
     if cancelled2 then ret JNull
     else
     bind (liftT (dateNow env)) (\<lambda>step3.
     bind (effect (updateProgress
             \<lparr> p_step = ''collecting'', p_completed = 3, p_total = 4, p_message = None \<rparr>)) (\<lambda>_.
     bind (liftE (collectItems env websetId (Some (count' * 2)))) (\<lambda>items.
     bind (liftT (track env steps2 ''collect'' step3)) (\<lambda>steps3.
     bind (if cleanup then bestEffort (websetsDelete env websetId) else ret ()) (\<lambda>_.
     let prog = lastSearchProgress finalWebset;
         searchProgress =
           (if truthy prog
            then JObj [(''found'', getProp prog ''found''), (''analyzed'', getProp prog ''analyzed'')]
            else JNull);
         enrichmentCount =
           coalesce (if nullish enrichments then JUndefined else optLength enrichments) (JNum 0)
     in
     bind (effect (updateProgress
             \<lparr> p_step = ''complete'', p_completed = 4, p_total = 4, p_message = None \<rparr>)) (\<lambda>_.
     bind (liftT (dateNow env)) (\<lambda>endTime.
     let duration = endTime - startTime;
         result =
           [(''websetId'', websetId),
            (''items'', JArr items),
            (''itemCount'', JNum (of_nat (length items))),
            (''searchProgress'', searchProgress),
            (''enrichmentCount'', enrichmentCount),
            (''duration'', JNum (of_int duration)),
            (''steps'', stepsJson steps3)]
           @ (if timedOut then [(''timedOut'', JBool True)] else [])
     in
     ret (withSummary result
            (''Harvested '' @ String_of (runtime env) (JNum (of_nat (length items)))
             @ '' items from webset '' @ String_of (runtime env) websetId
             @ '' ('' @ String_of (runtime env) enrichmentCount @ '' enrichments) in ''
             @ Number_toFixed0 (runtime env) (fdiv (runtime env) (of_int duration) 1000) @ ''s''))
     )))))))))))))))))))))))"

section \<open>Notions for the properties of the workflows\<close>

text \<open>
  The webset the k-th \<^verbatim>\<open>get\<close> answers with is \<^emph>\<open>running\<close>: it is there and its status is
  neither \<^verbatim>\<open>idle\<close> nor \<^verbatim>\<open>paused\<close>.
\<close>

definition running :: "env \<Rightarrow> json \<Rightarrow> nat \<Rightarrow> bool" where
  "running env websetId i =
     (case get_at env i websetId of
        Inl e \<Rightarrow> False
      | Inr webset \<Rightarrow> \<not> nullish webset \<and> getProp webset ''status'' \<noteq> JStr ''idle'' \<and>
                      getProp webset ''status'' \<noteq> JStr ''paused'')"

text \<open>
  The deadline of a poll elapses at its fetch number \<open>k\<close> (counted from 0) while the
  webset is running. The poll starts when \<open>g\<close> fetches, \<open>n\<close> clock readings and \<open>c\<close>
  cancellation checks have been made; its first clock reading sets the deadline. At the
  fetches before \<open>k\<close> the webset is running, the clock is before the deadline and the
  task is not seen cancelled; at fetch \<open>k\<close> the webset \<open>webset\<close> comes back, still
  running, and the clock has reached the deadline.
\<close>

definition pollTimesOutAt ::
  "env \<Rightarrow> json \<Rightarrow> rat \<Rightarrow> nat \<Rightarrow> nat \<Rightarrow> nat \<Rightarrow> nat \<Rightarrow> json \<Rightarrow> bool" where
  "pollTimesOutAt env websetId timeoutMs g n c k webset =
     ((\<forall>i<k. running env websetId (g + i) \<and>
              of_int (now_at env (n + 1 + i))
                < fadd (runtime env) (of_int (now_at env n)) timeoutMs \<and>
              \<not> cancelled_at env (c + i)) \<and>
      get_at env (g + k) websetId = Inr webset \<and> \<not> nullish webset \<and>
      getProp webset ''status'' \<noteq> JStr ''idle'' \<and>
      getProp webset ''status'' \<noteq> JStr ''paused'' \<and>
      of_int (now_at env (n + 1 + k))
        \<ge> fadd (runtime env) (of_int (now_at env n)) timeoutMs)"

text \<open>The world after one round of the poll loop that neither returns nor throws.\<close>

definition afterRound :: "env \<Rightarrow> json \<Rightarrow> nat \<Rightarrow> nat \<Rightarrow> world \<Rightarrow> world" where
  "afterRound env websetId stepNum totalSteps w =
     (case websetsGet env websetId w of
        (r, w1) \<Rightarrow>
          (case dateNow env w1 of (t, w2) \<Rightarrow>
             let webset = (case r of Inr v \<Rightarrow> v | Inl e \<Rightarrow> JUndefined);
                 prog = lastSearchProgress webset;
                 w3 = (if truthy prog
                       then updateProgress
                              \<lparr> p_step = ''searching'', p_completed = stepNum,
                                p_total = totalSteps,
                                p_message = Some (''Found '' @ String_of (runtime env) (getProp prog ''found'')
                                              @ ''/'' @ String_of (runtime env) (getProp prog ''analyzed'')
                                              @ '' analyzed'') \<rparr> w2
                       else w2)
             in sleep 2000 (snd (isCancelled env w3))))"

text \<open>The world a poll leaves when it times out at fetch \<open>k\<close>.\<close>

definition timedOutWorld :: "env \<Rightarrow> json \<Rightarrow> nat \<Rightarrow> nat \<Rightarrow> nat \<Rightarrow> world \<Rightarrow> world" where
  "timedOutWorld env websetId s t k w =
     snd (dateNow env (snd (websetsGet env websetId
       ((afterRound env websetId s t ^^ k) (snd (dateNow env w))))))"

text \<open>\<^verbatim>\<open>(args.timeout as number) ?? 300_000\<close> and \<^verbatim>\<open>(args.count as number) ?? 25\<close>.\<close>

definition timeoutOf :: "HarvestArgs \<Rightarrow> rat" where
  "timeoutOf args = (case a_timeout args of None \<Rightarrow> 300000 | Some t \<Rightarrow> t)"

definition countOf :: "HarvestArgs \<Rightarrow> rat" where
  "countOf args = (case a_count args of None \<Rightarrow> 25 | Some c \<Rightarrow> c)"

text \<open>
  \<open>returns m w Q\<close>: if the program \<open>m\<close>, run on the world \<open>w\<close>, returns a value, then \<open>Q\<close>
  holds of the value and of the world it leaves.
\<close>

definition returns :: "'a prog \<Rightarrow> world \<Rightarrow> ('a \<Rightarrow> world \<Rightarrow> bool) \<Rightarrow> bool" where
  "returns m w Q = (\<forall>x w'. m w = Some (Inr x, w') \<longrightarrow> Q x w')"

text \<open>The upstream calls of a trace, in order.\<close>

definition upstreamCalls :: "world \<Rightarrow> call list" where
  "upstreamCalls w = concat (map (\<lambda>e. case e of Upstream c \<Rightarrow> [c] | _ \<Rightarrow> []) (trace w))"

subsection \<open>Example environments\<close>

text \<open>
  The upstream of the specification's scenario S1: the webset it creates stays
  \<^verbatim>\<open>running\<close>, and its listing is empty. The clock advances by 50 ms at every reading.
  Nobody cancels the task.
\<close>

definition runningWebset :: json where
  "runningWebset =
     JObj [(''id'', JStr ''ws_1''), (''status'', JStr ''running''), (''searches'', JArr [])]"

definition stuckEnv :: env where
  "stuckEnv =
     \<lparr> runtime = testBuiltins,
       now_at = (\<lambda>i. 1000 + 50 * int i),
       cancelled_at = (\<lambda>i. False),
       create_at = (\<lambda>i params. Inr runningWebset),
       get_at = (\<lambda>i websetId. Inr runningWebset),
       cancel_at = (\<lambda>i websetId. None),
       delete_at = (\<lambda>i websetId. None),
       list_at = (\<lambda>i websetId. ([], None)),
       monitor_at = (\<lambda>i websetId params. None) \<rparr>"

text \<open>The arguments of S1: a query, an entity, \<^verbatim>\<open>count: 5\<close> and the given timeout.\<close>

definition harvestArgs :: "rat \<Rightarrow> HarvestArgs" where
  "harvestArgs timeoutMs =
     \<lparr> a_query = JStr ''AI infra startups'',
       a_entity = JObj [(''type'', JStr ''company'')],
       a_criteria = JUndefined, a_count = Some 5, a_enrichments = JUndefined,
       a_timeout = Some timeoutMs, a_cleanup = None \<rparr>"

text \<open>
  The same upstream, and a task that is cancelled after the checkpoint that follows the
  creation of the webset: the first two checks see it live, every later one cancelled.
\<close>

definition lateCancelEnv :: env where
  "lateCancelEnv = stuckEnv\<lparr> cancelled_at := (\<lambda>i. i \<ge> 2) \<rparr>"

text \<open>The same upstream with a listing that fails before it yields an item.\<close>

definition listFailEnv :: env where
  "listFailEnv =
     stuckEnv\<lparr> list_at := (\<lambda>i websetId. ([], Some (UpstreamError ''503 Service Unavailable''))) \<rparr>"

text \<open>The same upstream with a listing of three items.\<close>

definition threeItemsEnv :: env where
  "threeItemsEnv =
     stuckEnv\<lparr> list_at := (\<lambda>i websetId. ([JStr ''a'', JStr ''b'', JStr ''c''], None)) \<rparr>"

section \<open>Semantic cron: template expansion\<close>

text \<open>
  \<^verbatim>\<open>JSON.stringify\<close> of a value, without indentation. A string is quoted with the
  escapes of the standard; an object leaves out the keys whose value is undefined; an
  undefined element of an array is written \<^verbatim>\<open>null\<close>; the text of a number is the
  runtime's. Characters are code units below 256.
\<close>

definition hexDigit :: "nat \<Rightarrow> char" where
  "hexDigit n = ''0123456789abcdef'' ! (n mod 16)"

definition escapeChar :: "char \<Rightarrow> string" where
  "escapeChar c =
     (if c = DQ then [CHR 0x5C, DQ]
      else if c = CHR 0x5C then [CHR 0x5C, CHR 0x5C]
      else if c = CHR 0x08 then [CHR 0x5C, CHR ''b'']
      else if c = CHR 0x0C then [CHR 0x5C, CHR ''f'']
      else if c = CHR 0x0A then [CHR 0x5C, CHR ''n'']
      else if c = CHR 0x0D then [CHR 0x5C, CHR ''r'']
      else if c = CHR 0x09 then [CHR 0x5C, CHR ''t'']
      else if (of_char c :: nat) < 32
        then [CHR 0x5C, CHR ''u'', CHR ''0'', CHR ''0'',
              hexDigit (of_char c div 16), hexDigit (of_char c)]
      else [c])"

definition quote :: "string \<Rightarrow> string" where
  "quote s = [DQ] @ concat (map escapeChar s) @ [DQ]"

fun stringify :: "builtins \<Rightarrow> json \<Rightarrow> string" where
  "stringify js JUndefined = ''null''"
| "stringify js JNull = ''null''"
| "stringify js (JBool b) = (if b then ''true'' else ''false'')"
| "stringify js (JNum n) = Number_toString js n"
| "stringify js (JStr s) = quote s"
| "stringify js (JArr xs) = ''['' @ join '','' (map (stringify js) xs) @ '']''"
| "stringify js (JObj kvs) =
     ''{'' @ join '',''
              (map (\<lambda>kv. quote (fst kv) @ '':'' @ stringify js (snd kv))
                 (filter (\<lambda>kv. snd kv \<noteq> JUndefined) kvs)) @ ''}''"

text \<open>\<^verbatim>\<open>JSON.stringify(undefined)\<close> is \<^verbatim>\<open>undefined\<close>, not a string.\<close>

definition JSON_stringify :: "builtins \<Rightarrow> json \<Rightarrow> string option" where
  "JSON_stringify js v = (if v = JUndefined then None else Some (stringify js v))"

text \<open>The template of a variable: \<^verbatim>\<open>`{{${key}}}`\<close>.\<close>

definition template :: "string \<Rightarrow> string" where
  "template key = ''{{'' @ key @ ''}}''"

text \<open>
  The replacement text of \<^verbatim>\<open>String.prototype.replaceAll\<close> for one occurrence of a
  string pattern: in the replacement, \<^verbatim>\<open>$$\<close> stands for a dollar sign, \<^verbatim>\<open>$&\<close> for the
  matched text, \<^verbatim>\<open>$`\<close> for the text before the match and \<^verbatim>\<open>$'\<close> for the text after
  it; any other dollar sign stands for itself (a string pattern has no groups).
\<close>

fun substitution :: "string \<Rightarrow> string \<Rightarrow> string \<Rightarrow> string \<Rightarrow> string" where
  "substitution matched preceding following [] = []"
| "substitution matched preceding following [c] = [c]"
| "substitution matched preceding following (c # d # rest) =
     (if c = CHR ''$'' \<and> d = CHR ''$'' then CHR ''$'' # substitution matched preceding following rest
      else if c = CHR ''$'' \<and> d = CHR ''&'' then matched @ substitution matched preceding following rest
      else if c = CHR ''$'' \<and> d = CHR 0x60 then preceding @ substitution matched preceding following rest
      else if c = CHR ''$'' \<and> d = CHR 0x27 then following @ substitution matched preceding following rest
      else c # substitution matched preceding following (d # rest))"

text \<open>
  \<^verbatim>\<open>text.replaceAll(pattern, replacement)\<close> for a pattern that is not empty (the
  expander's patterns start with two braces): the occurrences of the pattern are found
  from the left and do not overlap. \<open>preceding\<close> is the part of the text already passed.
\<close>

function replaceFrom :: "string \<Rightarrow> string \<Rightarrow> string \<Rightarrow> string \<Rightarrow> string" where
  "replaceFrom pattern replacement preceding [] = []"
| "replaceFrom pattern replacement preceding (c # cs) =
     (if pattern \<noteq> [] \<and> take (length pattern) (c # cs) = pattern
      then substitution pattern preceding (drop (length pattern) (c # cs)) replacement
           @ replaceFrom pattern replacement (preceding @ pattern) (drop (length pattern) (c # cs))
      else c # replaceFrom pattern replacement (preceding @ [c]) cs)"
  by pat_completeness auto
termination
  by (relation "measure (\<lambda>(p, r, b, s). length s)") auto

definition replaceAll :: "string \<Rightarrow> string \<Rightarrow> string \<Rightarrow> string" where
  "replaceAll pattern replacement text = replaceFrom pattern replacement [] text"

text \<open>
  The regular expression \<^verbatim>\<open>/\{\{[^}]+\}\}/\<close> at the head of a text: two opening
  braces, the longest run of characters other than a closing brace, which must not be
  empty, and two closing braces. The result is the matched text.
\<close>

definition matchToken :: "string \<Rightarrow> string option" where
  "matchToken s =
     (if take 2 s = ''{{'' then
        (let name = takeWhile (\<lambda>c. c \<noteq> CHR ''}'') (drop 2 s);
             rest = dropWhile (\<lambda>c. c \<noteq> CHR ''}'') (drop 2 s)
         in if name \<noteq> [] \<and> take 2 rest = ''}}'' then Some (template name) else None)
      else None)"

text \<open>
  \<^verbatim>\<open>text.match(/\{\{[^}]+\}\}/g)\<close>: all matches from the left, each search starting
  where the previous match ended. The empty list is JavaScript's \<^verbatim>\<open>null\<close>.
\<close>

function scanTokens :: "string \<Rightarrow> string list" where
  "scanTokens [] = []"
| "scanTokens (c # cs) =
     (case matchToken (c # cs) of
        Some token \<Rightarrow> token # scanTokens (drop (length token) (c # cs))
      | None \<Rightarrow> scanTokens cs)"
  by pat_completeness auto
termination
  by (relation "measure length") (auto simp: matchToken_def template_def Let_def split: if_splits)

text \<open>
  The part of \<open>expandTemplates\<close> that works on the text: the loop of replacements
  over \<^verbatim>\<open>Object.entries(variables)\<close> and the check for unresolved templates.
\<close>

definition substituteAll :: "(string \<times> string) list \<Rightarrow> string \<Rightarrow> string" where
  "substituteAll variables json =
     foldl (\<lambda>expanded (key, val). replaceAll (template key) val expanded) json variables"

definition expandText :: "string \<Rightarrow> (string \<times> string) list \<Rightarrow> error + string" where
  "expandText json variables =
     (let expanded = substituteAll variables json;
          unresolved = scanTokens expanded
      in if unresolved \<noteq> [] then
           Inl (WorkflowError
                  (''Unresolved template variables: '' @ join '', '' (uniq unresolved))
                  ''validate'' False)
         else Inr expanded)"

text \<open>
  \<open>expandTemplates\<close>. \<^verbatim>\<open>JSON.parse\<close>, followed by the cast to the configuration type,
  is the parameter \<open>parse\<close>; \<open>None\<close> is its \<^verbatim>\<open>SyntaxError\<close>. The configuration is the
  JSON value it is at run time.
\<close>

definition expandTemplates ::
  "builtins \<Rightarrow> (string \<Rightarrow> 'c option) \<Rightarrow> json \<Rightarrow> (string \<times> string) list \<Rightarrow> error + 'c" where
  "expandTemplates js parse config variables =
     (case JSON_stringify js config of
        None \<Rightarrow> Inl TypeError
      | Some json \<Rightarrow>
          (case expandText json variables of
             Inl e \<Rightarrow> Inl e
           | Inr expanded \<Rightarrow>
               (case parse expanded of None \<Rightarrow> Inl SyntaxError | Some c \<Rightarrow> Inr c)))"

text \<open>
  A text holds a template token: somewhere in it stand two opening braces, a non-empty
  name without a closing brace, and two closing braces.
\<close>

definition hasToken :: "string \<Rightarrow> bool" where
  "hasToken s =
     (\<exists>pre name post. s = pre @ template name @ post \<and> name \<noteq> [] \<and>
                       CHR ''}'' \<notin> set name)"

text \<open>A text occurs in another.\<close>

definition occursIn :: "string \<Rightarrow> string \<Rightarrow> bool" where
  "occursIn t s = (\<exists>pre post. s = pre @ t @ post)"

definition braceFree :: "string \<Rightarrow> bool" where
  "braceFree s = (CHR ''{'' \<notin> set s \<and> CHR ''}'' \<notin> set s)"

text \<open>A fragment of \<^verbatim>\<open>JSON.parse\<close>: the value it returns at one text.\<close>

definition parseAt :: "string \<Rightarrow> json \<Rightarrow> string \<Rightarrow> json option" where
  "parseAt text v s = (if s = text then Some v else None)"

text \<open>
  The configuration of S5, cut down to the query of one lens and its name.
\<close>

definition hiringConfig :: "string \<Rightarrow> string \<Rightarrow> json" where
  "hiringConfig name query =
     JObj [(''lenses'', JArr [JObj [(''id'', JStr ''jobs''),
                                    (''source'', JObj [(''query'', JStr query)])]]),
           (''name'', JStr name)]"

section \<open>Properties of the condition evaluator\<close>

text \<open>
  C3. Against a result that is null, undefined (both \<open>None\<close>) or an empty array,
  \<open>evaluateCondition\<close> returns false for every operator, \<^verbatim>\<open>exists\<close> included, and with
  every value; and \<^verbatim>\<open>exists\<close> returns true exactly when the result is there, is not
  empty and its first string is not empty.
\<close>

theorem evaluateCondition_missing_or_empty:
  "evaluateCondition js c None = Inr False \<and>
   evaluateCondition js c (Some []) = Inr False \<and>
   (evaluateCondition js (c\<lparr>operator := ''exists''\<rparr>) r = Inr True
      \<longleftrightarrow> (\<exists>first rest. r = Some (first # rest) \<and> first \<noteq> []))  \<and>
   (\<exists>b. evaluateCondition js (c\<lparr>operator := ''exists''\<rparr>) r = Inr b)"
  by (auto simp: evaluateCondition_def split: option.splits list.splits)

section \<open>Properties of the signal evaluator\<close>

lemma firstMatchingCombo_None:
  "firstMatchingCombo es combos = None \<longleftrightarrow>
     \<not> list_ex (\<lambda>e. list_ex (\<lambda>combo. set combo \<subseteq> set (presentInLenses e)) combos) es"
  by (induction combos)
     (auto simp: Let_def list_all_iff list_ex_iff filter_empty_conv)

lemma firstMatchingCombo_Some:
  "firstMatchingCombo es combos = Some (m, c) \<Longrightarrow> m \<noteq> []"
  by (induction combos) (auto simp: Let_def split: if_splits)

lemma withEntities_fired:
  "evaluateSignalWithEntities jr sc ids = Inr r \<Longrightarrow>
     fired r = list_ex (entitySatisfies sc ids) (entities jr)"
proof (cases "rtype (requires sc)")
  case Combination
  assume r: "evaluateSignalWithEntities jr sc ids = Inr r"
  with Combination obtain combos where s: "sufficient (requires sc) = Some combos"
    by (auto simp: evaluateSignalWithEntities_def split: option.splits)
  show ?thesis
  proof (cases "firstMatchingCombo (entities jr) combos")
    case None
    with r Combination s show ?thesis
      using firstMatchingCombo_None [of "entities jr" combos]
      by (auto simp: evaluateSignalWithEntities_def entitySatisfies_def list_ex_iff)
  next
    case (Some mc)
    obtain m c where mc: "mc = (m, c)" by (cases mc)
    from Some mc have "m \<noteq> []" by (auto dest: firstMatchingCombo_Some)
    moreover from Some have "firstMatchingCombo (entities jr) combos \<noteq> None" by simp
    ultimately show ?thesis
      using r Combination s Some mc firstMatchingCombo_None [of "entities jr" combos]
      by (auto simp: evaluateSignalWithEntities_def entitySatisfies_def list_ex_iff)
  qed
next
  case All
  assume "evaluateSignalWithEntities jr sc ids = Inr r"
  with All have "fired r =
      (filter (\<lambda>e. list_all (\<lambda>i. i \<in> set (presentInLenses e)) ids) (entities jr) \<noteq> [])"
    by (auto simp: evaluateSignalWithEntities_def Let_def)
  with All show ?thesis
    by (auto simp: entitySatisfies_def list_ex_iff list_all_iff filter_empty_conv)
next
  case Any
  assume "evaluateSignalWithEntities jr sc ids = Inr r"
  with Any have "fired r = (entities jr \<noteq> [])"
    by (auto simp: evaluateSignalWithEntities_def Let_def)
  with Any show ?thesis
    by (cases "entities jr") (simp_all add: entitySatisfies_def)
next
  case Threshold
  assume "evaluateSignalWithEntities jr sc ids = Inr r"
  with Threshold have "fired r =
      (filter (\<lambda>e. of_nat (lensCount e) \<ge> minOrDefault (rmin (requires sc))) (entities jr) \<noteq> [])"
    by (auto simp: evaluateSignalWithEntities_def Let_def)
  with Threshold show ?thesis
    by (simp add: entitySatisfies_def list_ex_iff filter_empty_conv)
qed

lemma firstCoveredCombo_iff:
  "(firstCoveredCombo evidence combos \<noteq> None) =
     list_ex (\<lambda>combo. set combo \<subseteq> set evidence) combos"
  by (induction combos) (auto simp: firstCoveredCombo_def list_all_iff)

lemma withEvidence_result:
  assumes "evaluateSignalWithEvidence jr sc ids = Inr r"
  shows "sentities r = [] \<and> satisfiedBy r = lensesWithEvidence jr \<and>
         rule r = rtype (requires sc) \<and>
         fired r = evidenceSatisfies sc ids (lensesWithEvidence jr)"
proof (cases "rtype (requires sc)")
  case Combination
  with assms obtain combos where s: "sufficient (requires sc) = Some combos"
    by (auto simp: evaluateSignalWithEvidence_def Let_def split: option.splits)
  with assms Combination
  have "r = \<lparr> fired = (firstCoveredCombo (lensesWithEvidence jr) combos \<noteq> None),
               satisfiedBy = lensesWithEvidence jr, rule = Combination,
               matchedCombination = firstCoveredCombo (lensesWithEvidence jr) combos,
               sentities = [] \<rparr>"
    by (simp add: evaluateSignalWithEvidence_def Let_def)
  with Combination s show ?thesis
    using firstCoveredCombo_iff [of "lensesWithEvidence jr" combos]
    by (simp add: evidenceSatisfies_def)
qed (use assms in \<open>auto simp: evaluateSignalWithEvidence_def evidenceSatisfies_def Let_def
       list_all_iff\<close>)

lemma evaluateSignal_returns:
  "validateCombination sc ids = None \<Longrightarrow> \<exists>r. evaluateSignal jr sc ids = Inr r"
  by (cases "rtype (requires sc)")
     (auto simp: evaluateSignal_def validateCombination_def evaluateSignalWithEntities_def
                 evaluateSignalWithEvidence_def Let_def
           split: option.splits if_splits)

text \<open>
  C10. \<open>evaluateSignal\<close> returns a result unless the validation of a \<^verbatim>\<open>combination\<close>
  rule throws, and it chooses what it evaluates over by whether the join result has a
  joined entity, whatever the join mode (\<open>jtype\<close> is not looked at). With no entity the
  rule is evaluated over the lens evidence: the signal fired exactly when the evidence
  satisfies the rule, \<^verbatim>\<open>satisfiedBy\<close> is the evidence, and the entity list of the result
  is empty. With at least one entity the rule is evaluated over the entities: the
  signal fired exactly when some entity satisfies the rule.
\<close>

theorem evaluateSignal_base_by_entities:
  "(validateCombination sc ids = None \<longrightarrow> (\<exists>r'. evaluateSignal jr sc ids = Inr r')) \<and>
   (evaluateSignal jr sc ids = Inr r \<longrightarrow>
      (entities jr = [] \<longrightarrow>
         evaluateSignalWithEvidence jr sc ids = Inr r \<and> sentities r = [] \<and>
         satisfiedBy r = lensesWithEvidence jr \<and> rule r = rtype (requires sc) \<and>
         (fired r \<longleftrightarrow> evidenceSatisfies sc ids (lensesWithEvidence jr))) \<and>
      (entities jr \<noteq> [] \<longrightarrow>
         evaluateSignalWithEntities jr sc ids = Inr r \<and>
         (fired r \<longleftrightarrow> (\<exists>e \<in> set (entities jr). entitySatisfies sc ids e))))"
proof (intro conjI impI)
  assume "validateCombination sc ids = None"
  then show "\<exists>r'. evaluateSignal jr sc ids = Inr r'" by (rule evaluateSignal_returns)
next
  assume r: "evaluateSignal jr sc ids = Inr r" and e: "entities jr = []"
  then show ev: "evaluateSignalWithEvidence jr sc ids = Inr r"
    by (auto simp: evaluateSignal_def split: option.splits)
  from withEvidence_result [OF ev]
  show "sentities r = []" "satisfiedBy r = lensesWithEvidence jr" "rule r = rtype (requires sc)"
    "fired r \<longleftrightarrow> evidenceSatisfies sc ids (lensesWithEvidence jr)"
    by simp_all
next
  assume r: "evaluateSignal jr sc ids = Inr r" and e: "entities jr \<noteq> []"
  then show en: "evaluateSignalWithEntities jr sc ids = Inr r"
    by (auto simp: evaluateSignal_def split: option.splits)
  then show "fired r \<longleftrightarrow> (\<exists>e \<in> set (entities jr). entitySatisfies sc ids e)"
    by (simp add: withEntities_fired list_ex_iff)
qed

text \<open>
  The theorem at work: lenses A, B and C and the rule \<^verbatim>\<open>combination\<close> with the
  sufficient sets [A, B] and [A, C]. With one entity found in A and B the signal fires
  on the first set. With no entity and the lens evidence A and C, as a temporal join
  gives it, the signal fires on the second set.
\<close>

theorem evaluateSignal_base_by_entities_witness:
  "evaluateSignal
     \<lparr> jtype = Entity,
       entities = [\<lparr> entity = ''Acme'', url = ''https://acme.com'',
                     presentInLenses = [''A'', ''B''], lensCount = 2, shapes = [] \<rparr>],
       lensesWithEvidence = [''A'', ''B''] \<rparr>
     \<lparr> sproxy = None,
       requires = \<lparr> rtype = Combination, rmin = None,
                    sufficient = Some [[''A'', ''B''], [''A'', ''C'']] \<rparr> \<rparr>
     [''A'', ''B'', ''C'']
   = Inr \<lparr> fired = True, satisfiedBy = [''A'', ''B''], rule = Combination,
            matchedCombination = Some [''A'', ''B''], sentities = [''Acme''] \<rparr>
   \<and> (\<exists>e \<in> set [\<lparr> entity = ''Acme'', url = ''https://acme.com'',
                     presentInLenses = [''A'', ''B''], lensCount = 2, shapes = [] \<rparr>].
         entitySatisfies
           \<lparr> sproxy = None,
             requires = \<lparr> rtype = Combination, rmin = None,
                          sufficient = Some [[''A'', ''B''], [''A'', ''C'']] \<rparr> \<rparr>
           [''A'', ''B'', ''C''] e)
   \<and> evaluateSignal
     \<lparr> jtype = Temporal, entities = [], lensesWithEvidence = [''A'', ''C''] \<rparr>
     \<lparr> sproxy = None,
       requires = \<lparr> rtype = Combination, rmin = None,
                    sufficient = Some [[''A'', ''B''], [''A'', ''C'']] \<rparr> \<rparr>
     [''A'', ''B'', ''C'']
   = Inr \<lparr> fired = True, satisfiedBy = [''A'', ''C''], rule = Combination,
            matchedCombination = Some [''A'', ''C''], sentities = [] \<rparr>
   \<and> evidenceSatisfies
     \<lparr> sproxy = None,
       requires = \<lparr> rtype = Combination, rmin = None,
                    sufficient = Some [[''A'', ''B''], [''A'', ''C'']] \<rparr> \<rparr>
     [''A'', ''B'', ''C''] [''A'', ''C'']"
proof -
  let ?acme = "\<lparr> entity = ''Acme'', url = ''https://acme.com'',
                 presentInLenses = [''A'', ''B''], lensCount = 2, shapes = [] \<rparr>"
  let ?jr = "\<lparr> jtype = Entity, entities = [?acme], lensesWithEvidence = [''A'', ''B''] \<rparr>"
  let ?sc = "\<lparr> sproxy = None,
               requires = \<lparr> rtype = Combination, rmin = None,
                            sufficient = Some [[''A'', ''B''], [''A'', ''C'']] \<rparr> \<rparr>"
  let ?r = "\<lparr> fired = True, satisfiedBy = [''A'', ''B''], rule = Combination,
              matchedCombination = Some [''A'', ''B''], sentities = [''Acme''] \<rparr>"
  let ?jre = "\<lparr> jtype = Temporal, entities = [], lensesWithEvidence = [''A'', ''C''] \<rparr>"
  let ?re = "\<lparr> fired = True, satisfiedBy = [''A'', ''C''], rule = Combination,
               matchedCombination = Some [''A'', ''C''], sentities = [] \<rparr>"
  have run: "evaluateSignal ?jr ?sc [''A'', ''B'', ''C''] = Inr ?r"
    by (simp add: evaluateSignal_def validateCombination_def unknownLens_def
          evaluateSignalWithEntities_def uniq_def Let_def)
  have run0: "evaluateSignal ?jre ?sc [''A'', ''B'', ''C''] = Inr ?re"
    by (simp add: evaluateSignal_def validateCombination_def unknownLens_def
          evaluateSignalWithEvidence_def firstCoveredCombo_def Let_def)
  have ne: "entities ?jr \<noteq> []" and e0: "entities ?jre = []"
    by simp_all
  from evaluateSignal_base_by_entities [of ?sc "[''A'', ''B'', ''C'']" ?jr ?r] run ne
  have sat: "\<exists>e \<in> set (entities ?jr). entitySatisfies ?sc [''A'', ''B'', ''C''] e"
    by fastforce
  from evaluateSignal_base_by_entities [of ?sc "[''A'', ''B'', ''C'']" ?jre ?re] run0 e0
  have ev: "evidenceSatisfies ?sc [''A'', ''B'', ''C''] (lensesWithEvidence ?jre)"
    by fastforce
  from run sat run0 ev show ?thesis
    by simp
qed

section \<open>Properties of the item projection\<close>

lemma map_of_tabulate:
  "k \<in> set keys \<Longrightarrow> map_of (map (\<lambda>k. (k, f k)) keys) k = Some (f k)"
  by (induction keys) auto

lemma pick_pick: "pick keys e = Inr y \<Longrightarrow> pick keys y = Inr y"
  by (auto simp: pick_def nullish_def map_of_tabulate split: if_splits)

lemma mapE_pick: "mapE (pick keys) xs = Inr ys \<Longrightarrow> mapE (pick keys) ys = Inr ys"
proof (induction xs arbitrary: ys)
  case Nil
  then show ?case by simp
next
  case (Cons x xs)
  then show ?case
    by (auto split: sum.splits dest: pick_pick)
qed

lemma projectArray_again: "projectArray keys v = Inr p \<Longrightarrow> projectArray keys p = Inr p"
  by (auto simp: projectArray_def nullish_def split: if_splits json.splits sum.splits
           dest: mapE_pick)

lemma projectItem_shape:
  assumes "projectItem x = Inr y"
  shows "\<exists>i n u t d pe pn.
    y = JObj [(''id'', i), (''name'', n), (''url'', u), (''entityType'', t),
               (''description'', d), (''evaluations'', pe), (''enrichments'', pn)] \<and>
    projectArray [''criterion'', ''satisfied''] pe = Inr pe \<and>
    projectArray [''description'', ''format'', ''result''] pn = Inr pn"
  using assms
  by (auto simp: projectItem_def split: sum.splits prod.splits dest: projectArray_again)

lemma projectItem_acme: "projectItem acmeItem = Inr acmeProjected"
  by (simp add: acmeItem_def acmeProjected_def projectItem_def extractItemFields_def
        nullish_def projectArray_def pick_def coalesce_def optProp_def)

text \<open>
  C8, as stated, fails on the raw item of the repository's own projection tests: its
  projection carries the name \<^verbatim>\<open>Acme Corp\<close>, and projecting that again gives the name
  \<^verbatim>\<open>unknown\<close>, because a projected item has no \<^verbatim>\<open>properties\<close> to read the name from.
\<close>

theorem projectItem_idempotent_counterexample:
  "projectItem acmeItem = Inr acmeProjected \<and>
   projectItem acmeProjected \<noteq> Inr acmeProjected \<and>
   getProp acmeProjected ''name'' = JStr ''Acme Corp'' \<and>
   projectItem acmeProjected = Inr (withoutIdentity acmeProjected) \<and>
   getProp (withoutIdentity acmeProjected) ''name'' = JStr ''unknown''"
  by (simp add: acmeItem_def acmeProjected_def projectItem_def extractItemFields_def
        nullish_def projectArray_def pick_def coalesce_def optProp_def withoutIdentity_def)

text \<open>
  C8, amended. Whenever \<open>projectItem\<close> returns on \<open>x\<close>, projecting the result \<open>y\<close>
  again returns \<open>y\<close> with name, url, entityType and description reset to
  \<^verbatim>\<open>unknown\<close>, the empty string, \<^verbatim>\<open>unknown\<close> and the empty string (id, evaluations and
  enrichments are kept); that value is a fixed point of \<open>projectItem\<close>, so the
  projection is idempotent from its second application on; and the second projection
  equals the first exactly when the first already carries those four values.
\<close>

theorem projectItem_twice:
  assumes "projectItem x = Inr y"
  shows "projectItem y = Inr (withoutIdentity y) \<and>
         projectItem (withoutIdentity y) = Inr (withoutIdentity y) \<and>
         (projectItem y = Inr y \<longleftrightarrow>
            getProp y ''name'' = JStr ''unknown'' \<and> getProp y ''url'' = JStr [] \<and>
            getProp y ''entityType'' = JStr ''unknown'' \<and>
            getProp y ''description'' = JStr [])"
proof -
  from assms obtain i n u t d pe pn where
    y: "y = JObj [(''id'', i), (''name'', n), (''url'', u), (''entityType'', t),
               (''description'', d), (''evaluations'', pe), (''enrichments'', pn)]"
    and pe: "projectArray [''criterion'', ''satisfied''] pe = Inr pe"
    and pn: "projectArray [''description'', ''format'', ''result''] pn = Inr pn"
    using projectItem_shape by blast
  have 1: "projectItem y = Inr (withoutIdentity y)"
    by (simp add: y projectItem_def extractItemFields_def nullish_def withoutIdentity_def pe pn)
  have 2: "projectItem (withoutIdentity y) = Inr (withoutIdentity y)"
    by (simp add: y projectItem_def extractItemFields_def nullish_def withoutIdentity_def pe pn)
  have 3: "withoutIdentity y = y \<longleftrightarrow>
            getProp y ''name'' = JStr ''unknown'' \<and> getProp y ''url'' = JStr [] \<and>
            getProp y ''entityType'' = JStr ''unknown'' \<and> getProp y ''description'' = JStr []"
    by (auto simp: y withoutIdentity_def)
  from 1 2 3 show ?thesis by simp
qed

text \<open>
  The theorem on the two items of the tests: the item with properties (its second
  projection differs from the first) and the item without (its projection is a fixed
  point).
\<close>

theorem projectItem_twice_witness:
  "projectItem acmeItem = Inr acmeProjected \<and>
   projectItem acmeProjected = Inr (withoutIdentity acmeProjected) \<and>
   projectItem (withoutIdentity acmeProjected) = Inr (withoutIdentity acmeProjected) \<and>
   projectItem bareItem = Inr bareProjected \<and>
   projectItem bareProjected = Inr bareProjected"
proof -
  have bare: "projectItem bareItem = Inr bareProjected"
    by (simp add: bareItem_def bareProjected_def projectItem_def extractItemFields_def
          nullish_def projectArray_def)
  have "getProp bareProjected ''name'' = JStr ''unknown'' \<and>
        getProp bareProjected ''url'' = JStr [] \<and>
        getProp bareProjected ''entityType'' = JStr ''unknown'' \<and>
        getProp bareProjected ''description'' = JStr []"
    by (simp add: bareProjected_def)
  with projectItem_twice [OF bare] have fp: "projectItem bareProjected = Inr bareProjected"
    by blast
  from projectItem_twice [OF projectItem_acme] projectItem_acme bare fp
  show ?thesis by simp
qed

section \<open>Properties of the niche classification\<close>

lemma nicheKey_Nil: "nicheKey [] = []"
  by (simp add: nicheKey_def)

lemma nicheKey_single: "nicheKey [b] = (if b then ''1'' else ''0'')"
  by (simp add: nicheKey_def)

lemma nicheKey_Cons2:
  "nicheKey (a # b # v) = (if a then CHR ''1'' else CHR ''0'') # CHR '','' # nicheKey (b # v)"
  by (simp add: nicheKey_def)

lemma length_nicheKey: "length (nicheKey v) = 2 * length v - 1"
proof (induction v rule: induct_list012)
  case 1
  show ?case by (simp add: nicheKey_Nil)
next
  case (2 x)
  show ?case by (simp add: nicheKey_single)
next
  case (3 x y zs)
  then show ?case by (simp add: nicheKey_Cons2)
qed

lemma nicheKey_even:
  "i < length v \<Longrightarrow> nicheKey v ! (2 * i) = (if v ! i then CHR ''1'' else CHR ''0'')"
proof (induction v arbitrary: i rule: induct_list012)
  case 1
  then show ?case by simp
next
  case (2 x)
  then show ?case by (simp add: nicheKey_single)
next
  case (3 x y zs)
  show ?case
  proof (cases i)
    case 0
    then show ?thesis by (simp add: nicheKey_Cons2)
  next
    case (Suc j)
    with 3 show ?thesis by (simp add: nicheKey_Cons2)
  qed
qed

lemma nicheKey_odd:
  "2 * i + 1 < length (nicheKey v) \<Longrightarrow> nicheKey v ! (2 * i + 1) = CHR '',''"
proof (induction v arbitrary: i rule: induct_list012)
  case 1
  then show ?case by (simp add: nicheKey_Nil)
next
  case (2 x)
  then show ?case by (simp add: nicheKey_single split: if_splits)
next
  case (3 x y zs)
  show ?case
  proof (cases i)
    case 0
    then show ?thesis by (simp add: nicheKey_Cons2)
  next
    case (Suc j)
    with 3 show ?thesis by (simp add: nicheKey_Cons2)
  qed
qed

text \<open>
  C5, as stated, fails on the first classification test of the repository: two criteria,
  both satisfied, give the niche \<^verbatim>\<open>'1,1'\<close>, which has three characters, one of them
  a comma.
\<close>

theorem classifyItem_niche_counterexample:
  "fst (classifyItem
          [\<lparr>criterion = ''Founded after 2015'', satisfied = ''yes''\<rparr>,
           \<lparr>criterion = ''Has research'', satisfied = ''yes''\<rparr>]
          [''Founded after 2015'', ''Has research'']) = ''1,1'' \<and>
   length (fst (classifyItem
          [\<lparr>criterion = ''Founded after 2015'', satisfied = ''yes''\<rparr>,
           \<lparr>criterion = ''Has research'', satisfied = ''yes''\<rparr>]
          [''Founded after 2015'', ''Has research''])) = 3 \<and>
   length [''Founded after 2015'', ''Has research''] = 2 \<and>
   CHR '','' \<in> set (fst (classifyItem
          [\<lparr>criterion = ''Founded after 2015'', satisfied = ''yes''\<rparr>,
           \<lparr>criterion = ''Has research'', satisfied = ''yes''\<rparr>]
          [''Founded after 2015'', ''Has research'']))"
  by (simp add: classifyItem_def criteriaVector_def nicheKey_def)

text \<open>
  C5, amended. For N criteria the criteria vector has N positions, and the niche string
  is that vector written as N digits separated by commas: its length is 2N - 1 (0 when
  there is no criterion), the character at each even position 2i is \<^verbatim>\<open>1\<close> or \<^verbatim>\<open>0\<close>
  as position i of the vector is true or false, and the character at each odd position
  is a comma.
\<close>

theorem classifyItem_niche:
  "length (snd (classifyItem evs crit)) = length crit \<and>
   length (fst (classifyItem evs crit)) = 2 * length crit - 1 \<and>
   (\<forall>i < length crit.
      fst (classifyItem evs crit) ! (2 * i) =
        (if snd (classifyItem evs crit) ! i then CHR ''1'' else CHR ''0'')) \<and>
   (\<forall>i. 2 * i + 1 < length (fst (classifyItem evs crit)) \<longrightarrow>
      fst (classifyItem evs crit) ! (2 * i + 1) = CHR '','')"
proof -
  have len: "length (criteriaVector evs crit) = length crit"
    by (simp add: criteriaVector_def)
  show ?thesis
    using len nicheKey_even [of _ "criteriaVector evs crit"]
      nicheKey_odd [of _ "criteriaVector evs crit"]
    by (simp add: classifyItem_def Let_def length_nicheKey)
qed

text \<open>The theorem on the test \<^verbatim>\<open>handles missing criterion in evaluations\<close>.\<close>

theorem classifyItem_niche_witness:
  "classifyItem [\<lparr>criterion = ''A'', satisfied = ''yes''\<rparr>] [''A'', ''B'']
     = (''1,0'', [True, False]) \<and>
   length ''1,0'' = 2 * length [''A'', ''B''] - 1 \<and>
   ''1,0'' ! 0 = CHR ''1'' \<and> ''1,0'' ! 1 = CHR '','' \<and> ''1,0'' ! 2 = CHR ''0''"
proof -
  have run: "classifyItem [\<lparr>criterion = ''A'', satisfied = ''yes''\<rparr>] [''A'', ''B'']
     = (''1,0'', [True, False])"
    by (simp add: classifyItem_def criteriaVector_def nicheKey_def)
  from classifyItem_niche [of "[\<lparr>criterion = ''A'', satisfied = ''yes''\<rparr>]" "[''A'', ''B'']"]
  have "''1,0'' ! (2 * 0) = CHR ''1'' \<and> ''1,0'' ! (2 * 0 + 1) = CHR '','' \<and>
        ''1,0'' ! (2 * 1) = CHR ''0'' \<and> length ''1,0'' = 2 * length [''A'', ''B''] - 1"
    unfolding run by simp
  with run show ?thesis by simp
qed

section \<open>Properties of the join engine\<close>

lemma matchExisting_None:
  "matchExisting dice th lensId si m = None \<longleftrightarrow>
     (\<forall>(k, e) \<in> set m. \<not> urlMatch si e \<and> \<not> nameMatch dice th si e)"
  by (induction m) (auto split: if_splits)

lemma matchExisting_Some:
  "matchExisting dice th lensId si m = Some m' \<Longrightarrow>
     \<exists>pre k e post. m = pre @ (k, e) # post \<and>
       (\<forall>(k', e') \<in> set pre. \<not> urlMatch si e' \<and> \<not> nameMatch dice th si e') \<and>
       (urlMatch si e \<or> nameMatch dice th si e) \<and>
       m' = pre @ (k, foldInto lensId si e) # post"
proof (induction m arbitrary: m')
  case Nil
  then show ?case by simp
next
  case (Cons a m)
  obtain key existing where a: "a = (key, existing)" by (cases a)
  show ?case
  proof (cases "urlMatch si existing \<or> nameMatch dice th si existing")
    case True
    with Cons.prems a have "m' = (key, foldInto lensId si existing) # m"
      by (auto split: if_splits)
    with True a show ?thesis
      by (intro exI [of _ "[]"] exI [of _ key] exI [of _ existing] exI [of _ m]) simp
  next
    case False
    with Cons.prems a obtain m'' where
      m'': "matchExisting dice th lensId si m = Some m''" and m': "m' = (key, existing) # m''"
      by (auto split: if_splits)
    from Cons.IH [OF m''] obtain pre k e post where
      "m = pre @ (k, e) # post"
      "\<forall>(k', e') \<in> set pre. \<not> urlMatch si e' \<and> \<not> nameMatch dice th si e'"
      "urlMatch si e \<or> nameMatch dice th si e"
      "m'' = pre @ (k, foldInto lensId si e) # post"
      by blast
    with False a m' show ?thesis
      by (intro exI [of _ "(key, existing) # pre"] exI [of _ k] exI [of _ e] exI [of _ post]) simp
  qed
qed

lemmas join_eval = joinLensResults_def thresholdOf_def minOverlapOf_def temporalDaysOf_def
  buildEntityMap_def addItem_def urlMatch_def nameMatch_def foldInto_def setAdd_def newEntry_def
  entryKey_def toJoined_def temporalFilter_def withinWindow_def uniq_def Let_def
  assignProp_def arrayIndex_def

lemmas example_defs = lensA_def lensB_def lensIo_def acmeA_def acmeB_def acmeIo_def globex_def
  cfgET_def cfgExact_def testBuiltins_def

text \<open>
  C1, as stated, fails where the Dice coefficient equals the threshold. With
  \<^verbatim>\<open>nameThreshold\<close> 1, an item named \<^verbatim>\<open>Acme Corp\<close> with a URL of its own does not match
  the entry \<^verbatim>\<open>Acme Corp\<close> by URL, the coefficient of the two names is 1, which is at
  least the threshold, and yet the item is not folded into the entry: a second entry is
  created, and the join over the two lenses returns no entity.
\<close>

theorem addItem_threshold_counterexample:
  "\<not> urlMatch acmeIo (newEntry ''A'' acmeA) \<and>
   diceCoefficient (si_name acmeIo) (e_entity (newEntry ''A'' acmeA)) = 1 \<and>
   thresholdOf cfgExact = 1 \<and>
   addItem diceCoefficient (thresholdOf cfgExact) ''B''
      [(''https://acme.com'', newEntry ''A'' acmeA)] acmeIo
    = [(''https://acme.com'', newEntry ''A'' acmeA), (''https://acme.io'', newEntry ''B'' acmeIo)] \<and>
   entities (joinLensResults testBuiltins diceCoefficient [lensA, lensIo] cfgExact) = []"
  by (simp add: join_eval example_defs diceCoefficient_def bigrams_def)

text \<open>
  C1, amended. An item that matches no existing entry by exact URL is folded into an
  existing entry exactly when some entry has a non-empty canonical name, the item's
  name is not empty, and the Dice coefficient of the two names is strictly greater than
  the threshold; it is then folded into the first such entry in insertion order, and
  the other entries are unchanged. Otherwise a new entry is stored under the item's URL,
  else its name, else its id.
\<close>

theorem addItem_fold_or_create:
  assumes "\<forall>(k, e) \<in> set m. \<not> (si_url si \<noteq> [] \<and> e_url e \<noteq> [] \<and> si_url si = e_url e)"
  shows "if \<exists>(k, e) \<in> set m. si_name si \<noteq> [] \<and> e_entity e \<noteq> [] \<and>
                                 dice (si_name si) (e_entity e) > th
         then \<exists>pre k e post.
                m = pre @ (k, e) # post \<and>
                (\<forall>(k', e') \<in> set pre. \<not> (si_name si \<noteq> [] \<and> e_entity e' \<noteq> [] \<and>
                                             dice (si_name si) (e_entity e') > th)) \<and>
                si_name si \<noteq> [] \<and> e_entity e \<noteq> [] \<and> dice (si_name si) (e_entity e) > th \<and>
                addItem dice th lensId m si = pre @ (k, foldInto lensId si e) # post
         else addItem dice th lensId m si =
                assign (if si_url si \<noteq> [] then si_url si
                        else if si_name si \<noteq> [] then si_name si else si_id si)
                       (newEntry lensId si) m"
proof -
  from assms have nou: "\<forall>(k, e) \<in> set m. \<not> urlMatch si e"
    by (simp add: urlMatch_def)
  show ?thesis
  proof (cases "matchExisting dice th lensId si m")
    case None
    then have no: "\<forall>(k, e) \<in> set m. \<not> nameMatch dice th si e"
      by (auto simp: matchExisting_None)
    then have "\<not> (\<exists>(k, e) \<in> set m. si_name si \<noteq> [] \<and> e_entity e \<noteq> [] \<and>
                                 dice (si_name si) (e_entity e) > th)"
      by (auto simp: nameMatch_def)
    moreover have "addItem dice th lensId m si =
                assign (if si_url si \<noteq> [] then si_url si
                        else if si_name si \<noteq> [] then si_name si else si_id si)
                       (newEntry lensId si) m"
      using None by (simp add: addItem_def entryKey_def)
    ultimately show ?thesis by (simp only: if_False)
  next
    case (Some m')
    from matchExisting_Some [OF Some] obtain pre k e post where
      m: "m = pre @ (k, e) # post" and
      pre: "\<forall>(k', e') \<in> set pre. \<not> urlMatch si e' \<and> \<not> nameMatch dice th si e'" and
      hit: "urlMatch si e \<or> nameMatch dice th si e" and
      m': "m' = pre @ (k, foldInto lensId si e) # post"
      by blast
    from nou m hit have nm: "nameMatch dice th si e" by auto
    have ex: "\<exists>(k, e) \<in> set m. si_name si \<noteq> [] \<and> e_entity e \<noteq> [] \<and>
                                 dice (si_name si) (e_entity e) > th"
      using nm m by (auto simp: nameMatch_def)
    have "addItem dice th lensId m si = pre @ (k, foldInto lensId si e) # post"
      using Some m' by (simp add: addItem_def)
    with m pre nm have "\<exists>pre k e post.
                m = pre @ (k, e) # post \<and>
                (\<forall>(k', e') \<in> set pre. \<not> (si_name si \<noteq> [] \<and> e_entity e' \<noteq> [] \<and>
                                             dice (si_name si) (e_entity e') > th)) \<and>
                si_name si \<noteq> [] \<and> e_entity e \<noteq> [] \<and> dice (si_name si) (e_entity e) > th \<and>
                addItem dice th lensId m si = pre @ (k, foldInto lensId si e) # post"
      by (intro exI [of _ pre] exI [of _ k] exI [of _ e] exI [of _ post])
         (auto simp: nameMatch_def)
    with ex show ?thesis by (simp only: if_True)
  qed
qed

lemma single_entry_folded:
  assumes "\<exists>pre k e post. [(k0, e0)] = pre @ (k, e) # post \<and> Q pre \<and> A \<and> B e \<and> C e \<and>
             r = pre @ (k, F e) # post"
  shows "r = [(k0, F e0)]"
  using assms by (auto simp: Cons_eq_append_conv)

text \<open>
  The theorem on the entry of \<^verbatim>\<open>Acme Corp\<close> at the default threshold: the item with the
  same name and another URL is folded in; the item \<^verbatim>\<open>Globex\<close> gets an entry of its own.
\<close>

theorem addItem_fold_or_create_witness:
  "addItem diceCoefficient (85 / 100) ''B'' [(''https://acme.com'', newEntry ''A'' acmeA)] acmeIo
     = [(''https://acme.com'', foldInto ''B'' acmeIo (newEntry ''A'' acmeA))] \<and>
   addItem diceCoefficient (85 / 100) ''B'' [(''https://acme.com'', newEntry ''A'' acmeA)] globex
     = [(''https://acme.com'', newEntry ''A'' acmeA), (''https://globex.com'', newEntry ''B'' globex)]"
proof -
  let ?m = "[(''https://acme.com'', newEntry ''A'' acmeA)]"
  have nou: "\<forall>(k, e) \<in> set ?m.
      \<not> (si_url acmeIo \<noteq> [] \<and> e_url e \<noteq> [] \<and> si_url acmeIo = e_url e)"
    by (simp add: example_defs newEntry_def)
  have hit: "\<exists>(k, e) \<in> set ?m. si_name acmeIo \<noteq> [] \<and> e_entity e \<noteq> [] \<and>
      diceCoefficient (si_name acmeIo) (e_entity e) > 85 / 100"
    by (simp add: example_defs newEntry_def diceCoefficient_def bigrams_def)
  from addItem_fold_or_create [OF nou, where dice = diceCoefficient and th = "85 / 100"
      and lensId = "''B''"] hit
  have ex: "\<exists>pre k e post.
      ?m = pre @ (k, e) # post \<and>
      (\<forall>(k', e') \<in> set pre. \<not> (si_name acmeIo \<noteq> [] \<and> e_entity e' \<noteq> [] \<and>
                                   diceCoefficient (si_name acmeIo) (e_entity e') > 85 / 100)) \<and>
      si_name acmeIo \<noteq> [] \<and> e_entity e \<noteq> [] \<and>
      diceCoefficient (si_name acmeIo) (e_entity e) > 85 / 100 \<and>
      addItem diceCoefficient (85 / 100) ''B'' ?m acmeIo = pre @ (k, foldInto ''B'' acmeIo e) # post"
    by (simp only: if_True)
  have 1: "addItem diceCoefficient (85 / 100) ''B'' ?m acmeIo
     = [(''https://acme.com'', foldInto ''B'' acmeIo (newEntry ''A'' acmeA))]"
    by (rule single_entry_folded [OF ex])
  have nou2: "\<forall>(k, e) \<in> set ?m.
      \<not> (si_url globex \<noteq> [] \<and> e_url e \<noteq> [] \<and> si_url globex = e_url e)"
    by (simp add: example_defs newEntry_def)
  have miss: "\<not> (\<exists>(k, e) \<in> set ?m. si_name globex \<noteq> [] \<and> e_entity e \<noteq> [] \<and>
      diceCoefficient (si_name globex) (e_entity e) > 85 / 100)"
    by (simp add: example_defs newEntry_def diceCoefficient_def bigrams_def)
  from addItem_fold_or_create [OF nou2, where dice = diceCoefficient and th = "85 / 100"
      and lensId = "''B''"] miss
  have "addItem diceCoefficient (85 / 100) ''B'' ?m globex =
          assign (if si_url globex \<noteq> [] then si_url globex
                  else if si_name globex \<noteq> [] then si_name globex else si_id globex)
                 (newEntry ''B'' globex) ?m"
    by (simp only: if_False)
  also have "\<dots> = [(''https://acme.com'', newEntry ''A'' acmeA),
                   (''https://globex.com'', newEntry ''B'' globex)]"
    by (simp add: globex_def)
  finally have 2: "addItem diceCoefficient (85 / 100) ''B'' ?m globex
     = [(''https://acme.com'', newEntry ''A'' acmeA), (''https://globex.com'', newEntry ''B'' globex)]" .
  from 1 2 show ?thesis by (rule conjI)
qed

subsection \<open>The invariant of the entity map\<close>

lemma keys_assign: "map fst (assign k v m) = (if k \<in> fst ` set m then map fst m else map fst m @ [k])"
  by (induction k v m rule: assign.induct) (auto simp: image_iff)

lemma set_assign: "set (assign k v m) \<subseteq> insert (k, v) (set m)"
  by (induction k v m rule: assign.induct) auto

lemma distinct_assign: "distinct (map fst m) \<Longrightarrow> distinct (map fst (assign k v m))"
  by (simp add: keys_assign)

lemma entryOk_mono: "entryOk S ke \<Longrightarrow> S \<subseteq> T \<Longrightarrow> entryOk T ke"
  by (auto simp: entryOk_def)

lemma entityMapInv_mono: "entityMapInv S m \<Longrightarrow> S \<subseteq> T \<Longrightarrow> entityMapInv T m"
  by (auto simp: entityMapInv_def intro: entryOk_mono)

lemma entryOk_new: "(lensId, si_createdAt si) \<in> S \<Longrightarrow> entryOk S (entryKey si, newEntry lensId si)"
  by (simp add: entryOk_def entryKey_def newEntry_def)

lemma entryOk_fold:
  assumes "entryOk S (k, e)" "(lensId, si_createdAt si) \<in> S" "urlMatch si e \<or> nameMatch dice th si e"
  shows "entryOk S (k, foldInto lensId si e)"
  using assms
  by (auto simp: entryOk_def foldInto_def setAdd_def urlMatch_def nameMatch_def)

lemma addItem_inv:
  assumes inv: "entityMapInv S m" and rec: "(lensId, si_createdAt si) \<in> S"
  shows "entityMapInv S (addItem dice th lensId m si)"
proof (cases "matchExisting dice th lensId si m")
  case None
  then have eq: "addItem dice th lensId m si = assign (entryKey si) (newEntry lensId si) m"
    by (simp add: addItem_def)
  have "\<forall>ke \<in> set (assign (entryKey si) (newEntry lensId si) m). entryOk S ke"
    using set_assign [of "entryKey si" "newEntry lensId si" m] inv entryOk_new [OF rec]
    by (auto simp: entityMapInv_def)
  with inv show ?thesis
    by (simp add: eq entityMapInv_def distinct_assign)
next
  case (Some m')
  from matchExisting_Some [OF Some] obtain pre k e post where
    m: "m = pre @ (k, e) # post" and
    hit: "urlMatch si e \<or> nameMatch dice th si e" and
    m': "m' = pre @ (k, foldInto lensId si e) # post"
    by blast
  from inv m have "entryOk S (k, e)" by (simp add: entityMapInv_def)
  from entryOk_fold [OF this rec hit] have ok: "entryOk S (k, foldInto lensId si e)" .
  have eq: "addItem dice th lensId m si = pre @ (k, foldInto lensId si e) # post"
    by (simp add: addItem_def Some m')
  from inv ok show ?thesis
    unfolding eq by (auto simp: m entityMapInv_def)
qed

lemma foldl_addItem_inv:
  "entityMapInv S m \<Longrightarrow> (\<forall>si \<in> set items. (lensId, si_createdAt si) \<in> S) \<Longrightarrow>
   entityMapInv S (foldl (addItem dice th lensId) m items)"
  by (induction items arbitrary: m) (auto intro: addItem_inv)

lemma foldl_lens_inv:
  "entityMapInv S m \<Longrightarrow> recorded lrs \<subseteq> S \<Longrightarrow>
   entityMapInv S (foldl (\<lambda>entityMap lr. foldl (addItem dice th (lr_lensId lr)) entityMap (lr_shapedItems lr)) m lrs)"
proof (induction lrs arbitrary: m)
  case Nil
  then show ?case by simp
next
  case (Cons lr lrs)
  have a: "\<forall>si \<in> set (lr_shapedItems lr). (lr_lensId lr, si_createdAt si) \<in> S"
    using Cons.prems(2) by (auto simp: recorded_def)
  have b: "recorded lrs \<subseteq> S"
    using Cons.prems(2) by (auto simp: recorded_def)
  from Cons.IH [OF foldl_addItem_inv [OF Cons.prems(1) a] b] show ?case by simp
qed

lemma buildEntityMap_inv: "entityMapInv (recorded lrs) (buildEntityMap dice th lrs)"
  unfolding buildEntityMap_def
  by (rule foldl_lens_inv) (simp_all add: entityMapInv_def)

lemma anyPairWithin_iff:
  "anyPairWithin js w ts \<longleftrightarrow>
     (\<exists>i j. i < j \<and> j < length ts \<and> fst (ts ! i) \<noteq> fst (ts ! j) \<and>
            withinWindow js w (snd (ts ! i)) (snd (ts ! j)))"
proof (induction ts)
  case Nil
  then show ?case by simp
next
  case (Cons t ts)
  show ?case
  proof
    assume "anyPairWithin js w (t # ts)"
    then consider (a) "list_ex (\<lambda>u. fst t \<noteq> fst u \<and> withinWindow js w (snd t) (snd u)) ts"
      | (b) "anyPairWithin js w ts" by auto
    then show "\<exists>i j. i < j \<and> j < length (t # ts) \<and> fst ((t # ts) ! i) \<noteq> fst ((t # ts) ! j) \<and>
            withinWindow js w (snd ((t # ts) ! i)) (snd ((t # ts) ! j))"
    proof cases
      case a
      then obtain n where "n < length ts" "fst t \<noteq> fst (ts ! n)" "withinWindow js w (snd t) (snd (ts ! n))"
        by (auto simp: list_ex_iff in_set_conv_nth)
      then show ?thesis
        by (intro exI [of _ 0] exI [of _ "Suc n"]) simp
    next
      case b
      with Cons.IH obtain i j where "i < j" "j < length ts" "fst (ts ! i) \<noteq> fst (ts ! j)"
        "withinWindow js w (snd (ts ! i)) (snd (ts ! j))" by blast
      then show ?thesis
        by (intro exI [of _ "Suc i"] exI [of _ "Suc j"]) simp
    qed
  next
    assume "\<exists>i j. i < j \<and> j < length (t # ts) \<and> fst ((t # ts) ! i) \<noteq> fst ((t # ts) ! j) \<and>
            withinWindow js w (snd ((t # ts) ! i)) (snd ((t # ts) ! j))"
    then obtain i j where ij: "i < j" "j < length (t # ts)" "fst ((t # ts) ! i) \<noteq> fst ((t # ts) ! j)"
            "withinWindow js w (snd ((t # ts) ! i)) (snd ((t # ts) ! j))" by blast
    from ij(1) obtain j' where j: "j = Suc j'" by (cases j) auto
    show "anyPairWithin js w (t # ts)"
    proof (cases i)
      case 0
      with ij j have "j' < length ts" "fst t \<noteq> fst (ts ! j')" "withinWindow js w (snd t) (snd (ts ! j'))"
        by auto
      then have "list_ex (\<lambda>u. fst t \<noteq> fst u \<and> withinWindow js w (snd t) (snd u)) ts"
        unfolding list_ex_iff using nth_mem by blast
      then show ?thesis by simp
    next
      case (Suc i')
      with ij j have "i' < j'" "j' < length ts" "fst (ts ! i') \<noteq> fst (ts ! j')"
        "withinWindow js w (snd (ts ! i')) (snd (ts ! j'))" by auto
      with Cons.IH have "anyPairWithin js w ts" by blast
      then show ?thesis by simp
    qed
  qed
qed

lemma anyPairWithin_length: "anyPairWithin js w ts \<Longrightarrow> length ts \<ge> 2"
  by (auto simp: anyPairWithin_iff)

lemma find_SomeD: "find P xs = Some x \<Longrightarrow> P x \<and> x \<in> set xs"
  by (induction xs) (auto split: if_splits)

lemma distinct_keys_unique:
  "distinct (map fst m) \<Longrightarrow> (k, a) \<in> set m \<Longrightarrow> (k, b) \<in> set m \<Longrightarrow> a = b"
  by (induction m) (auto simp: image_iff)

lemma find_same:
  assumes inv: "entityMapInv S m"
    and e: "e \<in> snd ` set m"
    and f: "find (\<lambda>e'. e_entity e' = e_entity e \<and> e_url e' = e_url e) (map snd m) = Some e0"
    and p: "anyPairWithin js w (e_timestamps e0)"
  shows "e0 = e"
proof -
  from find_SomeD [OF f]
  have e0: "e0 \<in> snd ` set m" and same: "e_entity e0 = e_entity e" "e_url e0 = e_url e"
    by auto
  from e obtain k where k: "(k, e) \<in> set m" by auto
  from e0 obtain k0 where k0: "(k0, e0) \<in> set m" by auto
  from inv k k0 have ok: "entryOk S (k, e)" "entryOk S (k0, e0)" and d: "distinct (map fst m)"
    by (auto simp: entityMapInv_def)
  from p have len: "length (e_timestamps e0) \<ge> 2" by (rule anyPairWithin_length)
  have "k0 = k"
  proof (cases "e_url e = []")
    case False
    with ok same show ?thesis by (auto simp: entryOk_def)
  next
    case True
    show ?thesis
    proof (cases "e_entity e = []")
      case False
      with True ok same show ?thesis by (auto simp: entryOk_def)
    next
      case e2: True
      with True ok(2) same len show ?thesis by (auto simp: entryOk_def)
    qed
  qed
  with d k k0 show ?thesis
    by (auto dest: distinct_keys_unique)
qed

text \<open>
  C4, as stated, fails in two ways. With \<^verbatim>\<open>temporal.days\<close> 0 the temporal filter is
  skipped (0 is falsy): the entity found in lens A on 2024-01-01 and in lens B on
  2024-01-03 is returned, although the two timestamps are two days apart and the window
  is 0 ms. With \<^verbatim>\<open>temporal.days\<close> missing and \<^verbatim>\<open>minLensOverlap\<close> 1, an entity whose
  only item comes from lens A is returned.
\<close>

theorem entity_temporal_counterexample:
  "jby (cfgET (Some 0) None) = EntityTemporal \<and>
   entities (joinLensResults testBuiltins diceCoefficient [lensA, lensB] (cfgET (Some 0) None))
     = [\<lparr> entity = ''Acme Corp'', url = ''https://acme.com'',
           presentInLenses = [''A'', ''B''], lensCount = 2,
           shapes = [(''A'', []), (''B'', [])] \<rparr>] \<and>
   map (e_timestamps \<circ> snd) (buildEntityMap diceCoefficient (85 / 100) [lensA, lensB])
     = [[(''A'', ''2024-01-01T00:00:00Z''), (''B'', ''2024-01-03T00:00:00Z'')]] \<and>
   Date_getTime testBuiltins ''2024-01-03T00:00:00Z'' = Some 1704240000000 \<and>
   Date_getTime testBuiltins ''2024-01-01T00:00:00Z'' = Some 1704067200000 \<and>
   \<bar>1704240000000 - 1704067200000\<bar> > (0::int) * 86400000 \<and>
   jby (cfgET None (Some 1)) = EntityTemporal \<and>
   entities (joinLensResults testBuiltins diceCoefficient [lensA] (cfgET None (Some 1)))
     = [\<lparr> entity = ''Acme Corp'', url = ''https://acme.com'',
           presentInLenses = [''A''], lensCount = 1, shapes = [(''A'', [])] \<rparr>]"
  by (simp add: join_eval example_defs)

text \<open>
  C4, amended. The window is the product of \<^verbatim>\<open>temporal.days\<close> and 86,400,000 as the
  runtime computes it, and the distance of two dates is their difference as the runtime
  computes it. For a join with \<^verbatim>\<open>by = entity+temporal\<close> whose \<^verbatim>\<open>temporal.days\<close> is set
  and is not 0, every returned entity is built from an entry of the entity map that has
  two recorded timestamps, of items of two distinct lenses, both lenses among the
  entity's \<^verbatim>\<open>presentInLenses\<close>, whose dates both parse and whose distance is at most the
  window; so the entity is present in at least two lenses, and an entity whose items all
  come from one lens is not returned. When \<^verbatim>\<open>temporal.days\<close> is missing or 0 the window
  is not checked: the entities are those of the join with \<^verbatim>\<open>by = entity\<close>.
\<close>

theorem entity_temporal_window:
  assumes jb: "jby cfg = EntityTemporal"
  shows "(temporalDaysOf cfg = Some d \<and> d \<noteq> 0 \<and>
          ent \<in> set (entities (joinLensResults js dice lrs cfg)) \<longrightarrow>
            (\<exists>(k, e) \<in> set (buildEntityMap dice (thresholdOf cfg) lrs).
               ent = toJoined e \<and>
               set (e_timestamps e) \<subseteq> recorded lrs \<and>
               (\<exists>i j. i < j \<and> j < length (e_timestamps e) \<and>
                      fst (e_timestamps e ! i) \<noteq> fst (e_timestamps e ! j) \<and>
                      fst (e_timestamps e ! i) \<in> set (presentInLenses ent) \<and>
                      fst (e_timestamps e ! j) \<in> set (presentInLenses ent) \<and>
                      (\<exists>ta tb. Date_getTime js (snd (e_timestamps e ! i)) = Some ta \<and>
                               Date_getTime js (snd (e_timestamps e ! j)) = Some tb \<and>
                               \<bar>fsub js (of_int ta) (of_int tb)\<bar> \<le> fmul js d 86400000)) \<and>
               lensCount ent \<ge> 2)) \<and>
         (temporalDaysOf cfg = None \<or> temporalDaysOf cfg = Some 0 \<longrightarrow>
            entities (joinLensResults js dice lrs cfg) =
            entities (joinLensResults js dice lrs (cfg\<lparr>jby := Entity\<rparr>)))"
proof (intro conjI impI)
  assume h: "temporalDaysOf cfg = Some d \<and> d \<noteq> 0 \<and>
          ent \<in> set (entities (joinLensResults js dice lrs cfg))"
  let ?m = "buildEntityMap dice (thresholdOf cfg) lrs"
  let ?w = "fmul js d 86400000"
  have inv: "entityMapInv (recorded lrs) ?m" by (rule buildEntityMap_inv)
  from h jb
  have "ent \<in> set (filter (temporalFilter js ?w ?m) (map toJoined (map snd ?m)))"
    by (auto simp: joinLensResults_def Let_def)
  then obtain e where e: "e \<in> snd ` set ?m" and ej: "ent = toJoined e"
    and tf: "temporalFilter js ?w ?m ent" by auto
  from tf ej obtain e0 where
    f: "find (\<lambda>e'. e_entity e' = e_entity e \<and> e_url e' = e_url e) (map snd ?m) = Some e0"
    and p: "anyPairWithin js ?w (e_timestamps e0)"
    by (auto simp: temporalFilter_def toJoined_def split: option.splits)
  from find_same [OF inv e f p] p have pe: "anyPairWithin js ?w (e_timestamps e)" by simp
  then obtain i j where ij: "i < j" "j < length (e_timestamps e)"
    "fst (e_timestamps e ! i) \<noteq> fst (e_timestamps e ! j)"
    "withinWindow js ?w (snd (e_timestamps e ! i)) (snd (e_timestamps e ! j))"
    unfolding anyPairWithin_iff by blast
  from e obtain k where k: "(k, e) \<in> set ?m" by auto
  with inv have ok: "entryOk (recorded lrs) (k, e)" by (auto simp: entityMapInv_def)
  from ij have mem: "e_timestamps e ! i \<in> set (e_timestamps e)" "e_timestamps e ! j \<in> set (e_timestamps e)"
    by auto
  with ok have li: "fst (e_timestamps e ! i) \<in> set (e_lenses e)"
    and lj: "fst (e_timestamps e ! j) \<in> set (e_lenses e)"
    by (auto simp: entryOk_def)
  from ok have dl: "distinct (e_lenses e)" and rec: "set (e_timestamps e) \<subseteq> recorded lrs"
    by (auto simp: entryOk_def)
  have "card {fst (e_timestamps e ! i), fst (e_timestamps e ! j)} \<le> card (set (e_lenses e))"
    using li lj by (intro card_mono) auto
  with ij(3) dl have two: "2 \<le> length (e_lenses e)"
    by (simp add: distinct_card)
  from ij(4) obtain ta tb where
    "Date_getTime js (snd (e_timestamps e ! i)) = Some ta"
    "Date_getTime js (snd (e_timestamps e ! j)) = Some tb"
    "\<bar>fsub js (of_int ta) (of_int tb)\<bar> \<le> ?w"
    by (auto simp: withinWindow_def split: option.splits)
  with ij li lj two rec ej k
  show "\<exists>(k, e) \<in> set (buildEntityMap dice (thresholdOf cfg) lrs).
               ent = toJoined e \<and>
               set (e_timestamps e) \<subseteq> recorded lrs \<and>
               (\<exists>i j. i < j \<and> j < length (e_timestamps e) \<and>
                      fst (e_timestamps e ! i) \<noteq> fst (e_timestamps e ! j) \<and>
                      fst (e_timestamps e ! i) \<in> set (presentInLenses ent) \<and>
                      fst (e_timestamps e ! j) \<in> set (presentInLenses ent) \<and>
                      (\<exists>ta tb. Date_getTime js (snd (e_timestamps e ! i)) = Some ta \<and>
                               Date_getTime js (snd (e_timestamps e ! j)) = Some tb \<and>
                               \<bar>fsub js (of_int ta) (of_int tb)\<bar> \<le> fmul js d 86400000)) \<and>
               lensCount ent \<ge> 2"
    by (intro bexI [of _ "(k, e)"]) (auto simp: toJoined_def)
next
  assume "temporalDaysOf cfg = None \<or> temporalDaysOf cfg = Some 0"
  with jb show "entities (joinLensResults js dice lrs cfg) =
            entities (joinLensResults js dice lrs (cfg\<lparr>jby := Entity\<rparr>))"
    by (auto simp: joinLensResults_def Let_def thresholdOf_def minOverlapOf_def
          temporalDaysOf_def)
qed

text \<open>
  The theorem on the entity found in lens A on 2024-01-01 and in lens B on 2024-01-03:
  with a window of 7 days, which the stand-in runtime computes as 604,800,000 ms, and
  with \<^verbatim>\<open>temporal.days\<close> 0, where the join returns what the join by entity returns.
\<close>

theorem entity_temporal_window_witness:
  "entities (joinLensResults testBuiltins diceCoefficient [lensA, lensB] (cfgET (Some 7) None))
     = [\<lparr> entity = ''Acme Corp'', url = ''https://acme.com'',
           presentInLenses = [''A'', ''B''], lensCount = 2,
           shapes = [(''A'', []), (''B'', [])] \<rparr>] \<and>
   fmul testBuiltins 7 86400000 = 604800000 \<and>
   (\<exists>(k, e) \<in> set (buildEntityMap diceCoefficient (thresholdOf (cfgET (Some 7) None))
                        [lensA, lensB]).
      \<exists>i j. i < j \<and> j < length (e_timestamps e) \<and>
        fst (e_timestamps e ! i) \<noteq> fst (e_timestamps e ! j) \<and>
        (\<exists>ta tb. Date_getTime testBuiltins (snd (e_timestamps e ! i)) = Some ta \<and>
                 Date_getTime testBuiltins (snd (e_timestamps e ! j)) = Some tb \<and>
                 \<bar>fsub testBuiltins (of_int ta) (of_int tb)\<bar>
                   \<le> fmul testBuiltins 7 86400000)) \<and>
   entities (joinLensResults testBuiltins diceCoefficient [lensA, lensB] (cfgET (Some 0) None))
     = entities (joinLensResults testBuiltins diceCoefficient [lensA, lensB]
                   ((cfgET (Some 0) None)\<lparr>jby := Entity\<rparr>))"
proof -
  let ?cfg = "cfgET (Some 7) None"
  let ?ent = "\<lparr> entity = ''Acme Corp'', url = ''https://acme.com'',
           presentInLenses = [''A'', ''B''], lensCount = 2,
           shapes = [(''A'', []), (''B'', [])] \<rparr>"
  have run: "entities (joinLensResults testBuiltins diceCoefficient [lensA, lensB] ?cfg) = [?ent]"
    by (simp add: join_eval example_defs)
  then have mem: "?ent \<in> set (entities (joinLensResults testBuiltins diceCoefficient
                                   [lensA, lensB] ?cfg))"
    by simp
  have c: "jby ?cfg = EntityTemporal" "temporalDaysOf ?cfg = Some 7" "(7::rat) \<noteq> 0"
    by (simp_all add: cfgET_def temporalDaysOf_def)
  have c0: "jby (cfgET (Some 0) None) = EntityTemporal"
    "temporalDaysOf (cfgET (Some 0) None) = Some 0"
    by (simp_all add: cfgET_def temporalDaysOf_def)
  have w: "fmul testBuiltins 7 86400000 = 604800000"
    by (simp add: testBuiltins_def)
  from entity_temporal_window [OF c(1), of 7 ?ent testBuiltins diceCoefficient "[lensA, lensB]"]
    c(2,3) mem
  have "\<exists>(k, e) \<in> set (buildEntityMap diceCoefficient (thresholdOf ?cfg) [lensA, lensB]).
      \<exists>i j. i < j \<and> j < length (e_timestamps e) \<and>
        fst (e_timestamps e ! i) \<noteq> fst (e_timestamps e ! j) \<and>
        (\<exists>ta tb. Date_getTime testBuiltins (snd (e_timestamps e ! i)) = Some ta \<and>
                 Date_getTime testBuiltins (snd (e_timestamps e ! j)) = Some tb \<and>
                 \<bar>fsub testBuiltins (of_int ta) (of_int tb)\<bar>
                   \<le> fmul testBuiltins 7 86400000)"
    by fast
  moreover
  from entity_temporal_window [OF c0(1), of 0 ?ent testBuiltins diceCoefficient "[lensA, lensB]"]
    c0(2)
  have "entities (joinLensResults testBuiltins diceCoefficient [lensA, lensB] (cfgET (Some 0) None))
     = entities (joinLensResults testBuiltins diceCoefficient [lensA, lensB]
                   ((cfgET (Some 0) None)\<lparr>jby := Entity\<rparr>))"
    by blast
  ultimately show ?thesis using run w by blast
qed

section \<open>Properties of the workflow helpers\<close>

lemmas prog_defs = bind_def liftT_def liftE_def liftU_def effect_def pure_def check_def ret_def
  throw_def bestEffort_def

lemmas prim_defs = dateNow_def isCancelled_def track_def websetsCreate_def websetsGet_def
  websetsCancel_def websetsDelete_def itemsListAll_def monitorsCreate_def updateProgress_def
  sleep_def

subsection \<open>Rules for what a program returns\<close>

lemma returns_bind: "returns m w (\<lambda>x w'. returns (f x) w' Q) \<Longrightarrow> returns (bind m f) w Q"
  by (auto simp: returns_def bind_def split: option.splits sum.splits prod.splits)

lemma returns_ret: "Q x w \<Longrightarrow> returns (ret x) w Q"
  by (simp add: returns_def ret_def)

lemma returns_throw: "returns (throw e) w Q"
  by (simp add: returns_def throw_def)

lemma returns_liftT: "(\<And>x w'. f w = (x, w') \<Longrightarrow> Q x w') \<Longrightarrow> returns (liftT f) w Q"
  by (auto simp: returns_def liftT_def split: prod.splits)

lemma returns_liftE: "(\<And>x w'. f w = (Inr x, w') \<Longrightarrow> Q x w') \<Longrightarrow> returns (liftE f) w Q"
  by (auto simp: returns_def liftE_def split: prod.splits)

lemma returns_liftU: "(\<And>w'. f w = (None, w') \<Longrightarrow> Q () w') \<Longrightarrow> returns (liftU f) w Q"
  by (auto simp: returns_def liftU_def split: prod.splits option.splits)

lemma returns_effect: "Q () (f w) \<Longrightarrow> returns (effect f) w Q"
  by (simp add: returns_def effect_def)

lemma returns_pure: "(\<And>x. r = Inr x \<Longrightarrow> Q x w) \<Longrightarrow> returns (pure r) w Q"
  by (auto simp: returns_def pure_def)

lemma returns_check: "(r = None \<Longrightarrow> Q () w) \<Longrightarrow> returns (check r) w Q"
  by (auto simp: returns_def check_def ret_def throw_def split: option.splits)

lemma returns_bestEffort: "(\<And>r w'. f w = (r, w') \<Longrightarrow> Q () w') \<Longrightarrow> returns (bestEffort f) w Q"
  by (auto simp: returns_def bestEffort_def split: prod.splits)

lemma returns_if:
  "(c \<Longrightarrow> returns a w Q) \<Longrightarrow> (\<not> c \<Longrightarrow> returns b w Q) \<Longrightarrow> returns (if c then a else b) w Q"
  by simp

lemma returns_case_prod:
  "(\<And>a b. p = (a, b) \<Longrightarrow> returns (f a b) w Q) \<Longrightarrow> returns (case p of (a, b) \<Rightarrow> f a b) w Q"
  by (cases p) simp

lemma returns_any: "(\<And>x w'. m w = Some (Inr x, w') \<Longrightarrow> Q x w') \<Longrightarrow> returns m w Q"
  by (simp add: returns_def)

lemmas returns_rules = returns_bind returns_ret returns_throw returns_liftT returns_liftE
  returns_liftU returns_effect returns_pure returns_check returns_bestEffort returns_if
  returns_case_prod

subsection \<open>The poll loop\<close>

lemma afterRound_counters:
  "n_get (afterRound env i s t w) = Suc (n_get w)"
  "n_now (afterRound env i s t w) = Suc (n_now w)"
  "n_check (afterRound env i s t w) = Suc (n_check w)"
  "n_create (afterRound env i s t w) = n_create w"
  "n_cancel (afterRound env i s t w) = n_cancel w"
  "n_delete (afterRound env i s t w) = n_delete w"
  "n_list (afterRound env i s t w) = n_list w"
  "n_monitor (afterRound env i s t w) = n_monitor w"
  by (simp_all add: afterRound_def websetsGet_def dateNow_def isCancelled_def sleep_def
        updateProgress_def Let_def)

lemma pollLoop_round:
  assumes "running env websetId (n_get w)"
    and "of_int (now_at env (n_now w)) < deadline"
    and "\<not> cancelled_at env (n_check w)"
  shows "pollLoop env websetId deadline s t w = pollLoop env websetId deadline s t (afterRound env websetId s t w)"
  using assms
  apply (subst pollLoop.simps)
  apply (auto simp: running_def afterRound_def websetsGet_def dateNow_def isCancelled_def Let_def
      updateProgress_def
      split: sum.splits)
  done

lemma pollLoop_timeout_now:
  assumes "get_at env (n_get w) websetId = Inr webset" "\<not> nullish webset"
    "getProp webset ''status'' \<noteq> JStr ''idle''" "getProp webset ''status'' \<noteq> JStr ''paused''"
    and "of_int (now_at env (n_now w)) \<ge> deadline"
  shows "pollLoop env websetId deadline s t w =
           Some (Inr (webset, True), snd (dateNow env (snd (websetsGet env websetId w))))"
  using assms
  apply (subst pollLoop.simps)
  apply (auto simp: websetsGet_def dateNow_def)
  done

lemma afterRounds_counters:
  "n_get ((afterRound env i s t ^^ k) w) = n_get w + k"
  "n_now ((afterRound env i s t ^^ k) w) = n_now w + k"
  "n_check ((afterRound env i s t ^^ k) w) = n_check w + k"
  "n_create ((afterRound env i s t ^^ k) w) = n_create w"
  "n_cancel ((afterRound env i s t ^^ k) w) = n_cancel w"
  "n_delete ((afterRound env i s t ^^ k) w) = n_delete w"
  "n_list ((afterRound env i s t ^^ k) w) = n_list w"
  "n_monitor ((afterRound env i s t ^^ k) w) = n_monitor w"
  by (induction k) (simp_all add: afterRound_counters)

lemma pollLoop_rounds:
  assumes "\<forall>i<k. running env websetId (n_get w + i) \<and>
                 of_int (now_at env (n_now w + i)) < deadline \<and>
                 \<not> cancelled_at env (n_check w + i)"
  shows "pollLoop env websetId deadline s t w =
         pollLoop env websetId deadline s t ((afterRound env websetId s t ^^ k) w)"
  using assms
proof (induction k arbitrary: w)
  case 0
  then show ?case by simp
next
  case (Suc k)
  from Suc.prems have first: "running env websetId (n_get w)"
      "of_int (now_at env (n_now w)) < deadline" "\<not> cancelled_at env (n_check w)"
    by (auto dest: spec [of _ 0])
  let ?w = "afterRound env websetId s t w"
  have "\<forall>i<k. running env websetId (n_get ?w + i) \<and>
                 of_int (now_at env (n_now ?w + i)) < deadline \<and>
                 \<not> cancelled_at env (n_check ?w + i)"
    using Suc.prems by (auto simp: afterRound_counters dest: spec [of _ "Suc _"])
  from Suc.IH [OF this] pollLoop_round [OF first]
  show ?case by (simp add: funpow_swap1)
qed

lemma timedOutWorld_counters:
  "n_get (timedOutWorld env i s t k w) = n_get w + k + 1"
  "n_now (timedOutWorld env i s t k w) = n_now w + k + 2"
  "n_check (timedOutWorld env i s t k w) = n_check w + k"
  "n_create (timedOutWorld env i s t k w) = n_create w"
  "n_cancel (timedOutWorld env i s t k w) = n_cancel w"
  "n_delete (timedOutWorld env i s t k w) = n_delete w"
  "n_list (timedOutWorld env i s t k w) = n_list w"
  "n_monitor (timedOutWorld env i s t k w) = n_monitor w"
  by (simp_all add: timedOutWorld_def dateNow_def websetsGet_def afterRounds_counters)

lemma pollUntilIdle_timedOut:
  assumes "pollTimesOutAt env websetId timeoutMs (n_get w) (n_now w) (n_check w) k webset"
  shows "pollUntilIdle env websetId timeoutMs s t w =
           Some (Inr (webset, True), timedOutWorld env websetId s t k w)"
proof -
  let ?d = "fadd (runtime env) (of_int (now_at env (n_now w))) timeoutMs"
  let ?w0 = "snd (dateNow env w)"
  have c0: "n_get ?w0 = n_get w" "n_now ?w0 = Suc (n_now w)" "n_check ?w0 = n_check w"
    by (simp_all add: dateNow_def)
  have rounds: "\<forall>i<k. running env websetId (n_get ?w0 + i) \<and>
                 of_int (now_at env (n_now ?w0 + i)) < ?d \<and>
                 \<not> cancelled_at env (n_check ?w0 + i)"
    using assms by (simp add: pollTimesOutAt_def c0)
  let ?wk = "(afterRound env websetId s t ^^ k) ?w0"
  have last: "get_at env (n_get ?wk) websetId = Inr webset" "\<not> nullish webset"
    "getProp webset ''status'' \<noteq> JStr ''idle''" "getProp webset ''status'' \<noteq> JStr ''paused''"
    "of_int (now_at env (n_now ?wk)) \<ge> ?d"
    using assms by (simp_all add: pollTimesOutAt_def afterRounds_counters c0)
  have "pollUntilIdle env websetId timeoutMs s t w = pollLoop env websetId ?d s t ?w0"
    by (simp add: pollUntilIdle_def dateNow_def)
  also have "\<dots> = pollLoop env websetId ?d s t ?wk"
    by (rule pollLoop_rounds [OF rounds])
  also have "\<dots> = Some (Inr (webset, True), snd (dateNow env (snd (websetsGet env websetId ?wk))))"
    by (rule pollLoop_timeout_now [OF last])
  finally show ?thesis by (simp add: timedOutWorld_def)
qed

lemma pollUntilIdle_timedOut_at:
  assumes "pollTimesOutAt env websetId timeoutMs g n c k webset"
    and "n_get w = g" "n_now w = n" "n_check w = c"
  shows "pollUntilIdle env websetId timeoutMs s t w =
           Some (Inr (webset, True), timedOutWorld env websetId s t k w)"
  using assms pollUntilIdle_timedOut by blast

lemma collectLoop_total: "\<exists>xs. collectLoop cap acc items None = Inr xs"
  by (induction items arbitrary: acc) (auto simp: Let_def)

lemma lifecycle_timeout_completes:
  assumes q: "\<not> nullish (a_query args)"
    and e: "a_entity args = JObj kvs" "''type'' \<in> fst ` set kvs"
    and c0: "\<not> cancelled_at env 0" and c1: "\<not> cancelled_at env 1"
    and cr: "\<forall>p. create_at env 0 p = Inr ws" and ws: "\<not> nullish ws"
    and poll: "pollTimesOutAt env (getProp ws ''id'') (timeoutOf args) 0 6 2 k fw"
    and c2: "\<not> cancelled_at env (2 + k)"
    and li: "snd (list_at env 0 (getProp ws ''id'')) = None"
  shows "\<exists>r w'. lifecycleHarvestWorkflow env args world0 = Some (Inr r, w') \<and>
           getProp r ''websetId'' = getProp ws ''id'' \<and>
           getProp r ''timedOut'' = JBool True \<and>
           (\<exists>items. getProp r ''items'' = JArr items)"
proof -
  let ?id = "getProp ws ''id''"
  obtain listing where l: "list_at env 0 ?id = (listing, None)"
    using li by (cases "list_at env 0 ?id") auto
  obtain items where it: "collectLoop (capOrDefault (Some ((case a_count args of None \<Rightarrow> 25 | Some c \<Rightarrow> c) * 2))) [] listing None = Inr items"
    using collectLoop_total by blast
  have c1': "\<not> cancelled_at env (Suc 0)" using c1 by simp
  have poll': "pollTimesOutAt env ?id (case a_timeout args of None \<Rightarrow> 300000 | Some t \<Rightarrow> t) 0 (Suc (Suc (Suc (Suc (Suc (Suc 0)))))) (Suc (Suc 0)) k fw"
    using poll by (simp add: timeoutOf_def eval_nat_numeral)
  have c2': "\<not> cancelled_at env (Suc (Suc k))" using c2 by simp
  note ev = lifecycleHarvestWorkflow_def prog_defs prim_defs validateRequired_def
    validateEntity_def world0_def Let_def q e c0 c1' cr ws pollUntilIdle_timedOut_at [OF poll']
    timedOutWorld_counters c2' collectItems_def l it withSummary_def
  show ?thesis
  proof (cases "case a_cleanup args of None \<Rightarrow> False | Some b \<Rightarrow> b")
    case True
    then show ?thesis
      by (simp add: ev split del: if_split split: prod.splits)
  next
    case False
    then show ?thesis
      by (simp add: ev split del: if_split)
  qed
qed

subsection \<open>The item collector\<close>

lemma collectLoop_prefix:
  "collectLoop cap acc items failure = Inr xs \<Longrightarrow>
     \<exists>n \<le> length items. xs = acc @ take n items \<and>
        (n \<le> 1 \<or> of_nat (length acc + n - 1) < cap) \<and>
        (n < length items \<longrightarrow> 1 \<le> n \<and> of_nat (length acc + n) \<ge> cap) \<and>
        (n = length items \<and> (n = 0 \<or> of_nat (length acc + n) < cap) \<longrightarrow> failure = None)"
proof (induction items arbitrary: acc)
  case Nil
  then show ?case by (auto split: option.splits)
next
  case (Cons item rest)
  show ?case
  proof (cases "of_nat (length (acc @ [item])) \<ge> cap")
    case True
    with Cons.prems have "xs = acc @ [item]" by (simp add: Let_def)
    with True show ?thesis
      by (intro exI [of _ 1]) auto
  next
    case False
    with Cons.prems have "collectLoop cap (acc @ [item]) rest failure = Inr xs"
      by (simp add: Let_def)
    from Cons.IH [OF this] obtain n where n: "n \<le> length rest" "xs = (acc @ [item]) @ take n rest"
      "n \<le> 1 \<or> of_nat (length (acc @ [item]) + n - 1) < cap"
      "n < length rest \<longrightarrow> 1 \<le> n \<and> of_nat (length (acc @ [item]) + n) \<ge> cap"
      "n = length rest \<and> (n = 0 \<or> of_nat (length (acc @ [item]) + n) < cap) \<longrightarrow> failure = None"
      by blast
    show ?thesis
    proof (intro exI [of _ "Suc n"] conjI)
      show "Suc n \<le> length (item # rest)" using n(1) by simp
      show "xs = acc @ take (Suc n) (item # rest)" using n(2) by simp
      show "Suc n \<le> 1 \<or> of_nat (length acc + Suc n - 1) < cap"
      proof (cases "n = 0")
        case True
        with False show ?thesis by simp
      next
        case n0: False
        show ?thesis
        proof (cases "n = 1")
          case True
          with False show ?thesis by simp
        next
          case n1: False
          with n0 n(3) have "of_nat (length (acc @ [item]) + n - 1) < cap" by simp
          moreover from n0 have "length (acc @ [item]) + n - 1 = length acc + n" by simp
          ultimately have *: "rat_of_nat (length acc + n) < cap" by simp
          have "rat_of_nat (length acc + Suc n - 1) = rat_of_nat (length acc + n)" by simp
          with * show ?thesis by simp
        qed
      qed
      show "Suc n < length (item # rest) \<longrightarrow> 1 \<le> Suc n \<and> cap \<le> of_nat (length acc + Suc n)"
        using n(4) by simp
      show "Suc n = length (item # rest) \<and> (Suc n = 0 \<or> of_nat (length acc + Suc n) < cap) \<longrightarrow> failure = None"
        using n(5) False by auto
    qed
  qed
qed


lemma collectLoop_bound:
  assumes "collectLoop cap [] items failure = Inr xs"
  shows "(\<exists>n. xs = take n items) \<and> rat_of_nat (length xs) < max cap 1 + 1"
proof -
  from collectLoop_prefix [OF assms] obtain n where n: "n \<le> length items" "xs = take n items"
    "n \<le> 1 \<or> rat_of_nat (n - 1) < cap"
    by auto
  from n(1,2) have len: "length xs = n" by simp
  have "rat_of_nat n < max cap 1 + 1"
  proof (cases "n \<le> 1")
    case True
    then have "rat_of_nat n \<le> 1" by simp
    then show ?thesis by simp
  next
    case False
    with n(3) have "rat_of_nat (n - 1) < cap" by simp
    moreover from False have "rat_of_nat (n - 1) = rat_of_nat n - 1" by (simp add: of_nat_diff)
    ultimately show ?thesis by simp
  qed
  with n(2) len show ?thesis by auto
qed

lemma collectItems_bound:
  assumes "collectItems env websetId cap w = (Inr xs, w')"
  shows "(\<exists>n. xs = take n (fst (list_at env (n_list w) websetId))) \<and>
         rat_of_nat (length xs) < max (capOrDefault cap) 1 + 1"
  using assms collectLoop_bound
  by (auto simp: collectItems_def itemsListAll_def split: prod.splits)


lemma lifecycle_items_bound:
  "returns (lifecycleHarvestWorkflow env args) w
     (\<lambda>r w'. r \<noteq> JNull \<longrightarrow> (\<exists>items. getProp r ''items'' = JArr items \<and>
           rat_of_nat (length items) < max (2 * countOf args) 1 + 1))"
  unfolding lifecycleHarvestWorkflow_def Let_def
  apply (intro returns_rules returns_any [of "pollUntilIdle _ _ _ _ _"])
  apply (simp_all add: withSummary_def)
   apply (auto dest!: collectItems_bound simp: capOrDefault_def countOf_def mult.commute)
  done



lemmas env_defs = stuckEnv_def lateCancelEnv_def threeItemsEnv_def runningWebset_def
  harvestArgs_def

section \<open>Properties of polling and of lifecycle.harvest\<close>

lemma nullish_simps:
  "nullish JUndefined" "nullish JNull" "\<not> nullish (JBool b)" "\<not> nullish (JNum n)"
  "\<not> nullish (JStr s)" "\<not> nullish (JArr xs)" "\<not> nullish (JObj kvs)"
  by (simp_all add: nullish_def)

lemma lateCancelEnv_fields:
  "now_at lateCancelEnv i = 1000 + 50 * int i"
  "cancelled_at lateCancelEnv i = (i \<ge> 2)"
  "create_at lateCancelEnv i params = Inr runningWebset"
  "get_at lateCancelEnv i websetId = Inr runningWebset"
  "cancel_at lateCancelEnv i websetId = None"
  "list_at lateCancelEnv i websetId = ([], None)"
  "fadd (runtime lateCancelEnv) a b = a + b"
  by (simp_all add: lateCancelEnv_def stuckEnv_def testBuiltins_def)

lemma listFailEnv_fields:
  "now_at listFailEnv i = 1000 + 50 * int i"
  "cancelled_at listFailEnv i = False"
  "create_at listFailEnv i params = Inr runningWebset"
  "get_at listFailEnv i websetId = Inr runningWebset"
  "cancel_at listFailEnv i websetId = None"
  "list_at listFailEnv i websetId = ([], Some (UpstreamError ''503 Service Unavailable''))"
  "fadd (runtime listFailEnv) a b = a + b"
  by (simp_all add: listFailEnv_def stuckEnv_def testBuiltins_def)

text \<open>
  C7, as stated, fails in its second part: a task whose poll step has timed out does
  not complete when something else ends it. The task runs with a timeout of 0 ms
  against the upstream that stays running, so its poll times out at the first fetch.
  When the item listing then fails, the error of the listing leaves the workflow and
  the task fails. When the task is cancelled after the creation of the webset, the
  checkpoint after the poll returns null, a result without \<^verbatim>\<open>websetId\<close> or \<^verbatim>\<open>timedOut\<close>.
\<close>

theorem lifecycle_timeout_counterexample:
  "pollTimesOutAt listFailEnv (JStr ''ws_1'') 0 0 6 2 0 runningWebset \<and>
   map_option fst (lifecycleHarvestWorkflow listFailEnv (harvestArgs 0) world0)
     = Some (Inl (UpstreamError ''503 Service Unavailable'')) \<and>
   pollTimesOutAt lateCancelEnv (JStr ''ws_1'') 0 0 6 2 0 runningWebset \<and>
   map_option fst (lifecycleHarvestWorkflow lateCancelEnv (harvestArgs 0) world0)
     = Some (Inr JNull)"
proof -
  have poll: "pollTimesOutAt listFailEnv (JStr ''ws_1'') 0 0
                (Suc (Suc (Suc (Suc (Suc (Suc 0)))))) (Suc (Suc 0)) 0 runningWebset"
    by (simp add: pollTimesOutAt_def listFailEnv_fields runningWebset_def nullish_def)
  have poll': "pollTimesOutAt lateCancelEnv (JStr ''ws_1'') 0 0
                (Suc (Suc (Suc (Suc (Suc (Suc 0)))))) (Suc (Suc 0)) 0 runningWebset"
    by (simp add: pollTimesOutAt_def lateCancelEnv_fields runningWebset_def nullish_def)
  have id: "getProp runningWebset ''id'' = JStr ''ws_1''" "\<not> nullish runningWebset"
    by (simp_all add: runningWebset_def nullish_def)
  have a: "map_option fst (lifecycleHarvestWorkflow listFailEnv (harvestArgs 0) world0)
     = Some (Inl (UpstreamError ''503 Service Unavailable''))"
    by (simp add: lifecycleHarvestWorkflow_def prog_defs prim_defs validateRequired_def
          validateEntity_def world0_def Let_def harvestArgs_def nullish_simps listFailEnv_fields id
          pollUntilIdle_timedOut_at [OF poll] timedOutWorld_def collectItems_def capOrDefault_def
          split del: if_split)
  have b: "map_option fst (lifecycleHarvestWorkflow lateCancelEnv (harvestArgs 0) world0)
     = Some (Inr JNull)"
    by (simp add: lifecycleHarvestWorkflow_def prog_defs prim_defs validateRequired_def
          validateEntity_def world0_def Let_def harvestArgs_def nullish_simps lateCancelEnv_fields id
          pollUntilIdle_timedOut_at [OF poll'] timedOutWorld_def
          split del: if_split)
  have n: "(6::nat) = Suc (Suc (Suc (Suc (Suc (Suc 0)))))" "(2::nat) = Suc (Suc 0)"
    by simp_all
  from poll poll' a b show ?thesis unfolding n by blast
qed

text \<open>
  C7, amended. The deadline is the sum of the first clock reading and the timeout as the
  runtime computes it. First part: a call of \<open>pollUntilIdle\<close> whose deadline elapses (at
  some fetch \<open>k\<close>) while the webset is neither idle nor paused returns - it does not
  throw and it does not run on - the last fetched webset with \<^verbatim>\<open>timedOut: true\<close>. Second
  part: a \<^verbatim>\<open>lifecycle.harvest\<close> task with valid arguments, whose webset is created, whose
  poll step times out in this way, which is not seen cancelled at its checkpoints and
  whose item listing does not fail, returns a result (it completes) that holds the id
  of the created webset as \<^verbatim>\<open>websetId\<close>, \<^verbatim>\<open>timedOut: true\<close> and the collected items.
\<close>

theorem poll_timeout_returns_flag:
  "(pollTimesOutAt env websetId timeoutMs (n_get w) (n_now w) (n_check w) k webset \<longrightarrow>
      (\<exists>w'. pollUntilIdle env websetId timeoutMs stepNum totalSteps w
               = Some (Inr (webset, True), w'))) \<and>
   (\<not> nullish (a_query args) \<and>
    (\<exists>kvs. a_entity args = JObj kvs \<and> ''type'' \<in> fst ` set kvs) \<and>
    \<not> cancelled_at env 0 \<and> \<not> cancelled_at env 1 \<and>
    (\<forall>params. create_at env 0 params = Inr ws) \<and> \<not> nullish ws \<and>
    pollTimesOutAt env (getProp ws ''id'') (timeoutOf args) 0 6 2 k' finalWebset \<and>
    \<not> cancelled_at env (2 + k') \<and>
    snd (list_at env 0 (getProp ws ''id'')) = None \<longrightarrow>
      (\<exists>r w'. lifecycleHarvestWorkflow env args world0 = Some (Inr r, w') \<and>
              getProp r ''websetId'' = getProp ws ''id'' \<and>
              getProp r ''timedOut'' = JBool True \<and>
              (\<exists>items. getProp r ''items'' = JArr items)))"
proof (intro conjI impI)
  assume "pollTimesOutAt env websetId timeoutMs (n_get w) (n_now w) (n_check w) k webset"
  from pollUntilIdle_timedOut [OF this]
  show "\<exists>w'. pollUntilIdle env websetId timeoutMs stepNum totalSteps w
               = Some (Inr (webset, True), w')"
    by blast
next
  assume h: "\<not> nullish (a_query args) \<and>
    (\<exists>kvs. a_entity args = JObj kvs \<and> ''type'' \<in> fst ` set kvs) \<and>
    \<not> cancelled_at env 0 \<and> \<not> cancelled_at env 1 \<and>
    (\<forall>params. create_at env 0 params = Inr ws) \<and> \<not> nullish ws \<and>
    pollTimesOutAt env (getProp ws ''id'') (timeoutOf args) 0 6 2 k' finalWebset \<and>
    \<not> cancelled_at env (2 + k') \<and>
    snd (list_at env 0 (getProp ws ''id'')) = None"
  then obtain kvs where "a_entity args = JObj kvs" "''type'' \<in> fst ` set kvs" by blast
  with h show "\<exists>r w'. lifecycleHarvestWorkflow env args world0 = Some (Inr r, w') \<and>
              getProp r ''websetId'' = getProp ws ''id'' \<and>
              getProp r ''timedOut'' = JBool True \<and>
              (\<exists>items. getProp r ''items'' = JArr items)"
    by (intro lifecycle_timeout_completes) auto
qed

text \<open>
  The theorem on the scenario S1 of the specification (an upstream that stays running,
  a timeout of 100 ms): the poll times out at its second fetch, and the task completes
  with \<^verbatim>\<open>timedOut: true\<close> and the webset id.
\<close>

theorem poll_timeout_returns_flag_witness:
  "(\<exists>w'. pollUntilIdle stuckEnv (JStr ''ws_1'') 100 2 4 world0
            = Some (Inr (runningWebset, True), w')) \<and>
   (\<exists>r w'. lifecycleHarvestWorkflow stuckEnv (harvestArgs 100) world0 = Some (Inr r, w') \<and>
           getProp r ''websetId'' = JStr ''ws_1'' \<and>
           getProp r ''timedOut'' = JBool True \<and>
           (\<exists>items. getProp r ''items'' = JArr items))"
proof -
  have p0: "pollTimesOutAt stuckEnv (JStr ''ws_1'') 100 (n_get world0) (n_now world0)
              (n_check world0) 1 runningWebset"
    by (simp add: pollTimesOutAt_def running_def env_defs testBuiltins_def world0_def
          nullish_def)
  have p6: "pollTimesOutAt stuckEnv (getProp runningWebset ''id'') (timeoutOf (harvestArgs 100))
              0 6 2 1 runningWebset"
    by (simp add: pollTimesOutAt_def running_def env_defs testBuiltins_def timeoutOf_def
          nullish_def)
  have pre: "\<not> nullish (a_query (harvestArgs 100)) \<and>
    (\<exists>kvs. a_entity (harvestArgs 100) = JObj kvs \<and> ''type'' \<in> fst ` set kvs) \<and>
    \<not> cancelled_at stuckEnv 0 \<and> \<not> cancelled_at stuckEnv 1 \<and>
    (\<forall>params. create_at stuckEnv 0 params = Inr runningWebset) \<and> \<not> nullish runningWebset \<and>
    pollTimesOutAt stuckEnv (getProp runningWebset ''id'') (timeoutOf (harvestArgs 100))
      0 6 2 1 runningWebset \<and>
    \<not> cancelled_at stuckEnv (2 + 1) \<and>
    snd (list_at stuckEnv 0 (getProp runningWebset ''id'')) = None"
    using p6 by (simp add: env_defs nullish_def)
  have id: "getProp runningWebset ''id'' = JStr ''ws_1''"
    by (simp add: runningWebset_def)
  from poll_timeout_returns_flag [of stuckEnv "JStr ''ws_1''" 100 world0 1 runningWebset 2 4
      "harvestArgs 100" runningWebset 1 runningWebset] p0 pre
  show ?thesis unfolding id by blast
qed


text \<open>
  C6 fails on the code at the checkpoint that follows the poll step of
  \<^verbatim>\<open>lifecycle.harvest\<close>. The task runs with a timeout of 0 ms against the upstream
  that stays running, and is cancelled after the checkpoint that follows the creation.
  The poll fetches the webset once, finds the deadline reached and returns
  \<^verbatim>\<open>timedOut: true\<close> before it looks at the task's status; the checkpoint after the
  poll then sees the cancellation and returns null. The workflow has created the webset
  \<^verbatim>\<open>ws_1\<close>, which is still running, and its upstream calls are the creation and one
  fetch: no cancel.
\<close>

theorem lifecycle_cancel_after_poll:
  "map_option (\<lambda>(r, w). (r, upstreamCalls w))
     (lifecycleHarvestWorkflow lateCancelEnv (harvestArgs 0) world0)
   = Some (Inr JNull,
           [Create (JObj [(''search'',
                           JObj [(''query'', JStr ''AI infra startups''), (''count'', JNum 5),
                                 (''entity'', JObj [(''type'', JStr ''company'')])])]),
            Get (JStr ''ws_1'')])"
proof -
  have poll: "pollTimesOutAt lateCancelEnv (JStr ''ws_1'') 0 0
                (Suc (Suc (Suc (Suc (Suc (Suc 0)))))) (Suc (Suc 0)) 0 runningWebset"
    by (simp add: pollTimesOutAt_def lateCancelEnv_fields runningWebset_def nullish_def)
  have id: "getProp runningWebset ''id'' = JStr ''ws_1''" "\<not> nullish runningWebset"
    by (simp_all add: runningWebset_def nullish_def)
  show ?thesis
    by (simp add: lifecycleHarvestWorkflow_def prog_defs prim_defs validateRequired_def
          validateEntity_def world0_def Let_def harvestArgs_def nullish_simps lateCancelEnv_fields id
          pollUntilIdle_timedOut_at [OF poll]
          timedOutWorld_def upstreamCalls_def
          split del: if_split)
qed


section \<open>Properties of the item collector\<close>

text \<open>
  C9, as stated, fails in two ways. Called without a cap, as the collect step of
  \<^verbatim>\<open>semantic.cron\<close> calls it, the collector uses the cap 1000, whatever the count the
  lens asks for: of a listing of three items it returns all three, more than twice a
  count of 1. And with the cap 0 (twice a count of 0) it returns one item, because it
  tests the cap after it has taken an item.
\<close>

theorem collectItems_cap_counterexample:
  "capOrDefault None = 1000 \<and>
   fst (collectItems threeItemsEnv (JStr ''ws_1'') None world0)
     = Inr [JStr ''a'', JStr ''b'', JStr ''c''] \<and>
   rat_of_nat (length [JStr ''a'', JStr ''b'', JStr ''c'']) > 2 * 1 \<and>
   fst (collectItems threeItemsEnv (JStr ''ws_1'') (Some (2 * 0)) world0) = Inr [JStr ''a''] \<and>
   rat_of_nat (length [JStr ''a'']) > 2 * 0"
  by (simp add: collectItems_def itemsListAll_def capOrDefault_def env_defs world0_def)

text \<open>
  C9, amended. The collector returns a prefix of the upstream listing, of fewer than
  max(cap, 1) + 1 items (at most cap items when cap is a whole number and at least 1,
  one item when cap is below 1), where cap is the caller's cap, and 1000 when the caller
  gives none. The collect step of \<^verbatim>\<open>lifecycle.harvest\<close> passes twice the count, so the
  items of its result are fewer than max(2 x count, 1) + 1.
\<close>

theorem collectItems_cap:
  "(collectItems env websetId cap w = (Inr xs, w') \<longrightarrow>
      (\<exists>n. xs = take n (fst (list_at env (n_list w) websetId))) \<and>
      rat_of_nat (length xs) < max (case cap of None \<Rightarrow> 1000 | Some c \<Rightarrow> c) 1 + 1) \<and>
   returns (lifecycleHarvestWorkflow env args) w
     (\<lambda>r w'. r \<noteq> JNull \<longrightarrow>
        (\<exists>items. getProp r ''items'' = JArr items \<and>
                 rat_of_nat (length items) < max (2 * countOf args) 1 + 1))"
  using collectItems_bound [of env websetId cap w xs w'] lifecycle_items_bound [of env args w]
  by (simp add: capOrDefault_def)

text \<open>The theorem on the listing of three items, with the cap 2 and without a cap.\<close>

theorem collectItems_cap_witness:
  "collectItems threeItemsEnv (JStr ''ws_1'') (Some 2) world0
     = (Inr [JStr ''a'', JStr ''b''],
        world0\<lparr> n_list := 1, trace := [Upstream (ListAll (JStr ''ws_1''))] \<rparr>) \<and>
   rat_of_nat (length [JStr ''a'', JStr ''b'']) < max 2 1 + 1 \<and>
   (\<exists>n. [JStr ''a'', JStr ''b''] = take n [JStr ''a'', JStr ''b'', JStr ''c''])"
proof -
  have run: "collectItems threeItemsEnv (JStr ''ws_1'') (Some 2) world0
     = (Inr [JStr ''a'', JStr ''b''],
        world0\<lparr> n_list := 1, trace := [Upstream (ListAll (JStr ''ws_1''))] \<rparr>)"
    by (simp add: collectItems_def itemsListAll_def capOrDefault_def env_defs world0_def)
  have l: "fst (list_at threeItemsEnv (n_list world0) (JStr ''ws_1''))
             = [JStr ''a'', JStr ''b'', JStr ''c'']"
    by (simp add: env_defs)
  from collectItems_cap [of threeItemsEnv "JStr ''ws_1''" "Some 2" world0 "[JStr ''a'', JStr ''b'']"
      "world0\<lparr> n_list := 1, trace := [Upstream (ListAll (JStr ''ws_1''))] \<rparr>"] run
  have "(\<exists>n. [JStr ''a'', JStr ''b''] = take n [JStr ''a'', JStr ''b'', JStr ''c'']) \<and>
        rat_of_nat (length [JStr ''a'', JStr ''b'']) < max 2 1 + 1"
    unfolding l by simp
  with run show ?thesis by simp
qed

section \<open>Properties of template expansion\<close>

lemma takeWhile_stop:
  assumes "c \<notin> set xs"
  shows "takeWhile (\<lambda>x. x \<noteq> c) (xs @ c # ys) = xs"
    and "dropWhile (\<lambda>x. x \<noteq> c) (xs @ c # ys) = c # ys"
  using assms by (induction xs) auto

lemma template_nonempty: "template k \<noteq> []"
  by (simp add: template_def)

lemma matchToken_Some:
  "matchToken s = Some t \<longleftrightarrow>
     (\<exists>name post. s = template name @ post \<and> name \<noteq> [] \<and> CHR ''}'' \<notin> set name \<and>
                  t = template name)"
proof
  assume m: "matchToken s = Some t"
  let ?name = "takeWhile (\<lambda>c. c \<noteq> CHR ''}'') (drop 2 s)"
  let ?rest = "dropWhile (\<lambda>c. c \<noteq> CHR ''}'') (drop 2 s)"
  from m have a: "take 2 s = ''{{''" and b: "?name \<noteq> []" and c: "take 2 ?rest = ''}}''"
    and t: "t = template ?name"
    by (auto simp: matchToken_def Let_def split: if_splits)
  have "s = take 2 s @ drop 2 s" by simp
  also have "drop 2 s = ?name @ ?rest" by simp
  also have "?rest = take 2 ?rest @ drop 2 ?rest" by simp
  finally have "s = template ?name @ drop 2 ?rest" using a c by (simp add: template_def)
  moreover have "CHR ''}'' \<notin> set ?name" by (auto dest: set_takeWhileD)
  ultimately show "\<exists>name post. s = template name @ post \<and> name \<noteq> [] \<and>
      CHR ''}'' \<notin> set name \<and> t = template name"
    using b t by blast
next
  assume "\<exists>name post. s = template name @ post \<and> name \<noteq> [] \<and> CHR ''}'' \<notin> set name \<and>
                  t = template name"
  then obtain name post where s: "s = template name @ post" and n: "name \<noteq> []"
    and f: "CHR ''}'' \<notin> set name" and t: "t = template name" by blast
  have d: "drop 2 s = name @ CHR ''}'' # (CHR ''}'' # post)" using s by (simp add: template_def)
  have h: "take 2 s = ''{{''" using s by (simp add: template_def)
  show "matchToken s = Some t"
    unfolding matchToken_def Let_def d takeWhile_stop [OF f] h
    using n t by simp
qed

lemma hasToken_Cons: "hasToken cs \<Longrightarrow> hasToken (c # cs)"
proof -
  assume "hasToken cs"
  then obtain pre name post where "cs = pre @ template name @ post"
    "name \<noteq> []" "CHR ''}'' \<notin> set name" by (auto simp: hasToken_def)
  then have "c # cs = (c # pre) @ template name @ post \<and> name \<noteq> [] \<and> CHR ''}'' \<notin> set name"
    by simp
  then show "hasToken (c # cs)" unfolding hasToken_def by blast
qed

lemma scanTokens_empty: "scanTokens s = [] \<longleftrightarrow> \<not> hasToken s"
proof
  assume e: "scanTokens s = []"
  show "\<not> hasToken s"
  proof
    assume "hasToken s"
    then obtain pre name post where s: "s = pre @ template name @ post"
      and n: "name \<noteq> []" "CHR ''}'' \<notin> set name" by (auto simp: hasToken_def)
    from s e show False
    proof (induction pre arbitrary: s)
      case Nil
      then have "matchToken s = Some (template name)"
        using n by (subst matchToken_Some) auto
      moreover have "s \<noteq> []" using Nil(1) template_nonempty [of name] by simp
      then obtain c cs where "s = c # cs" by (cases s) auto
      ultimately show False using Nil(2) by simp
    next
      case (Cons c pre)
      then show False by (auto split: option.splits)
    qed
  qed
next
  show "\<not> hasToken s \<Longrightarrow> scanTokens s = []"
  proof (induction s rule: scanTokens.induct)
    case 1
    then show ?case by simp
  next
    case (2 c cs)
    have "matchToken (c # cs) = None"
    proof (cases "matchToken (c # cs)")
      case (Some t)
      then have "hasToken (c # cs)"
        unfolding matchToken_Some hasToken_def by (metis append_Nil)
      with 2 show ?thesis by simp
    qed simp
    moreover have "\<not> hasToken cs" using 2(3) hasToken_Cons by blast
    ultimately show ?case using 2 by simp
  qed
qed

lemma occursIn_appendI: "occursIn t s \<Longrightarrow> occursIn t (u @ s)"
  unfolding occursIn_def by (metis append.assoc)

lemma occursIn_prefixI: "occursIn t (t @ s)"
  unfolding occursIn_def by (metis append_Nil)

lemma scanTokens_member:
  "t \<in> set (scanTokens s) \<Longrightarrow>
     occursIn t s \<and> (\<exists>name. t = template name \<and> name \<noteq> [] \<and> CHR ''}'' \<notin> set name)"
proof (induction s rule: scanTokens.induct)
  case 1
  then show ?case by simp
next
  case (2 c cs)
  show ?case
  proof (cases "matchToken (c # cs)")
    case None
    with 2 have "occursIn t cs \<and> (\<exists>name. t = template name \<and> name \<noteq> [] \<and> CHR ''}'' \<notin> set name)"
      by simp
    moreover have "occursIn t cs \<Longrightarrow> occursIn t (c # cs)"
      using occursIn_appendI [of t cs "[c]"] by simp
    ultimately show ?thesis by blast
  next
    case (Some token)
    then obtain name post where s: "c # cs = template name @ post"
      and n: "name \<noteq> []" "CHR ''}'' \<notin> set name" and tk: "token = template name"
      unfolding matchToken_Some by blast
    have sp: "c # cs = token @ post" using s tk by simp
    then have dr: "drop (length token) (c # cs) = post" by (metis append_eq_conv_conj)
    from 2(3) Some have "t = token \<or> t \<in> set (scanTokens (drop (length token) (c # cs)))"
      by simp
    then show ?thesis
    proof
      assume "t = token"
      moreover have "occursIn token (c # cs)" unfolding sp by (rule occursIn_prefixI)
      ultimately show ?thesis using tk n by blast
    next
      assume "t \<in> set (scanTokens (drop (length token) (c # cs)))"
      with 2(2) [OF Some] have "occursIn t post \<and> (\<exists>name. t = template name \<and> name \<noteq> [] \<and> CHR ''}'' \<notin> set name)"
        unfolding dr by simp
      moreover have "occursIn t post \<Longrightarrow> occursIn t (c # cs)"
        unfolding sp by (rule occursIn_appendI)
      ultimately show ?thesis by blast
    qed
  qed
qed

lemma braceFree_eq:
  assumes "CHR ''}'' \<notin> set x" "CHR ''}'' \<notin> set y"
    and "x @ CHR ''}'' # u = y @ CHR ''}'' # v"
  shows "x = y"
proof -
  have "x = takeWhile (\<lambda>c. c \<noteq> CHR ''}'') (x @ CHR ''}'' # u)"
    using takeWhile_stop(1) [OF assms(1)] by simp
  also have "\<dots> = y" unfolding assms(3) using takeWhile_stop(1) [OF assms(2)] by simp
  finally show ?thesis .
qed

text \<open>Two templates with different names, both without braces, do not overlap.\<close>

lemma templates_apart:
  assumes x: "braceFree x" and y: "braceFree y" and ne: "x \<noteq> y"
    and sp: "template x = x1 @ x2" and x2: "x2 \<noteq> []"
  shows "x2 @ b \<noteq> template y @ c"
proof
  assume eq: "x2 @ b = template y @ c"
  then have hd2: "hd x2 = CHR ''{''" using x2 by (cases x2) (auto simp: template_def)
  show False
  proof (cases x1)
    case Nil
    with sp eq have "x @ CHR ''}'' # (CHR ''}'' # b) = y @ CHR ''}'' # (CHR ''}'' # c)"
      by (auto simp: template_def)
    then have "x = y" using x y braceFree_eq unfolding braceFree_def by blast
    with ne show False by simp
  next
    case (Cons c1 r1)
    show False
    proof (cases r1)
      case Nil
      with Cons sp have x2': "x2 = CHR ''{'' # x @ ''}}''" by (auto simp: template_def)
      with eq have "x @ ''}}'' @ b = CHR ''{'' # y @ ''}}'' @ c" by (simp add: template_def)
      then show False using x unfolding braceFree_def by (cases x) auto
    next
      case (Cons c2 r2)
      with \<open>x1 = c1 # r1\<close> sp have "x @ ''}}'' = r2 @ x2" by (simp add: template_def)
      then have "set x2 \<subseteq> set (x @ ''}}'')" by (metis set_append Un_upper2)
      moreover have "hd x2 \<in> set x2" using x2 by simp
      ultimately have "hd x2 \<in> set x \<union> {CHR ''}''}" by auto
      with hd2 x show False unfolding braceFree_def by auto
    qed
  qed
qed

lemma take_eq_append: "take (length p) s = p \<Longrightarrow> s = p @ drop (length p) s"
  by (metis append_take_drop_id)

lemma replaceFrom_skip:
  "take (length p) (c # cs) \<noteq> p \<Longrightarrow>
   replaceFrom p rep pre (c # cs) = c # replaceFrom p rep (pre @ [c]) cs"
  by simp

lemma replaceFrom_hit:
  "p \<noteq> [] \<Longrightarrow> take (length p) (c # cs) = p \<Longrightarrow>
   replaceFrom p rep pre (c # cs) =
   substitution p pre (drop (length p) (c # cs)) rep
     @ replaceFrom p rep (pre @ p) (drop (length p) (c # cs))"
  by simp

lemma replaceFrom_through:
  assumes x: "braceFree x" and y: "braceFree y" and ne: "x \<noteq> y"
  shows "template x = t1 @ t2 \<Longrightarrow>
         replaceFrom (template y) rep pre (t2 @ b) =
         t2 @ replaceFrom (template y) rep (pre @ t2) b"
proof (induction t2 arbitrary: t1 pre)
  case Nil
  then show ?case by simp
next
  case (Cons c t2)
  let ?P = "template y"
  have "take (length ?P) (c # t2 @ b) \<noteq> ?P"
  proof
    assume "take (length ?P) (c # t2 @ b) = ?P"
    then have "c # t2 @ b = ?P @ drop (length ?P) (c # t2 @ b)" by (rule take_eq_append)
    then have "(c # t2) @ b = ?P @ drop (length ?P) (c # t2 @ b)" by simp
    with templates_apart [OF x y ne Cons.prems, of b] show False by blast
  qed
  then have "replaceFrom ?P rep pre (c # t2 @ b) = c # replaceFrom ?P rep (pre @ [c]) (t2 @ b)"
    by (rule replaceFrom_skip)
  also have "template x = (t1 @ [c]) @ t2" using Cons.prems by simp
  then have "replaceFrom ?P rep (pre @ [c]) (t2 @ b) = t2 @ replaceFrom ?P rep ((pre @ [c]) @ t2) b"
    by (rule Cons.IH)
  finally show ?case by simp
qed

lemma replaceFrom_keeps:
  assumes x: "braceFree x" and y: "braceFree y" and ne: "x \<noteq> y"
  shows "occursIn (template x) s \<Longrightarrow>
         occursIn (template x) (replaceFrom (template y) rep pre s)"
proof (induction s arbitrary: pre rule: length_induct)
  case (1 s)
  let ?T = "template x"
  let ?P = "template y"
  from 1(2) obtain a b where s: "s = a @ ?T @ b" unfolding occursIn_def by blast
  show ?case
  proof (cases a)
    case Nil
    with s have "s = ?T @ b" by simp
    moreover have "replaceFrom ?P rep pre (?T @ b) = ?T @ replaceFrom ?P rep (pre @ ?T) b"
      by (rule replaceFrom_through [OF x y ne, of "[]"]) simp
    ultimately show ?thesis using occursIn_prefixI by metis
  next
    case (Cons c a')
    define cs where "cs = a' @ ?T @ b"
    have sc: "s = c # cs" using s Cons cs_def by simp
    show ?thesis
    proof (cases "take (length ?P) (c # cs) = ?P")
      case False
      have "occursIn ?T cs" unfolding occursIn_def cs_def by blast
      moreover have "length cs < length s" using sc by simp
      ultimately have "occursIn ?T (replaceFrom ?P rep (pre @ [c]) cs)"
        using 1(1) by blast
      then have "occursIn ?T ([c] @ replaceFrom ?P rep (pre @ [c]) cs)"
        by (rule occursIn_appendI)
      then show ?thesis unfolding sc replaceFrom_skip [OF False] by simp
    next
      case True
      let ?r = "drop (length ?P) (c # cs)"
      from True have pr: "c # cs = ?P @ ?r" by (rule take_eq_append)
      have le: "length ?P \<le> length a"
      proof (rule ccontr)
        assume "\<not> length ?P \<le> length a"
        then have l: "length a < length ?P" by simp
        from pr s sc have e: "?P @ ?r = a @ ?T @ b" by simp
        then have "take (length a) (?P @ ?r) = a" by simp
        then have a: "take (length a) ?P = a" using l by simp
        then have P: "?P = a @ drop (length a) ?P" by (metis append_take_drop_id)
        have dn: "drop (length a) ?P \<noteq> []" using l by simp
        from e P have "a @ drop (length a) ?P @ ?r = a @ ?T @ b" by (metis append.assoc)
        then have "drop (length a) ?P @ ?r = ?T @ b" by simp
        with templates_apart [OF y x ne [symmetric] P dn, of ?r b] show False by blast
      qed
      from pr s sc have e: "?P @ ?r = a @ ?T @ b" by simp
      then have "take (length ?P) (?P @ ?r) = take (length ?P) (a @ ?T @ b)" by simp
      then have "?P = take (length ?P) a" using le by simp
      then have "a = ?P @ drop (length ?P) a" by (metis append_take_drop_id)
      with e have "?P @ ?r = ?P @ drop (length ?P) a @ ?T @ b" by (metis append.assoc)
      then have "?r = drop (length ?P) a @ ?T @ b" by simp
      then have "occursIn ?T ?r" unfolding occursIn_def by blast
      moreover have "length ?r < length s" using sc template_nonempty [of y] by simp
      ultimately have "occursIn ?T (replaceFrom ?P rep (pre @ ?P) ?r)"
        using 1(1) by blast
      then have "occursIn ?T (substitution ?P pre ?r rep @ replaceFrom ?P rep (pre @ ?P) ?r)"
        by (rule occursIn_appendI)
      then show ?thesis unfolding sc replaceFrom_hit [OF template_nonempty True] .
    qed
  qed
qed

lemma substituteAll_Cons:
  "substituteAll ((k, v) # variables) s = substituteAll variables (replaceAll (template k) v s)"
  by (simp add: substituteAll_def)

lemma substituteAll_keeps:
  assumes x: "braceFree x"
  shows "x \<notin> fst ` set variables \<Longrightarrow> \<forall>k \<in> fst ` set variables. braceFree k \<Longrightarrow>
         occursIn (template x) s \<Longrightarrow> occursIn (template x) (substituteAll variables s)"
proof (induction variables arbitrary: s)
  case Nil
  then show ?case by (simp add: substituteAll_def)
next
  case (Cons kv variables)
  obtain k v where kv: "kv = (k, v)" by (cases kv)
  have "braceFree k" "x \<noteq> k" using Cons.prems kv by auto
  then have "occursIn (template x) (replaceAll (template k) v s)"
    unfolding replaceAll_def using Cons.prems(3) by (intro replaceFrom_keeps [OF x])
  moreover have "x \<notin> fst ` set variables" "\<forall>k \<in> fst ` set variables. braceFree k"
    using Cons.prems by auto
  ultimately have "occursIn (template x) (substituteAll variables (replaceAll (template k) v s))"
    by (intro Cons.IH)
  then show ?case unfolding kv substituteAll_Cons .
qed

lemma uniq_distinct: "distinct (uniq xs)" "set (uniq xs) = set xs"
  by (simp_all add: uniq_def)

lemma hasTokenI: "occursIn (template name) s \<Longrightarrow> name \<noteq> [] \<Longrightarrow> braceFree name \<Longrightarrow> hasToken s"
  unfolding occursIn_def hasToken_def braceFree_def by blast

lemma expandText_cases:
  "expandText json variables =
     (if hasToken (substituteAll variables json)
      then Inl (WorkflowError
                 (''Unresolved template variables: '' @
                  join '', '' (uniq (scanTokens (substituteAll variables json))))
                 ''validate'' False)
      else Inr (substituteAll variables json))"
  using scanTokens_empty [of "substituteAll variables json"]
  by (simp add: expandText_def Let_def)

lemmas expand_defs = hiringConfig_def quote_def escapeChar_def expandTemplates_def
  JSON_stringify_def expandText_def substituteAll_def replaceAll_def template_def
  matchToken_def parseAt_def uniq_def Let_def

text \<open>
  C2, as stated, fails for a token that a key with braces covers and for a token whose
  name has braces. With the one variable \<^verbatim>\<open>a}}{{b\<close> the name \<^verbatim>\<open>{{a}}{{b}}\<close> becomes
  \<^verbatim>\<open>z\<close>: the text of the configuration holds the tokens \<^verbatim>\<open>{{a}}\<close> and \<^verbatim>\<open>{{b}}\<close>,
  neither \<^verbatim>\<open>a\<close> nor \<^verbatim>\<open>b\<close> is a key, and the expansion succeeds. With the one
  variable \<^verbatim>\<open>b\<close> the name \<^verbatim>\<open>{{x{{b}} hiring\<close>, where the pattern of the code finds the
  token \<^verbatim>\<open>{{x{{b}}\<close>, becomes \<^verbatim>\<open>{{xy hiring\<close>, and the expansion succeeds.
\<close>

theorem expandTemplates_token_counterexample:
  \<open>stringify testBuiltins (hiringConfig ''{{a}}{{b}}'' ''jobs'') =
     ''{"lenses":[{"id":"jobs","source":{"query":"jobs"}}],"name":"{{a}}{{b}}"}'' \<and>
   scanTokens ''{"lenses":[{"id":"jobs","source":{"query":"jobs"}}],"name":"{{a}}{{b}}"}'' =
     [''{{a}}'', ''{{b}}''] \<and>
   map_of [(''a}}{{b'', ''z'')] ''a'' = None \<and>
   map_of [(''a}}{{b'', ''z'')] ''b'' = None \<and>
   expandText ''{"lenses":[{"id":"jobs","source":{"query":"jobs"}}],"name":"{{a}}{{b}}"}''
     [(''a}}{{b'', ''z'')] =
     Inr ''{"lenses":[{"id":"jobs","source":{"query":"jobs"}}],"name":"z"}'' \<and>
   expandTemplates testBuiltins
     (parseAt ''{"lenses":[{"id":"jobs","source":{"query":"jobs"}}],"name":"z"}''
        (hiringConfig ''z'' ''jobs''))
     (hiringConfig ''{{a}}{{b}}'' ''jobs'') [(''a}}{{b'', ''z'')] =
     Inr (hiringConfig ''z'' ''jobs'') \<and>
   stringify testBuiltins (hiringConfig ''{{x{{b}} hiring'' ''jobs'') =
     ''{"lenses":[{"id":"jobs","source":{"query":"jobs"}}],"name":"{{x{{b}} hiring"}'' \<and>
   scanTokens ''{"lenses":[{"id":"jobs","source":{"query":"jobs"}}],"name":"{{x{{b}} hiring"}'' =
     [''{{x{{b}}''] \<and>
   map_of [(''b'', ''y'')] ''x{{b'' = None \<and>
   expandText ''{"lenses":[{"id":"jobs","source":{"query":"jobs"}}],"name":"{{x{{b}} hiring"}''
     [(''b'', ''y'')] =
     Inr ''{"lenses":[{"id":"jobs","source":{"query":"jobs"}}],"name":"{{xy hiring"}'' \<and>
   expandTemplates testBuiltins
     (parseAt ''{"lenses":[{"id":"jobs","source":{"query":"jobs"}}],"name":"{{xy hiring"}''
        (hiringConfig ''{{xy hiring'' ''jobs''))
     (hiringConfig ''{{x{{b}} hiring'' ''jobs'') [(''b'', ''y'')] =
     Inr (hiringConfig ''{{xy hiring'' ''jobs'')\<close>
  by (simp add: expand_defs)


text \<open>
  C2, amended. The configuration is any value but \<^verbatim>\<open>undefined\<close>, its text is
  \<^verbatim>\<open>JSON.stringify\<close> of it, and the variables are strings. The tokens are looked for in
  the text after the replacements. If that text holds a token, expansion fails at step
  \<^verbatim>\<open>validate\<close>, and its message lists, once each, the matches of the token pattern in
  the text, found from the left without overlap; each is a token of the text. If it
  holds none, the result is what \<^verbatim>\<open>JSON.parse\<close> makes of the text, which may be a
  \<^verbatim>\<open>SyntaxError\<close>. In particular, a token of the configuration's text whose name is
  not empty, has no brace and is not a key of the variables makes the expansion fail at
  step \<^verbatim>\<open>validate\<close>, provided no key has a brace.
\<close>

theorem expandTemplates_residual:
  assumes "JSON_stringify js config = Some json"
  shows "(let text = substituteAll variables json in
            if hasToken text
            then expandTemplates js parse config variables =
                   Inl (WorkflowError
                          (''Unresolved template variables: '' @
                           join '', '' (uniq (scanTokens text)))
                          ''validate'' False) \<and>
                 distinct (uniq (scanTokens text)) \<and>
                 set (uniq (scanTokens text)) = set (scanTokens text) \<and>
                 scanTokens text \<noteq> [] \<and>
                 (\<forall>t \<in> set (scanTokens text).
                    occursIn t text \<and>
                    (\<exists>n. t = template n \<and> n \<noteq> [] \<and> CHR ''}'' \<notin> set n))
            else expandTemplates js parse config variables =
                   (case parse text of None \<Rightarrow> Inl SyntaxError | Some c \<Rightarrow> Inr c)) \<and>
         (occursIn (template name) json \<and> name \<noteq> [] \<and> braceFree name \<and>
          name \<notin> fst ` set variables \<and> (\<forall>k \<in> fst ` set variables. braceFree k) \<longrightarrow>
          (\<exists>msg. expandTemplates js parse config variables =
                   Inl (WorkflowError msg ''validate'' False)))"
proof -
  let ?text = "substituteAll variables json"
  have e: "expandTemplates js parse config variables =
      (case expandText json variables of
         Inl e \<Rightarrow> Inl e
       | Inr expanded \<Rightarrow> (case parse expanded of None \<Rightarrow> Inl SyntaxError | Some c \<Rightarrow> Inr c))"
    using assms by (simp add: expandTemplates_def)
  have yes: "hasToken ?text \<Longrightarrow> expandTemplates js parse config variables =
      Inl (WorkflowError (''Unresolved template variables: '' @
             join '', '' (uniq (scanTokens ?text))) ''validate'' False)"
    unfolding e expandText_cases by simp
  have no: "\<not> hasToken ?text \<Longrightarrow> expandTemplates js parse config variables =
      (case parse ?text of None \<Rightarrow> Inl SyntaxError | Some c \<Rightarrow> Inr c)"
    unfolding e expandText_cases by simp
  have members: "\<forall>t \<in> set (scanTokens ?text).
      occursIn t ?text \<and> (\<exists>n. t = template n \<and> n \<noteq> [] \<and> CHR ''}'' \<notin> set n)"
    using scanTokens_member by blast
  have first: "if hasToken ?text
      then expandTemplates js parse config variables =
             Inl (WorkflowError (''Unresolved template variables: '' @
                    join '', '' (uniq (scanTokens ?text))) ''validate'' False) \<and>
           distinct (uniq (scanTokens ?text)) \<and>
           set (uniq (scanTokens ?text)) = set (scanTokens ?text) \<and>
           scanTokens ?text \<noteq> [] \<and>
           (\<forall>t \<in> set (scanTokens ?text).
              occursIn t ?text \<and> (\<exists>n. t = template n \<and> n \<noteq> [] \<and> CHR ''}'' \<notin> set n))
      else expandTemplates js parse config variables =
             (case parse ?text of None \<Rightarrow> Inl SyntaxError | Some c \<Rightarrow> Inr c)"
  proof (cases "hasToken ?text")
    case True
    then show ?thesis using yes members scanTokens_empty [of ?text] by (simp add: uniq_distinct)
  next
    case False
    then show ?thesis using no by simp
  qed
  have second: "occursIn (template name) json \<and> name \<noteq> [] \<and> braceFree name \<and>
      name \<notin> fst ` set variables \<and> (\<forall>k \<in> fst ` set variables. braceFree k) \<longrightarrow>
      (\<exists>msg. expandTemplates js parse config variables =
               Inl (WorkflowError msg ''validate'' False))"
  proof
    assume h: "occursIn (template name) json \<and> name \<noteq> [] \<and> braceFree name \<and>
      name \<notin> fst ` set variables \<and> (\<forall>k \<in> fst ` set variables. braceFree k)"
    then have "occursIn (template name) ?text" by (intro substituteAll_keeps) auto
    with h have "hasToken ?text" by (intro hasTokenI [of name]) auto
    from yes [OF this] show "\<exists>msg. expandTemplates js parse config variables =
               Inl (WorkflowError msg ''validate'' False)" by blast
  qed
  from first second show ?thesis unfolding Let_def by (rule conjI)
qed


text \<open>
  The theorem on the configuration of S5, whose name is \<^verbatim>\<open>{{subject}} hiring\<close>,
  without variables and with both of its variables given.
\<close>

theorem expandTemplates_residual_witness:
  \<open>expandTemplates testBuiltins (parseAt [] JNull)
     (hiringConfig ''{{subject}} hiring'' ''{{subject}} {{role}}'') [] =
     Inl (WorkflowError ''Unresolved template variables: {{subject}}, {{role}}''
            ''validate'' False) \<and>
   hasToken ''{"lenses":[{"id":"jobs","source":{"query":"{{subject}} {{role}}"}}],"name":"{{subject}} hiring"}'' \<and>
   expandTemplates testBuiltins
     (parseAt ''{"lenses":[{"id":"jobs","source":{"query":"Acme engineer"}}],"name":"Acme hiring"}''
        (hiringConfig ''Acme hiring'' ''Acme engineer''))
     (hiringConfig ''{{subject}} hiring'' ''{{subject}} {{role}}'')
     [(''subject'', ''Acme''), (''role'', ''engineer'')] =
     Inr (hiringConfig ''Acme hiring'' ''Acme engineer'') \<and>
   \<not> hasToken ''{"lenses":[{"id":"jobs","source":{"query":"Acme engineer"}}],"name":"Acme hiring"}''\<close>
proof -
  let ?config = "hiringConfig ''{{subject}} hiring'' ''{{subject}} {{role}}''"
  let ?json = \<open>''{"lenses":[{"id":"jobs","source":{"query":"{{subject}} {{role}}"}}],"name":"{{subject}} hiring"}''\<close>
  let ?done = \<open>''{"lenses":[{"id":"jobs","source":{"query":"Acme engineer"}}],"name":"Acme hiring"}''\<close>
  let ?vars = "[(''subject'', ''Acme''), (''role'', ''engineer'')]"
  let ?parse = "parseAt ?done (hiringConfig ''Acme hiring'' ''Acme engineer'')"
  have st: "JSON_stringify testBuiltins ?config = Some ?json"
    by (simp add: expand_defs)
  have t0: "substituteAll [] ?json = ?json"
    by (simp add: substituteAll_def)
  have t1: "substituteAll ?vars ?json = ?done"
    by (simp add: expand_defs)
  have e0: "expandTemplates testBuiltins (parseAt [] JNull) ?config [] =
      Inl (WorkflowError ''Unresolved template variables: {{subject}}, {{role}}''
             ''validate'' False)"
    by (simp add: expand_defs)
  have e1: "expandTemplates testBuiltins ?parse ?config ?vars =
      Inr (hiringConfig ''Acme hiring'' ''Acme engineer'')"
    by (simp add: expand_defs)
  have h0: "hasToken ?json"
    using expandTemplates_residual [OF st, where variables = "[]" and parse = "parseAt [] JNull"
        and name = "''subject''", THEN conjunct1]
    unfolding t0 e0 Let_def by (simp add: parseAt_def split: if_splits)
  have h1: "\<not> hasToken ?done"
    using expandTemplates_residual [OF st, where variables = ?vars and parse = ?parse
        and name = "''subject''", THEN conjunct1]
    unfolding t1 e1 Let_def by (simp split: if_splits)
  from e0 h0 e1 h1 show ?thesis by blast
qed

end
